theory Spec2Isabelle
  imports Complex_Main "HOL-Library.Sublist"
begin

section \<open>The model-optimisation notebook: data model\<close>

text \<open>
  The notebook \<^verbatim>\<open>model_serving/model-optimization.ipynb\<close> is a sequence of cells
  that call a machine-learning framework, a filesystem library and an HTTP client. The
  notebook's own functions are embedded here as functions that pass a \<open>world\<close>
  (filesystem, log of external calls, clock, printed lines) and return it updated,
  together with \<open>Inl\<close> of the exception raised or \<open>Inr\<close> of the value returned.
  What the external libraries compute (the graph transforms, the freezing utility, the
  model server, the exporter, the tensors of an imported graph) is not code of the
  notebook: it is a field of the environment \<open>env\<close>, so every statement below holds
  for any behaviour of theirs.
\<close>

subsection \<open>Exceptions\<close>

datatype error =
    HTTPError | ConnectionError | ValueError | KeyError | TypeError | IndexError
  | ZeroDivisionError | NotFoundError | AssertionError | FailedPreconditionError
  | DecodeError | ToolError

subsection \<open>JSON values\<close>

text \<open>
  A decoded JSON value, as \<^verbatim>\<open>res.json()\<close> returns it and as \<^verbatim>\<open>json=payload\<close>
  sends it. The decoder gives a Python int for a number written without fraction and
  exponent (\<open>JInt\<close>) and a float for any other number: \<open>JNum\<close> holds the exact value of
  a finite float, and \<open>JNaN\<close>, \<open>JInfinity\<close> and \<open>JNegInfinity\<close> are the floats it reads
  from the literals \<^verbatim>\<open>NaN\<close>, \<^verbatim>\<open>Infinity\<close> and \<^verbatim>\<open>-Infinity\<close> and from numbers too large
  for a float. An object keeps its members in the order of the text.
\<close>

datatype json =
    JNull | JBool bool | JNum rat | JInt int | JNaN | JInfinity | JNegInfinity
  | JStr string | JArr "json list" | JObj "(string \<times> json) list"

text \<open>
  The numbers that NumPy is given: a Python int, or a float, which is a finite value
  (\<open>Fin\<close>), an infinity or NaN.
\<close>

datatype float64 = Fin rat | NaN | PosInf | NegInf

datatype number = PyInt int | PyFloat float64

subsection \<open>Graphs, files and the filesystem\<close>

text \<open>
  A GraphDef is its list of nodes; of a node the notebook reads \<^verbatim>\<open>name\<close> and
  \<^verbatim>\<open>op\<close>. A file holds a serialised GraphDef (binary or text), a SavedModel or
  other bytes; the serialisation itself is the framework's and is not modelled.
\<close>

record node =
  name :: string
  op :: string

type_synonym graph_def = "node list"

record saved_model =
  sm_graph :: graph_def
  sm_inputs :: "(string \<times> string) list"
  sm_outputs :: "(string \<times> string) list"

datatype content =
    GraphDefPb graph_def | GraphDefText graph_def | SavedModelPb saved_model | Blob string

datatype entry = Dir | File content

type_synonym path = string

type_synonym filesystem = "path \<Rightarrow> entry option"

subsection \<open>External calls and printed lines\<close>

record freeze_args =
  input_saved_model_dir :: path
  output_graph :: path
  saved_model_tags :: string
  output_node_names :: string
  initializer_nodes :: string
  input_graph :: "path option"
  input_saver :: bool
  input_binary :: bool
  input_checkpoint :: "path option"
  restore_op_name :: "string option"
  filename_tensor_name :: "string option"
  clear_devices :: bool
  input_meta_graph :: bool

datatype event =
    GfileExists path
  | GfileDeleteRecursively path
  | ReadGraphFile path
  | FreezeGraphCall freeze_args
  | TransformGraphCall graph_def "string list" "string list" "string list"
  | WriteGraph graph_def path string bool
  | SimpleSave path "(string \<times> string) list" "(string \<times> string) list"
  | ExportSavedModel path
  | ShellMkdirP path
  | ShellCpR path path
  | HttpPost string json int

datatype line =
    Text string
  | Elapsed rat
  | Produced nat int
  | AverageLatency rat
  | LastInstance nat

record world =
  fs :: filesystem
  trace :: "event list"
  now :: int
  stdout :: "line list"

datatype reply = NoResponse | Response int "json option"

text \<open>
  The environment: the model server (its reply and the microseconds the request takes,
  which may depend on everything that happened before) and the evaluation images (each
  one already as the nested list \<^verbatim>\<open>tolist()\<close> gives); NumPy's \<^verbatim>\<open>argmax\<close> on values
  that are not a flat list of numbers and on lists with an integer outside 64 bits,
  which are left open; the graph transform, the freezing utility and the exporter; the
  tensors of a graph after \<^verbatim>\<open>tf.import_graph_def\<close> (\<open>None\<close> when the framework refuses
  the graph); and what \<^verbatim>\<open>cp -r\<close> does where the model does not follow it.
\<close>

record env =
  server :: "world \<Rightarrow> string \<Rightarrow> json \<Rightarrow> int \<times> reply"
  eval_data :: "json list"
  argmax_other :: "json \<Rightarrow> error + nat"
  argmax_wide :: "number list \<Rightarrow> error + nat"
  TransformGraph :: "graph_def \<Rightarrow> string list \<Rightarrow> string list \<Rightarrow> string list \<Rightarrow> error + graph_def"
  freeze_tool :: "filesystem \<Rightarrow> freeze_args \<Rightarrow> error + graph_def"
  export_tool :: "filesystem \<Rightarrow> error + string \<times> saved_model"
  imported_tensors :: "graph_def \<Rightarrow> string list option"
  cp_other :: "filesystem \<Rightarrow> path \<Rightarrow> path \<Rightarrow> filesystem"

section \<open>Strings and paths\<close>

text \<open>Python's \<^verbatim>\<open>str\<close> of an integer, used by \<^verbatim>\<open>format\<close>.\<close>

function str_nat :: "nat \<Rightarrow> string" where
  "str_nat n = (if n < 10 then [''0123456789'' ! n]
                else str_nat (n div 10) @ [''0123456789'' ! (n mod 10)])"
  by pat_completeness auto
termination
  by (relation "measure id") auto

declare str_nat.simps [simp del]

definition str_int :: "int \<Rightarrow> string" where
  "str_int i = (if i < 0 then CHR ''-'' # str_nat (nat (- i)) else str_nat (nat i))"

text \<open>\<^verbatim>\<open>os.path.join(a, b)\<close> of \<^verbatim>\<open>posixpath\<close>, for two arguments.\<close>

definition os_path_join :: "path \<Rightarrow> path \<Rightarrow> path" where
  "os_path_join a b =
     (if b \<noteq> [] \<and> hd b = CHR ''/'' then b
      else if a = [] \<or> last a = CHR ''/'' then a @ b
      else a @ ''/'' @ b)"

text \<open>
  The components of a path, and the paths in normal absolute form: they start at the
  root and have no empty component, no \<^verbatim>\<open>.\<close> and no \<^verbatim>\<open>..\<close>, so that two of
  them are the same file only when they are the same string (on a file system that
  tells upper from lower case and has no links).
\<close>

fun split_path :: "path \<Rightarrow> string list" where
  "split_path [] = [[]]"
| "split_path (c # cs) =
     (if c = CHR ''/'' then [] # split_path cs
      else (case split_path cs of [] \<Rightarrow> [[c]] | x # xs \<Rightarrow> (c # x) # xs))"

definition plain_component :: "string \<Rightarrow> bool" where
  "plain_component c = (c \<noteq> [] \<and> c \<noteq> ''.'' \<and> c \<noteq> ''..'')"

definition normal_abs :: "path \<Rightarrow> bool" where
  "normal_abs p =
     (case split_path p of
        [] \<Rightarrow> False
      | r # cs \<Rightarrow> r = [] \<and> cs \<noteq> [] \<and> list_all plain_component cs)"

text \<open>A word that the shell passes on as it is: letters, digits and \<^verbatim>\<open>/ . _ -\<close> only.\<close>

definition shell_word :: "string \<Rightarrow> bool" where
  "shell_word s =
     list_all (\<lambda>c. c \<in> set ''abcdefghijklmnopqrstuvwxyzABCDEFGHIJKLMNOPQRSTUVWXYZ0123456789/._-'') s"

section \<open>The REST client\<close>

definition SERVER_URL :: string where
  "SERVER_URL = ''http://localhost:8501''"

text \<open>\<^verbatim>\<open>raise_for_status\<close> of the HTTP client raises for the codes 400 to 599.\<close>

definition raise_for_status :: "int \<Rightarrow> error + unit" where
  "raise_for_status status = (if 400 \<le> status \<and> status < 600 then Inl HTTPError else Inr ())"

text \<open>
  \<^verbatim>\<open>response["predictions"]\<close>: a key of a dict (the last member of that name, as the
  decoder keeps it), \<^verbatim>\<open>KeyError\<close> when absent, \<^verbatim>\<open>TypeError\<close> on anything else.
\<close>

definition subscript_str :: "json \<Rightarrow> string \<Rightarrow> error + json" where
  "subscript_str v k =
     (case v of
        JObj kvs \<Rightarrow> (case map_of (rev kvs) k of None \<Rightarrow> Inl KeyError | Some x \<Rightarrow> Inr x)
      | _ \<Rightarrow> Inl TypeError)"

text \<open>\<^verbatim>\<open>for item in v\<close>: the elements of a list, the characters of a string, the keys of a dict.\<close>

definition iter_json :: "json \<Rightarrow> error + json list" where
  "iter_json v =
     (case v of
        JArr xs \<Rightarrow> Inr xs
      | JStr s \<Rightarrow> Inr (map (\<lambda>c. JStr [c]) s)
      | JObj kvs \<Rightarrow> Inr (map JStr (rev (remdups (rev (map fst kvs)))))
      | _ \<Rightarrow> Inl TypeError)"

text \<open>
  \<^verbatim>\<open>np.argmax(item)\<close> first makes an array of the list. A list of Python ints that
  all fit in 64 bits becomes an array of 64-bit integers, and a list of such ints and
  floats with at least one float an array of float64, each int converted to the nearest
  float (ties to the even significand). The scan of the array keeps the first greatest
  element; on floats it compares with \<^verbatim>\<open><=\<close>, which is false on NaN, and stops at the
  first NaN. An empty list raises \<^verbatim>\<open>ValueError\<close>. What the library does with an int
  outside 64 bits is \<open>argmax_wide\<close>, with anything that is not a flat list of numbers
  \<open>argmax_other\<close>.
\<close>

fun as_number :: "json \<Rightarrow> number option" where
  "as_number (JNum r) = Some (PyFloat (Fin r))"
| "as_number (JInt i) = Some (PyInt i)"
| "as_number JNaN = Some (PyFloat NaN)"
| "as_number JInfinity = Some (PyFloat PosInf)"
| "as_number JNegInfinity = Some (PyFloat NegInf)"
| "as_number v = None"

fun as_numbers :: "json list \<Rightarrow> number list option" where
  "as_numbers [] = Some []"
| "as_numbers (x # xs) =
     (case as_number x of None \<Rightarrow> None | Some n \<Rightarrow> map_option ((#) n) (as_numbers xs))"

definition in_int64 :: "int \<Rightarrow> bool" where
  "in_int64 i = (- (2 ^ 63) \<le> i \<and> i < 2 ^ 63)"

fun wide :: "number \<Rightarrow> bool" where
  "wide (PyInt i) = (\<not> in_int64 i)"
| "wide (PyFloat f) = False"

fun all_ints :: "number list \<Rightarrow> int list option" where
  "all_ints [] = Some []"
| "all_ints (PyInt i # ns) = map_option ((#) i) (all_ints ns)"
| "all_ints (PyFloat f # ns) = None"

text \<open>The float nearest to an integer \<open>n\<close> with \<open>0 \<le> n < 2 ^ 64\<close>: the bits that do not
  fit in the significand of 53 bits are rounded away, a tie to the even significand.\<close>

function float64_shift :: "int \<Rightarrow> nat" where
  "float64_shift n = (if n < 2 ^ 53 then 0 else Suc (float64_shift (n div 2)))"
  by pat_completeness auto
termination
  by (relation "measure nat") auto

declare float64_shift.simps [simp del]

definition float64_round :: "int \<Rightarrow> int" where
  "float64_round n =
     (let s = float64_shift n; q = n div 2 ^ s; r = n mod 2 ^ s
      in (if 2 ^ s < 2 * r \<or> (2 * r = 2 ^ s \<and> odd q) then q + 1 else q) * 2 ^ s)"

definition float64_of_int :: "int \<Rightarrow> float64" where
  "float64_of_int i = Fin (of_int (if i < 0 then - float64_round (- i) else float64_round i))"

fun to_float64 :: "number \<Rightarrow> float64" where
  "to_float64 (PyInt i) = float64_of_int i"
| "to_float64 (PyFloat f) = f"

text \<open>\<^verbatim>\<open>x <= y\<close> on floats.\<close>

fun fl_le :: "float64 \<Rightarrow> float64 \<Rightarrow> bool" where
  "fl_le NaN y = False"
| "fl_le x NaN = False"
| "fl_le NegInf y = True"
| "fl_le x PosInf = True"
| "fl_le PosInf y = False"
| "fl_le x NegInf = False"
| "fl_le (Fin a) (Fin b) = (a \<le> b)"

text \<open>The scan of an integer array: \<^verbatim>\<open>if (ip[i] > mp) { mp = ip[i]; max_ind = i; }\<close>.\<close>

fun argmax_loop :: "int \<Rightarrow> nat \<Rightarrow> nat \<Rightarrow> int list \<Rightarrow> nat" where
  "argmax_loop best bi i [] = bi"
| "argmax_loop best bi i (x # xs) =
     (if best < x then argmax_loop x i (Suc i) xs else argmax_loop best bi (Suc i) xs)"

text \<open>
  The scan of a float array:
  \<^verbatim>\<open>
  mp = ip[0]; max_ind = 0;
  if (isnan(mp)) return;
  for (i = 1; i < n; i++)
      if (!(ip[i] <= mp)) { mp = ip[i]; max_ind = i; if (isnan(mp)) break; }
  \<close>
\<close>

fun float_argmax_loop :: "float64 \<Rightarrow> nat \<Rightarrow> nat \<Rightarrow> float64 list \<Rightarrow> nat" where
  "float_argmax_loop mp mi i [] = mi"
| "float_argmax_loop mp mi i (x # xs) =
     (if \<not> fl_le x mp
      then (if x = NaN then i else float_argmax_loop x i (Suc i) xs)
      else float_argmax_loop mp mi (Suc i) xs)"

definition float_argmax :: "float64 list \<Rightarrow> nat" where
  "float_argmax xs =
     (case xs of [] \<Rightarrow> 0 | x # xs' \<Rightarrow> if x = NaN then 0 else float_argmax_loop x 0 1 xs')"

definition argmax :: "env \<Rightarrow> number list \<Rightarrow> error + nat" where
  "argmax e ns =
     (if ns = [] then Inl ValueError
      else if list_ex wide ns then argmax_wide e ns
      else (case all_ints ns of
              Some is \<Rightarrow> Inr (argmax_loop (hd is) 0 1 (tl is))
            | None \<Rightarrow> Inr (float_argmax (map to_float64 ns))))"

definition np_argmax :: "env \<Rightarrow> json \<Rightarrow> error + nat" where
  "np_argmax e item =
     (case item of
        JArr xs \<Rightarrow> (case as_numbers xs of Some ns \<Rightarrow> argmax e ns | None \<Rightarrow> argmax_other e item)
      | _ \<Rightarrow> argmax_other e item)"

fun map_result :: "('a \<Rightarrow> error + 'b) \<Rightarrow> 'a list \<Rightarrow> error + 'b list" where
  "map_result f [] = Inr []"
| "map_result f (x # xs) =
     (case f x of
        Inl err \<Rightarrow> Inl err
      | Inr y \<Rightarrow> (case map_result f xs of Inl err \<Rightarrow> Inl err | Inr ys \<Rightarrow> Inr (y # ys)))"

definition predict_url :: "int \<Rightarrow> string" where
  "predict_url version = SERVER_URL @ ''/v1/models/mnist/versions/'' @ str_int version @ '':predict''"

text \<open>
  \<^verbatim>\<open>
  def predict(instances, version=1):
      payload = {'instances': instances}
      res = requests.post("{}/v1/models/mnist/versions/{}:predict".format(SERVER_URL, version), json=payload)
      res.raise_for_status()
      response = res.json()
      class_ids = [np.argmax(item) for item in response["predictions"]]
      return class_ids
  \<close>
  The call of \<^verbatim>\<open>requests.post\<close> is logged with its payload and the time it took, and the
  clock advances by that time. The client of the notebook's image writes a float that is
  no number into the body as \<^verbatim>\<open>NaN\<close> or \<^verbatim>\<open>Infinity\<close>, so every payload is sent.
  \<open>NoResponse\<close> is the client raising because no response arrived; a body that is not
  JSON (\<open>None\<close>) makes \<^verbatim>\<open>res.json()\<close> raise \<^verbatim>\<open>ValueError\<close>.
\<close>

definition decode_predictions :: "env \<Rightarrow> json option \<Rightarrow> error + nat list" where
  "decode_predictions e body =
     (case body of
        None \<Rightarrow> Inl ValueError
      | Some response \<Rightarrow>
          (case subscript_str response ''predictions'' of
             Inl err \<Rightarrow> Inl err
           | Inr preds \<Rightarrow>
               (case iter_json preds of
                  Inl err \<Rightarrow> Inl err
                | Inr items \<Rightarrow> map_result (np_argmax e) items)))"

definition predict :: "env \<Rightarrow> json list \<Rightarrow> int \<Rightarrow> world \<Rightarrow> world \<times> (error + nat list)" where
  "predict e instances version w =
     (let payload = JObj [(''instances'', JArr instances)];
          (took, rep) = server e w (predict_url version) payload;
          w' = w\<lparr>trace := trace w @ [HttpPost (predict_url version) payload took],
                 now := now w + took\<rparr>
      in case rep of
           NoResponse \<Rightarrow> (w', Inl ConnectionError)
         | Response status body \<Rightarrow>
             (case raise_for_status status of
                Inl err \<Rightarrow> (w', Inl err)
              | Inr _ \<Rightarrow> (w', decode_predictions e body)))"

section \<open>The latency benchmark\<close>

text \<open>\<^verbatim>\<open>range(n)\<close> for an integer \<open>n\<close>: empty when \<open>n\<close> is not positive.\<close>

definition range_py :: "int \<Rightarrow> nat list" where
  "range_py n = [0..<nat n]"

text \<open>
  \<^verbatim>\<open>
  instances = []
  for i in range(batch):
      img = eval_data[i]
      instances.append(img.tolist())
  \<close>
  Indexing the array past its end raises \<^verbatim>\<open>IndexError\<close>.
\<close>

fun collect_instances :: "json list \<Rightarrow> nat list \<Rightarrow> json list \<Rightarrow> error + json list" where
  "collect_instances ed [] instances = Inr instances"
| "collect_instances ed (i # is) instances =
     (if i < length ed then collect_instances ed is (instances @ [ed ! i]) else Inl IndexError)"

text \<open>
  \<^verbatim>\<open>
  output = None
  for i in range(repeat):
      output = predict(instances, version=version)
  \<close>
\<close>

fun predict_loop ::
  "env \<Rightarrow> json list \<Rightarrow> int \<Rightarrow> nat \<Rightarrow> nat list option \<Rightarrow> world \<Rightarrow> world \<times> (error + nat list option)" where
  "predict_loop e instances version 0 output w = (w, Inr output)"
| "predict_loop e instances version (Suc n) output w =
     (case predict e instances version w of
        (w', Inl err) \<Rightarrow> (w', Inl err)
      | (w', Inr ids) \<Rightarrow> predict_loop e instances version n (Some ids) w')"

definition print_line :: "line \<Rightarrow> world \<Rightarrow> world" where
  "print_line l w = w\<lparr>stdout := stdout w @ [l]\<rparr>"

text \<open>
  \<^verbatim>\<open>
  def benchmark_inference(version=1, batch=100, repeat=10):
      instances = [] ...
      #warmup request
      predict(instances[:1], version=version)
      print('Warm up request performed!')
      print('Timer started...')
      time_start = datetime.utcnow()
      output = None
      for i in range(repeat):
          output = predict(instances, version=version)
      time_end = datetime.utcnow()
      time_elapsed_sec = (time_end - time_start).total_seconds()
      print("Inference elapsed time: {} seconds\n".format(time_elapsed_sec))
      print("Prediction produced for {} instances batch, repeated {} times".format(len(output), repeat))
      print("Average latency per batch: {} seconds".format(time_elapsed_sec/repeat))
      print("Prediction output for the last instance: {}".format(output[0]))
  \<close>
  The clock counts microseconds and \<^verbatim>\<open>utcnow()\<close> reads it; in the model time passes
  only while a request is under way. Seconds are rational numbers here (the rounding
  of Python's floats is not modelled). \<^verbatim>\<open>len(None)\<close> raises \<^verbatim>\<open>TypeError\<close> and
  \<^verbatim>\<open>output[0]\<close> on an empty list raises \<^verbatim>\<open>IndexError\<close>.
\<close>

definition benchmark_inference :: "env \<Rightarrow> int \<Rightarrow> int \<Rightarrow> int \<Rightarrow> world \<Rightarrow> world \<times> (error + unit)" where
  "benchmark_inference e version batch repeat w =
     (case collect_instances (eval_data e) (range_py batch) [] of
        Inl err \<Rightarrow> (w, Inl err)
      | Inr instances \<Rightarrow>
          (case predict e (take 1 instances) version w of
             (w1, Inl err) \<Rightarrow> (w1, Inl err)
           | (w1, Inr warm) \<Rightarrow>
               (let w2 = print_line (Text ''Timer started...'')
                           (print_line (Text ''Warm up request performed!'') w1);
                    time_start = now w2
                in case predict_loop e instances version (nat repeat) None w2 of
                     (w3, Inl err) \<Rightarrow> (w3, Inl err)
                   | (w3, Inr output) \<Rightarrow>
                       (let time_end = now w3;
                            time_elapsed_sec = of_int (time_end - time_start) / 1000000;
                            w4 = print_line (Elapsed time_elapsed_sec) w3
                        in case output of
                             None \<Rightarrow> (w4, Inl TypeError)
                           | Some out \<Rightarrow>
                               (let w5 = print_line (Produced (length out) repeat) w4
                                in if repeat = 0 then (w5, Inl ZeroDivisionError)
                                   else (let w6 = print_line (AverageLatency (time_elapsed_sec / of_int repeat)) w5
                                         in case out of
                                              [] \<Rightarrow> (w6, Inl IndexError)
                                            | c # cs \<Rightarrow> (print_line (LastInstance c) w6, Inr ())))))))"

section \<open>The filesystem library\<close>

text \<open>
  The filesystem is a map from the spelling of a path: the model has no symbolic links
  and no working directory, and two spellings of one file (a doubled slash, a component
  \<^verbatim>\<open>.\<close>, a relative path) are different keys. The paths of the notebook's own calls
  are normal absolute paths; a statement that tells two paths apart asks for that form
  (\<open>normal_abs\<close>). \<open>is_under d p\<close>: \<open>p\<close> is \<open>d\<close> or lies below it.
\<close>

definition is_under :: "path \<Rightarrow> path \<Rightarrow> bool" where
  "is_under d p = (p = d \<or> prefix (d @ ''/'') p)"

definition is_file :: "entry option \<Rightarrow> bool" where
  "is_file x = (case x of Some (File c) \<Rightarrow> True | _ \<Rightarrow> False)"

definition log_event :: "event \<Rightarrow> world \<Rightarrow> world" where
  "log_event ev w = w\<lparr>trace := trace w @ [ev]\<rparr>"

text \<open>\<^verbatim>\<open>tf.gfile.Exists\<close> and \<^verbatim>\<open>tf.gfile.DeleteRecursively\<close>; the latter raises
  \<^verbatim>\<open>NotFoundError\<close> on a path that does not exist.\<close>

definition gfile_Exists :: "path \<Rightarrow> world \<Rightarrow> world \<times> bool" where
  "gfile_Exists p w = (log_event (GfileExists p) w, fs w p \<noteq> None)"

definition gfile_DeleteRecursively :: "path \<Rightarrow> world \<Rightarrow> world \<times> (error + unit)" where
  "gfile_DeleteRecursively d w =
     (if fs w d = None then (log_event (GfileDeleteRecursively d) w, Inl NotFoundError)
      else (log_event (GfileDeleteRecursively d) (w\<lparr>fs := (\<lambda>p. if is_under d p then None else fs w p)\<rparr>),
            Inr ()))"

text \<open>The directory itself and every directory above it (the root apart).\<close>

definition ancestors :: "path \<Rightarrow> path list" where
  "ancestors p = map (\<lambda>i. take i p) (filter (\<lambda>i. p ! i = CHR ''/'') [1..<length p]) @ [p]"

text \<open>\<^verbatim>\<open>recursive_create_dir\<close> (and \<^verbatim>\<open>mkdir -p\<close>): fails when a file is in the way.\<close>

definition recursive_create_dir :: "path \<Rightarrow> filesystem \<Rightarrow> error + filesystem" where
  "recursive_create_dir p f =
     (if list_ex (\<lambda>q. is_file (f q)) (ancestors p) then Inl FailedPreconditionError
      else Inr (\<lambda>q. if q \<in> set (ancestors p) \<and> f q = None then Some Dir else f q))"

text \<open>
  Modelled from the spec: \<^verbatim>\<open>lib.utils.get_graph_def_from_file\<close> is imported by the
  notebook and is not among the sources. The spec calls its use re-importing a
  serialised graph: it reads the binary GraphDef at the path and changes no file.
\<close>

definition get_graph_def_from_file :: "path \<Rightarrow> world \<Rightarrow> world \<times> (error + graph_def)" where
  "get_graph_def_from_file p w =
     (log_event (ReadGraphFile p) w,
      case fs w p of
        None \<Rightarrow> Inl NotFoundError
      | Some Dir \<Rightarrow> Inl FailedPreconditionError
      | Some (File c) \<Rightarrow> (case c of GraphDefPb g \<Rightarrow> Inr g | _ \<Rightarrow> Inl DecodeError))"

text \<open>
  \<^verbatim>\<open>tf.train.write_graph(graph_def, logdir, name, as_text)\<close>: creates \<open>logdir\<close> when
  it is missing and writes the file \<^verbatim>\<open>os.path.join(logdir, name)\<close>, replacing a file
  of that name.
\<close>

definition write_graph :: "graph_def \<Rightarrow> path \<Rightarrow> string \<Rightarrow> bool \<Rightarrow> world \<Rightarrow> world \<times> (error + path)" where
  "write_graph g logdir nm as_text w =
     (let w' = log_event (WriteGraph g logdir nm as_text) w;
          p = os_path_join logdir nm
      in case (if fs w logdir = None then recursive_create_dir logdir (fs w) else Inr (fs w)) of
           Inl err \<Rightarrow> (w', Inl err)
         | Inr f \<Rightarrow>
             if f p = Some Dir \<or> list_ex (\<lambda>q. is_file (f q)) (butlast (ancestors p))
             then (w', Inl FailedPreconditionError)
             else (w'\<lparr>fs := f(p \<mapsto> File (if as_text then GraphDefText g else GraphDefPb g))\<rparr>, Inr p))"

section \<open>Export\<close>

definition MODELS_LOCATION :: path where
  "MODELS_LOCATION = ''/saved_models/''"

definition MODEL_NAME :: string where
  "MODEL_NAME = ''mnist''"

definition model_dir :: path where
  "model_dir = os_path_join MODELS_LOCATION MODEL_NAME"

text \<open>
  \<^verbatim>\<open>estimator.export_savedmodel(export_dir_base=export_dir, ...)\<close> of the framework:
  it writes the SavedModel into a new subdirectory of the base named by a timestamp.
  The timestamp and the model exported are the environment's.
\<close>

definition export_savedmodel :: "env \<Rightarrow> path \<Rightarrow> world \<Rightarrow> world \<times> (error + path)" where
  "export_savedmodel e export_dir_base w =
     (let w' = log_event (ExportSavedModel export_dir_base) w
      in case export_tool e (fs w) of
           Inl err \<Rightarrow> (w', Inl err)
         | Inr (timestamp, m) \<Rightarrow>
             (let d = os_path_join export_dir_base timestamp
              in case recursive_create_dir d (fs w) of
                   Inl err \<Rightarrow> (w', Inl err)
                 | Inr f \<Rightarrow>
                     (w'\<lparr>fs := f(os_path_join d ''saved_model.pb'' \<mapsto> File (SavedModelPb m),
                                  os_path_join d ''variables'' \<mapsto> Dir)\<rparr>,
                      Inr d)))"

text \<open>
  The export cell:
  \<^verbatim>\<open>
  export_dir = os.path.join(model_dir, 'export')
  if tf.gfile.Exists(export_dir):
      tf.gfile.DeleteRecursively(export_dir)
  estimator.export_savedmodel(export_dir_base=export_dir, serving_input_receiver_fn=...)
  \<close>
\<close>

definition export_dir :: path where
  "export_dir = os_path_join model_dir ''export''"

definition export_cell :: "env \<Rightarrow> world \<Rightarrow> world \<times> (error + path)" where
  "export_cell e w =
     (case gfile_Exists export_dir w of
        (w1, ex) \<Rightarrow>
          (case (if ex then gfile_DeleteRecursively export_dir w1 else (w1, Inr ())) of
             (w2, Inl err) \<Rightarrow> (w2, Inl err)
           | (w2, Inr u) \<Rightarrow> export_savedmodel e export_dir w2))"

text \<open>
  The cell that copies the export to the serving path:
  \<^verbatim>\<open>
  saved_models_base=/saved_models/mnist/export/
  saved_model_dir=${saved_models_base}$(ls ${saved_models_base} | tail -n 1)
  mkdir -p /serving/mnist/1
  cp -r ${saved_model_dir}/* /serving/mnist/1
  \<close>
  \<open>latest\<close> is what \<^verbatim>\<open>ls | tail -n 1\<close> prints. The shell goes on after a command
  that fails.

  The pattern \<^verbatim>\<open>*\<close> gives the entries of the source directory whose names do not
  start with a dot; when the source is no directory it gives none and \<^verbatim>\<open>cp\<close> copies
  nothing. Into a target that is a directory \<^verbatim>\<open>cp -r\<close> copies each of them under its
  name with all that is below it: a file onto a file replaces it, a directory merges
  into a directory, and where a file would go onto a directory or a directory onto a
  file that entry is left out with all below it. \<open>cp_reaches f src dst rel\<close>: the entry
  \<open>rel\<close> of the source is copied. The model follows the command when source and target
  are normal absolute paths apart from each other, the source a word the shell does not
  split or expand, and the target a directory; for the rest its effect is \<open>cp_other\<close>.
  Entries are files and directories only, and nothing fails for want of permission or
  space.
\<close>

definition shell_mkdir_p :: "path \<Rightarrow> world \<Rightarrow> world" where
  "shell_mkdir_p p w =
     (case recursive_create_dir p (fs w) of
        Inl err \<Rightarrow> log_event (ShellMkdirP p) w
      | Inr f \<Rightarrow> log_event (ShellMkdirP p) (w\<lparr>fs := f\<rparr>))"

definition cp_blocked :: "entry option \<Rightarrow> entry option \<Rightarrow> bool" where
  "cp_blocked s t =
     (case s of None \<Rightarrow> True | Some Dir \<Rightarrow> is_file t | Some (File c) \<Rightarrow> t = Some Dir)"

definition cp_reaches :: "filesystem \<Rightarrow> path \<Rightarrow> path \<Rightarrow> path \<Rightarrow> bool" where
  "cp_reaches f src dst rel =
     (f src = Some Dir
      \<and> list_all plain_component (split_path rel)
      \<and> hd rel \<noteq> CHR ''.''
      \<and> list_all (\<lambda>r. \<not> cp_blocked (f (src @ ''/'' @ r)) (f (dst @ ''/'' @ r))) (ancestors rel)
      \<and> list_all (\<lambda>r. f (src @ ''/'' @ r) = Some Dir) (butlast (ancestors rel)))"

definition cp_followed :: "filesystem \<Rightarrow> path \<Rightarrow> path \<Rightarrow> bool" where
  "cp_followed f src dst =
     (shell_word src \<and> normal_abs src \<and> normal_abs dst
      \<and> \<not> is_under src dst \<and> \<not> is_under dst src \<and> f dst = Some Dir)"

definition shell_cp_r_children :: "env \<Rightarrow> path \<Rightarrow> path \<Rightarrow> world \<Rightarrow> world" where
  "shell_cp_r_children e src dst w =
     log_event (ShellCpR src dst)
       (w\<lparr>fs :=
            (if \<not> cp_followed (fs w) src dst then cp_other e (fs w) src dst
             else (\<lambda>p. if prefix (dst @ ''/'') p \<and> cp_reaches (fs w) src dst (drop (length dst + 1) p)
                       then fs w (src @ ''/'' @ drop (length dst + 1) p)
                       else fs w p))\<rparr>)"

definition copy_to_serving_cell :: "env \<Rightarrow> string \<Rightarrow> world \<Rightarrow> world" where
  "copy_to_serving_cell e latest w =
     (let saved_models_base = ''/saved_models/mnist/export/'';
          saved_model_dir = saved_models_base @ latest
      in shell_cp_r_children e saved_model_dir ''/serving/mnist/1''
           (shell_mkdir_p ''/serving/mnist/1'' w))"

section \<open>Freezing\<close>

text \<open>
  \<^verbatim>\<open>
  def freeze_graph(saved_model_dir):
      output_graph_filename = os.path.join(saved_model_dir, "freezed_model.pb")
      output_node_names = "softmax/Softmax"
      initializer_nodes = ""
      freeze_graph.freeze_graph(
          input_saved_model_dir=saved_model_dir, output_graph=output_graph_filename,
          saved_model_tags = tag_constants.SERVING, output_node_names=output_node_names,
          initializer_nodes=initializer_nodes, input_graph=None, input_saver=False,
          input_binary=False, input_checkpoint=None, restore_op_name=None,
          filename_tensor_name=None, clear_devices=False, input_meta_graph=False)
      print("SavedModel graph freezed!")
  \<close>
  The utility is the framework's: what it computes from the filesystem and its
  arguments is \<open>freeze_tool\<close>; it writes its result to the file \<open>output_graph\<close>.
\<close>

definition freeze_graph :: "env \<Rightarrow> path \<Rightarrow> world \<Rightarrow> world \<times> (error + unit)" where
  "freeze_graph e saved_model_dir w =
     (let output_graph_filename = os_path_join saved_model_dir ''freezed_model.pb'';
          args = \<lparr>input_saved_model_dir = saved_model_dir,
                  output_graph = output_graph_filename,
                  saved_model_tags = ''serve'',
                  output_node_names = ''softmax/Softmax'',
                  initializer_nodes = [],
                  input_graph = None, input_saver = False, input_binary = False,
                  input_checkpoint = None, restore_op_name = None,
                  filename_tensor_name = None, clear_devices = False,
                  input_meta_graph = False\<rparr>;
          w1 = log_event (FreezeGraphCall args) w
      in case freeze_tool e (fs w) args of
           Inl err \<Rightarrow> (w1, Inl err)
         | Inr g \<Rightarrow>
             (print_line (Text ''SavedModel graph freezed!'')
                (w1\<lparr>fs := (fs w)(output_graph args \<mapsto> File (GraphDefPb g))\<rparr>),
              Inr ()))"

section \<open>GraphDef to SavedModel\<close>

text \<open>
  \<^verbatim>\<open>tf.import_graph_def(graph_def, name="")\<close> builds the graph in the session's graph;
  it raises \<^verbatim>\<open>ValueError\<close> on a graph the framework refuses: one in which a node name
  comes twice, and whatever else it refuses (an op it does not know, a missing input),
  for which \<open>imported_tensors\<close> gives \<open>None\<close>. Which tensors the imported graph has is
  the framework's too (a node without outputs gives none): \<open>imported_tensors\<close>.
  \<^verbatim>\<open>session.graph.get_tensor_by_name\<close>, asked for a name \<^verbatim>\<open>op:0\<close>, raises
  \<^verbatim>\<open>ValueError\<close> when the name does not have exactly one colon and \<^verbatim>\<open>KeyError\<close>
  when it is the name of no tensor of the graph.
\<close>

definition import_graph_def :: "env \<Rightarrow> graph_def \<Rightarrow> error + string list" where
  "import_graph_def e g =
     (if \<not> distinct (map name g) then Inl ValueError
      else (case imported_tensors e g of None \<Rightarrow> Inl ValueError | Some tensors \<Rightarrow> Inr tensors))"

definition get_tensor_by_name :: "string list \<Rightarrow> string \<Rightarrow> error + string" where
  "get_tensor_by_name tensors t =
     (if length (filter (\<lambda>c. c = CHR '':'') t) \<noteq> 1 then Inl ValueError
      else if t \<in> set tensors then Inr t
      else Inl KeyError)"

text \<open>
  \<^verbatim>\<open>tf.saved_model.simple_save(session, export_dir, inputs, outputs)\<close>: the builder
  refuses a directory that exists (\<^verbatim>\<open>AssertionError\<close>; some versions of the library
  let an empty one pass), creates it otherwise and writes the model into it. The
  notebook calls it only after the directory has been deleted, where the versions agree.
\<close>

definition simple_save ::
  "graph_def \<Rightarrow> path \<Rightarrow> (string \<times> string) list \<Rightarrow> (string \<times> string) list \<Rightarrow> world \<Rightarrow> world \<times> (error + unit)" where
  "simple_save g dir inputs outputs w =
     (let w' = log_event (SimpleSave dir inputs outputs) w
      in if fs w dir \<noteq> None then (w', Inl AssertionError)
         else (case recursive_create_dir dir (fs w) of
                 Inl err \<Rightarrow> (w', Inl err)
               | Inr f \<Rightarrow>
                   (w'\<lparr>fs := f(os_path_join dir ''saved_model.pb'' \<mapsto>
                                  File (SavedModelPb \<lparr>sm_graph = g, sm_inputs = inputs, sm_outputs = outputs\<rparr>),
                                os_path_join dir ''variables'' \<mapsto> Dir)\<rparr>,
                    Inr ())))"

text \<open>
  \<^verbatim>\<open>
  def convert_graph_def_to_saved_model(graph_filepath, export_dir):
      if tf.gfile.Exists(export_dir):
          tf.gfile.DeleteRecursively(export_dir)
      graph_def = get_graph_def_from_file(graph_filepath)
      with tf.Session(graph=tf.Graph()) as session:
          tf.import_graph_def(graph_def, name="")
          tf.saved_model.simple_save(session, export_dir,
                  inputs={
                      node.name: session.graph.get_tensor_by_name("{}:0".format(node.name))
                      for node in graph_def.node if node.op=='Placeholder'},
                  outputs={
                      "softmax": session.graph.get_tensor_by_name("softmax/Softmax:0"),
                  })
          print("Optimised graph converted to SavedModel!")
  \<close>
  A dict is the list of its items in the order they are inserted; the nodes of a graph
  that imports have distinct names, so no key comes twice.
\<close>

definition placeholder_inputs :: "string list \<Rightarrow> graph_def \<Rightarrow> error + (string \<times> string) list" where
  "placeholder_inputs tensors g =
     map_result
       (\<lambda>node. case get_tensor_by_name tensors (name node @ '':0'') of
                  Inl err \<Rightarrow> Inl err
                | Inr t \<Rightarrow> Inr (name node, t))
       (filter (\<lambda>node. op node = ''Placeholder'') g)"

definition convert_graph_def_to_saved_model :: "env \<Rightarrow> path \<Rightarrow> path \<Rightarrow> world \<Rightarrow> world \<times> (error + unit)" where
  "convert_graph_def_to_saved_model e graph_filepath dir w =
     (case gfile_Exists dir w of
        (w1, ex) \<Rightarrow>
          (case (if ex then gfile_DeleteRecursively dir w1 else (w1, Inr ())) of
             (w2, Inl err) \<Rightarrow> (w2, Inl err)
           | (w2, Inr u) \<Rightarrow>
               (case get_graph_def_from_file graph_filepath w2 of
                  (w3, Inl err) \<Rightarrow> (w3, Inl err)
                | (w3, Inr graph_def) \<Rightarrow>
                    (case import_graph_def e graph_def of
                       Inl err \<Rightarrow> (w3, Inl err)
                     | Inr tensors \<Rightarrow>
                         (case placeholder_inputs tensors graph_def of
                            Inl err \<Rightarrow> (w3, Inl err)
                          | Inr inputs \<Rightarrow>
                              (case get_tensor_by_name tensors ''softmax/Softmax:0'' of
                                 Inl err \<Rightarrow> (w3, Inl err)
                               | Inr t \<Rightarrow>
                                   (case simple_save graph_def dir inputs [(''softmax'', t)] w3 of
                                      (w4, Inl err) \<Rightarrow> (w4, Inl err)
                                    | (w4, Inr u') \<Rightarrow>
                                        (print_line (Text ''Optimised graph converted to SavedModel!'') w4,
                                         Inr ()))))))))"

text \<open>The two cells that call it (their calls that only print sizes are left out).\<close>

definition freezed_filepath :: "path \<Rightarrow> path" where
  "freezed_filepath saved_model_dir = os_path_join saved_model_dir ''freezed_model.pb''"

definition convert_frozen_cell :: "env \<Rightarrow> path \<Rightarrow> world \<Rightarrow> world \<times> (error + unit)" where
  "convert_frozen_cell e saved_model_dir w =
     convert_graph_def_to_saved_model e (freezed_filepath saved_model_dir) ''/serving/mnist/2'' w"

definition optimised_filepath :: "path \<Rightarrow> path" where
  "optimised_filepath saved_model_dir = os_path_join saved_model_dir ''optimised_model.pb''"

definition convert_optimised_cell :: "env \<Rightarrow> path \<Rightarrow> world \<Rightarrow> world \<times> (error + unit)" where
  "convert_optimised_cell e saved_model_dir w =
     convert_graph_def_to_saved_model e (optimised_filepath saved_model_dir) ''/serving/mnist/3'' w"

section \<open>Graph optimisation\<close>

text \<open>
  \<^verbatim>\<open>
  def optimize_graph(model_dir, graph_filename, transforms):
      input_names = []
      output_names = ['softmax/Softmax']
      graph_def = get_graph_def_from_file(os.path.join(model_dir, graph_filename))
      optimised_graph_def = TransformGraph(graph_def, input_names, output_names, transforms)
      tf.train.write_graph(optimised_graph_def, logdir=model_dir, as_text=False,
                          name='optimised_model.pb')
      print("Freezed graph optimised!")
  \<close>
\<close>

definition optimize_graph :: "env \<Rightarrow> path \<Rightarrow> string \<Rightarrow> string list \<Rightarrow> world \<Rightarrow> world \<times> (error + unit)" where
  "optimize_graph e mdir graph_filename passes w =
     (let input_names = [];
          output_names = [''softmax/Softmax'']
      in case get_graph_def_from_file (os_path_join mdir graph_filename) w of
           (w1, Inl err) \<Rightarrow> (w1, Inl err)
         | (w1, Inr graph_def) \<Rightarrow>
             (let w2 = log_event (TransformGraphCall graph_def input_names output_names passes) w1
              in case TransformGraph e graph_def input_names output_names passes of
                   Inl err \<Rightarrow> (w2, Inl err)
                 | Inr optimised_graph_def \<Rightarrow>
                     (case write_graph optimised_graph_def mdir ''optimised_model.pb'' False w2 of
                        (w3, Inl err) \<Rightarrow> (w3, Inl err)
                      | (w3, Inr written) \<Rightarrow> (print_line (Text ''Freezed graph optimised!'') w3, Inr ()))))"

text \<open>
  The cell that calls it:
  \<^verbatim>\<open>
  transforms = ['remove_nodes(op=Identity)', 'fold_constants(ignore_errors=true)',
      'fold_batch_norms', 'fuse_resize_pad_and_conv', 'quantize_weights', 'quantize_nodes',
      'merge_duplicate_nodes', 'strip_unused_nodes', 'sort_by_execution_order']
  optimize_graph(saved_model_dir, 'freezed_model.pb', transforms)
  \<close>
\<close>

definition transforms :: "string list" where
  "transforms =
     [''remove_nodes(op=Identity)'', ''fold_constants(ignore_errors=true)'',
      ''fold_batch_norms'', ''fuse_resize_pad_and_conv'', ''quantize_weights'',
      ''quantize_nodes'', ''merge_duplicate_nodes'', ''strip_unused_nodes'',
      ''sort_by_execution_order'']"

definition optimize_cell :: "env \<Rightarrow> path \<Rightarrow> world \<Rightarrow> world \<times> (error + unit)" where
  "optimize_cell e saved_model_dir w = optimize_graph e saved_model_dir ''freezed_model.pb'' transforms w"

section \<open>Notions of the specification\<close>

text \<open>
  \<open>k\<close> is the index of the first greatest element of \<open>xs\<close> in the order \<open>le\<close>: no
  element is above the one at \<open>k\<close>, and that one is above every element before it.
\<close>

definition first_greatest :: "('a \<Rightarrow> 'a \<Rightarrow> bool) \<Rightarrow> 'a list \<Rightarrow> nat \<Rightarrow> bool" where
  "first_greatest le xs k =
     (k < length xs
      \<and> list_all (\<lambda>j. le (xs ! j) (xs ! k)) [0..<length xs]
      \<and> list_all (\<lambda>j. \<not> le (xs ! k) (xs ! j)) [0..<k])"

text \<open>The order of the numbers by their value, as the spec's "argmax of a prediction"
  reads: an int counts with its own value.\<close>

fun exact_value :: "number \<Rightarrow> float64" where
  "exact_value (PyInt i) = Fin (of_int i)"
| "exact_value (PyFloat f) = f"

definition value_le :: "number \<Rightarrow> number \<Rightarrow> bool" where
  "value_le a b = fl_le (exact_value a) (exact_value b)"

text \<open>
  The greatest element as NumPy sees it: of the integers themselves when every element
  is an integer, otherwise of the elements as floats, where the first NaN, if there is
  one, counts as the greatest.
\<close>

definition first_nan :: "float64 list \<Rightarrow> nat \<Rightarrow> bool" where
  "first_nan xs k = (k < length xs \<and> xs ! k = NaN \<and> NaN \<notin> set (take k xs))"

definition np_greatest :: "number list \<Rightarrow> nat \<Rightarrow> bool" where
  "np_greatest ns k =
     (case all_ints ns of
        Some is \<Rightarrow> first_greatest (\<le>) is k
      | None \<Rightarrow>
          (if NaN \<in> set (map to_float64 ns) then first_nan (map to_float64 ns) k
           else first_greatest fl_le (map to_float64 ns) k))"

fun json_of_number :: "number \<Rightarrow> json" where
  "json_of_number (PyInt i) = JInt i"
| "json_of_number (PyFloat (Fin r)) = JNum r"
| "json_of_number (PyFloat NaN) = JNaN"
| "json_of_number (PyFloat PosInf) = JInfinity"
| "json_of_number (PyFloat NegInf) = JNegInfinity"

text \<open>
  The spec's rule for a directory that is written: if the target exists it is deleted
  before the write. \<open>checked_and_cleared d w\<close> is the world after that step: the check
  is logged, and when \<open>d\<close> exists the deletion is logged and nothing is left at or
  below \<open>d\<close>.
\<close>

definition checked_and_cleared :: "path \<Rightarrow> world \<Rightarrow> world" where
  "checked_and_cleared d w =
     w\<lparr>fs := (\<lambda>p. if fs w d \<noteq> None \<and> is_under d p then None else fs w p),
       trace := trace w @ (if fs w d \<noteq> None then [GfileExists d, GfileDeleteRecursively d]
                           else [GfileExists d])\<rparr>"

text \<open>The spec's layout of the serving directory: \<^verbatim>\<open>{base}/{model_name}/{version}\<close>.\<close>

definition serving_path :: "path \<Rightarrow> string \<Rightarrow> nat \<Rightarrow> path" where
  "serving_path base model_name version = base @ ''/'' @ model_name @ ''/'' @ str_nat version"

section \<open>A small environment\<close>

text \<open>
  A server that answers every request with two predictions and is slow on the first
  request, three one-pixel images, a graph of three nodes and a graph transform that
  only removes identity nodes; then a server whose answer lacks the predictions, and
  one whose third answer is an error page.
\<close>

definition demo_reply :: json where
  "demo_reply = JObj [(''predictions'',
     JArr [JArr [JNum (1/10), JNum (9/10)], JArr [JNum (7/10), JNum (3/10)]])]"

definition demo_server :: "world \<Rightarrow> string \<Rightarrow> json \<Rightarrow> int \<times> reply" where
  "demo_server w url payload =
     (if trace w = [] then 900000 else 5000, Response 200 (Some demo_reply))"

definition demo_graph :: graph_def where
  "demo_graph =
     [\<lparr>name = ''serving_input_image'', op = ''Placeholder''\<rparr>,
      \<lparr>name = ''reshape/Identity'', op = ''Identity''\<rparr>,
      \<lparr>name = ''softmax/Softmax'', op = ''Softmax''\<rparr>]"

definition demo_transform :: "graph_def \<Rightarrow> string list \<Rightarrow> string list \<Rightarrow> string list \<Rightarrow> error + graph_def" where
  "demo_transform g ins outs passes =
     Inr (if ''remove_nodes(op=Identity)'' \<in> set passes then filter (\<lambda>n. op n \<noteq> ''Identity'') g else g)"

definition demo_env :: env where
  "demo_env =
     \<lparr>server = demo_server,
      eval_data = [JArr [JNum 0], JArr [JNum 1], JArr [JNum 2]],
      argmax_other = (\<lambda>v. Inl TypeError),
      argmax_wide = (\<lambda>ns. Inr 0),
      TransformGraph = demo_transform,
      freeze_tool = (\<lambda>f a. Inr demo_graph),
      export_tool = (\<lambda>f. Inr (''1561000000'',
         \<lparr>sm_graph = demo_graph, sm_inputs = [(''input_image'', ''serving_input_image:0'')],
          sm_outputs = [(''softmax'', ''softmax/Softmax:0'')]\<rparr>)),
      imported_tensors = (\<lambda>g. Some (map (\<lambda>n. name n @ '':0'') g)),
      cp_other = (\<lambda>f src dst. f)\<rparr>"

definition keyless_env :: env where
  "keyless_env = demo_env\<lparr>server := (\<lambda>w url payload. (5000, Response 200 (Some (JObj []))))\<rparr>"

definition flaky_env :: env where
  "flaky_env = demo_env\<lparr>server := (\<lambda>w url payload.
     (5000, if length (trace w) = 2 then Response 503 None else Response 200 (Some demo_reply)))\<rparr>"

definition demo_world :: world where
  "demo_world = \<lparr>fs = Map.empty, trace = [], now = 0, stdout = []\<rparr>"

text \<open>
  A second graph with another placeholder, and a disk that holds a model directory with
  a frozen and an optimised graph, an older export, and an older version 2 under the
  serving path.
\<close>

definition other_graph :: graph_def where
  "other_graph =
     [\<lparr>name = ''x'', op = ''Placeholder''\<rparr>,
      \<lparr>name = ''softmax/Softmax'', op = ''Softmax''\<rparr>]"

definition disk_world :: world where
  "disk_world =
     \<lparr>fs = [''/m'' \<mapsto> Dir,
             ''/m/freezed_model.pb'' \<mapsto> File (GraphDefPb demo_graph),
             ''/m/optimised_model.pb'' \<mapsto> File (GraphDefPb demo_graph),
             ''/m/other.pb'' \<mapsto> File (GraphDefPb other_graph),
             ''/serving/mnist/2'' \<mapsto> Dir,
             ''/serving/mnist/2/saved_model.pb'' \<mapsto> File (Blob ''old''),
             ''/saved_models/mnist/export'' \<mapsto> Dir,
             ''/saved_models/mnist/export/1560000000'' \<mapsto> Dir,
             ''/saved_models/mnist/export/1560000000/saved_model.pb'' \<mapsto> File (Blob ''old export'')],
      trace = [], now = 0, stdout = []\<rparr>"


text \<open>
  A server whose one prediction holds the float \<open>2 ^ 53\<close> and the integer \<open>2 ^ 53 + 1\<close>,
  and one whose prediction holds a NaN; an export directory with a hidden file, a
  subdirectory and a file where version 1 already has a directory.
\<close>

definition rounding_reply :: json where
  "rounding_reply = JObj [(''predictions'', JArr [JArr [JNum 9007199254740992, JInt 9007199254740993]])]"

definition rounding_env :: env where
  "rounding_env = demo_env\<lparr>server := (\<lambda>w url payload. (5000, Response 200 (Some rounding_reply)))\<rparr>"

definition nan_env :: env where
  "nan_env = demo_env\<lparr>server := (\<lambda>w url payload.
     (5000, Response 200 (Some (JObj [(''predictions'', JArr [JArr [JNum (1/10), JNaN, JInfinity]])]))))\<rparr>"

definition export_world :: world where
  "export_world =
     \<lparr>fs = [''/saved_models/mnist/export'' \<mapsto> Dir,
             ''/saved_models/mnist/export/1560000000'' \<mapsto> Dir,
             ''/saved_models/mnist/export/1560000000/saved_model.pb'' \<mapsto> File (Blob ''export''),
             ''/saved_models/mnist/export/1560000000/.hidden'' \<mapsto> File (Blob ''dot''),
             ''/saved_models/mnist/export/1560000000/variables'' \<mapsto> Dir,
             ''/saved_models/mnist/export/1560000000/variables/variables.index'' \<mapsto> File (Blob ''index''),
             ''/saved_models/mnist/export/1560000000/assets'' \<mapsto> File (Blob ''assets''),
             ''/serving/mnist/1'' \<mapsto> Dir,
             ''/serving/mnist/1/assets'' \<mapsto> Dir,
             ''/serving/mnist/1/saved_model.pb'' \<mapsto> File (Blob ''old'')],
      trace = [], now = 0, stdout = []\<rparr>"


section \<open>Properties\<close>

subsection \<open>The scan for the greatest element\<close>

lemma first_greatest_iff:
  "first_greatest le xs k \<longleftrightarrow>
     k < length xs \<and> (\<forall>j<length xs. le (xs ! j) (xs ! k)) \<and> (\<forall>j<k. \<not> le (xs ! k) (xs ! j))"
  by (auto simp: first_greatest_def list_all_iff)

lemma first_greatest_snoc_new:
  assumes fg: "first_greatest le pre bi" and new: "\<not> le x (pre ! bi)"
    and ok: "\<forall>a\<in>set pre. ok a" "ok x"
    and total: "\<And>a b. ok a \<Longrightarrow> ok b \<Longrightarrow> le a b \<or> le b a"
    and trans: "\<And>a b c. ok a \<Longrightarrow> ok b \<Longrightarrow> ok c \<Longrightarrow> le a b \<Longrightarrow> le b c \<Longrightarrow> le a c"
  shows "first_greatest le (pre @ [x]) (length pre)"
proof -
  from fg have bi: "bi < length pre" and all: "\<forall>j<length pre. le (pre ! j) (pre ! bi)"
    by (simp_all add: first_greatest_iff)
  have okbi: "ok (pre ! bi)" using ok(1) bi by simp
  have up: "le (pre ! bi) x" using total[OF okbi ok(2)] new by blast
  have xx: "le x x" using total[OF ok(2) ok(2)] by blast
  have below: "le (pre ! j) x" if j: "j < length pre" for j
  proof -
    have "ok (pre ! j)" using ok(1) j by simp
    from trans[OF this okbi ok(2)] all j up show ?thesis by blast
  qed
  have strict: "\<not> le x (pre ! j)" if j: "j < length pre" for j
  proof
    assume a: "le x (pre ! j)"
    have "ok (pre ! j)" using ok(1) j by simp
    from trans[OF ok(2) this okbi a] all j have "le x (pre ! bi)" by blast
    with new show False by blast
  qed
  show ?thesis
    unfolding first_greatest_iff
  proof (intro conjI allI impI)
    show "length pre < length (pre @ [x])" by simp
  next
    fix j assume "j < length (pre @ [x])"
    then consider "j < length pre" | "j = length pre" by fastforce
    then show "le ((pre @ [x]) ! j) ((pre @ [x]) ! length pre)"
    proof cases
      case 1 then show ?thesis using below by (simp add: nth_append)
    next
      case 2 then show ?thesis using xx by simp
    qed
  next
    fix j assume "j < length pre"
    then show "\<not> le ((pre @ [x]) ! length pre) ((pre @ [x]) ! j)"
      using strict by (simp add: nth_append)
  qed
qed

lemma first_greatest_snoc_keep:
  assumes fg: "first_greatest le pre bi" and keep: "le x (pre ! bi)"
  shows "first_greatest le (pre @ [x]) bi"
proof -
  from fg have bi: "bi < length pre" and all: "\<forall>j<length pre. le (pre ! j) (pre ! bi)"
    and before: "\<forall>j<bi. \<not> le (pre ! bi) (pre ! j)"
    by (simp_all add: first_greatest_iff)
  show ?thesis
    unfolding first_greatest_iff
  proof (intro conjI allI impI)
    show "bi < length (pre @ [x])" using bi by simp
  next
    fix j assume "j < length (pre @ [x])"
    then consider "j < length pre" | "j = length pre" by fastforce
    then show "le ((pre @ [x]) ! j) ((pre @ [x]) ! bi)"
    proof cases
      case 1 then show ?thesis using all bi by (simp add: nth_append)
    next
      case 2 then show ?thesis using keep bi by (simp add: nth_append)
    qed
  next
    fix j assume j: "j < bi"
    then show "\<not> le ((pre @ [x]) ! bi) ((pre @ [x]) ! j)"
      using before bi by (simp add: nth_append)
  qed
qed

lemma argmax_loop_inv:
  "first_greatest (\<le>) pre bi \<Longrightarrow>
     first_greatest (\<le>) (pre @ xs) (argmax_loop (pre ! bi) bi (length pre) xs)"
proof (induction xs arbitrary: bi pre)
  case Nil
  then show ?case by simp
next
  case (Cons x xs)
  have bi: "bi < length pre" using Cons.prems by (simp add: first_greatest_iff)
  show ?case
  proof (cases "pre ! bi < x")
    case True
    then have "\<not> x \<le> pre ! bi" by simp
    with Cons.prems have "first_greatest (\<le>) (pre @ [x]) (length pre)"
      by (rule first_greatest_snoc_new[where ok = "\<lambda>a. True"]) auto
    from Cons.IH[OF this]
    show ?thesis using True by simp
  next
    case False
    then have "x \<le> pre ! bi" by simp
    with Cons.prems have fm: "first_greatest (\<le>) (pre @ [x]) bi"
      by (rule first_greatest_snoc_keep)
    from Cons.IH[OF fm]
    show ?thesis using False bi by (simp add: nth_append)
  qed
qed

lemma fl_le_total: "a \<noteq> NaN \<Longrightarrow> b \<noteq> NaN \<Longrightarrow> fl_le a b \<or> fl_le b a"
  by (cases a; cases b) auto

lemma fl_le_trans: "fl_le a b \<Longrightarrow> fl_le b c \<Longrightarrow> fl_le a c"
  by (cases a; cases b; cases c) auto

lemma float_argmax_loop_inv:
  "first_greatest fl_le pre bi \<Longrightarrow> NaN \<notin> set pre \<Longrightarrow> NaN \<notin> set xs \<Longrightarrow>
     first_greatest fl_le (pre @ xs) (float_argmax_loop (pre ! bi) bi (length pre) xs)"
proof (induction xs arbitrary: bi pre)
  case Nil
  then show ?case by simp
next
  case (Cons x xs)
  have bi: "bi < length pre" using Cons.prems(1) by (simp add: first_greatest_iff)
  have x: "x \<noteq> NaN" and xs: "NaN \<notin> set xs" using Cons.prems(3) by auto
  have pre': "NaN \<notin> set (pre @ [x])" using Cons.prems(2) x by auto
  show ?case
  proof (cases "fl_le x (pre ! bi)")
    case False
    have "first_greatest fl_le (pre @ [x]) (length pre)"
    proof (rule first_greatest_snoc_new[where ok = "\<lambda>a. a \<noteq> NaN", OF Cons.prems(1) False])
      show "\<forall>a\<in>set pre. a \<noteq> NaN" using Cons.prems(2) by auto
      show "x \<noteq> NaN" by (rule x)
      show "\<And>a b. a \<noteq> NaN \<Longrightarrow> b \<noteq> NaN \<Longrightarrow> fl_le a b \<or> fl_le b a" by (rule fl_le_total)
      show "\<And>a b c. a \<noteq> NaN \<Longrightarrow> b \<noteq> NaN \<Longrightarrow> c \<noteq> NaN \<Longrightarrow> fl_le a b \<Longrightarrow> fl_le b c \<Longrightarrow> fl_le a c"
        by (rule fl_le_trans)
    qed
    from Cons.IH[OF this pre' xs]
    show ?thesis using False x by simp
  next
    case True
    with Cons.prems(1) have fm: "first_greatest fl_le (pre @ [x]) bi"
      by (rule first_greatest_snoc_keep)
    from Cons.IH[OF fm pre' xs]
    show ?thesis using True bi by (simp add: nth_append)
  qed
qed

lemma float_argmax_loop_nan:
  "NaN \<notin> set pre \<Longrightarrow> NaN \<in> set xs \<Longrightarrow>
     first_nan (pre @ xs) (float_argmax_loop mp mi (length pre) xs)"
proof (induction xs arbitrary: mp mi pre)
  case Nil
  then show ?case by simp
next
  case (Cons x xs)
  show ?case
  proof (cases "x = NaN")
    case True
    then show ?thesis using Cons.prems(1) by (simp add: first_nan_def)
  next
    case False
    then have pre': "NaN \<notin> set (pre @ [x])" and xs: "NaN \<in> set xs"
      using Cons.prems by auto
    from Cons.IH[OF pre' xs, of x "length pre"] Cons.IH[OF pre' xs, of mp mi]
    show ?thesis using False by simp
  qed
qed

lemma float_argmax_greatest:
  assumes "xs \<noteq> []"
  shows "if NaN \<in> set xs then first_nan xs (float_argmax xs)
         else first_greatest fl_le xs (float_argmax xs)"
proof (cases xs)
  case Nil
  with assms show ?thesis by simp
next
  case (Cons x xs')
  show ?thesis
  proof (cases "x = NaN")
    case True
    then show ?thesis using Cons by (simp add: float_argmax_def first_nan_def)
  next
    case False
    show ?thesis
    proof (cases "NaN \<in> set xs'")
      case True
      from float_argmax_loop_nan[of "[x]" xs' x 0] False True
      show ?thesis using Cons by (simp add: float_argmax_def)
    next
      case nonan: False
      have "fl_le x x" using False by (cases x) auto
      then have "first_greatest fl_le [x] 0" by (simp add: first_greatest_def)
      from float_argmax_loop_inv[OF this, of xs'] False nonan
      show ?thesis using Cons by (simp add: float_argmax_def)
    qed
  qed
qed

lemma all_ints_Some: "all_ints ns = Some is \<Longrightarrow> ns = map PyInt is"
proof (induction ns arbitrary: "is")
  case Nil
  then show ?case by simp
next
  case (Cons n ns)
  then show ?case by (cases n) auto
qed

lemma argmax_greatest:
  assumes "ns \<noteq> []" "\<not> list_ex wide ns"
  shows "\<exists>k. argmax e ns = Inr k \<and> np_greatest ns k"
proof (cases "all_ints ns")
  case None
  have "map to_float64 ns \<noteq> []" using assms(1) by simp
  from float_argmax_greatest[OF this]
  show ?thesis using assms None by (simp add: argmax_def np_greatest_def)
next
  case (Some "is")
  from all_ints_Some[OF Some] assms(1) obtain i is' where "is": "is = i # is'"
    by (cases "is") auto
  have "first_greatest (\<le>) [i] 0" by (simp add: first_greatest_def)
  from argmax_loop_inv[OF this, of is']
  show ?thesis using assms Some "is" by (simp add: argmax_def np_greatest_def)
qed

text \<open>Where no rounding and no NaN comes in, NumPy's greatest element is the greatest
  by value.\<close>

lemma np_greatest_by_value:
  assumes "np_greatest ns k"
    and "all_ints ns \<noteq> None \<or> (\<forall>n\<in>set ns. \<exists>f. n = PyFloat f \<and> f \<noteq> NaN)"
  shows "first_greatest value_le ns k"
proof (cases "all_ints ns")
  case (Some "is")
  from all_ints_Some[OF Some] have ns: "ns = map PyInt is" .
  from assms(1) Some have "first_greatest (\<le>) is k" by (simp add: np_greatest_def)
  then show ?thesis
    unfolding ns first_greatest_iff by (simp add: value_le_def)
next
  case None
  with assms(2) have fl: "\<forall>n\<in>set ns. \<exists>f. n = PyFloat f \<and> f \<noteq> NaN" by simp
  then have m: "map to_float64 ns = map exact_value ns" by auto
  have "NaN \<notin> set (map to_float64 ns)" unfolding m using fl by auto
  with assms(1) None have "first_greatest fl_le (map to_float64 ns) k"
    by (simp add: np_greatest_def)
  then have "first_greatest fl_le (map exact_value ns) k" unfolding m .
  then show ?thesis
    unfolding first_greatest_iff by (auto simp: value_le_def)
qed


subsection \<open>The REST client\<close>

lemma predict_eq:
  assumes "server e w (predict_url version) (JObj [(''instances'', JArr instances)]) = (took, rep)"
  shows "predict e instances version w =
    (w\<lparr>trace := trace w @ [HttpPost (predict_url version) (JObj [(''instances'', JArr instances)]) took],
        now := now w + took\<rparr>,
     case rep of
       NoResponse \<Rightarrow> Inl ConnectionError
     | Response status body \<Rightarrow>
         (if 400 \<le> status \<and> status < 600 then Inl HTTPError else decode_predictions e body))"
  using assms
  by (cases rep) (simp_all add: predict_def Let_def raise_for_status_def)

lemma map_result_Inr:
  "map_result f xs = Inr ys \<Longrightarrow> length ys = length xs \<and> (\<forall>k<length xs. f (xs ! k) = Inr (ys ! k))"
proof (induction xs arbitrary: ys)
  case Nil
  then show ?case by simp
next
  case (Cons x xs)
  from Cons.prems obtain y ys' where y: "f x = Inr y" and ys': "map_result f xs = Inr ys'" and ys: "ys = y # ys'"
    by (auto split: sum.splits)
  from Cons.IH[OF ys'] have ih: "length ys' = length xs" "\<forall>k<length xs. f (xs ! k) = Inr (ys' ! k)"
    by simp_all
  show ?case
  proof (intro conjI allI impI)
    show "length ys = length (x # xs)" using ih ys by simp
  next
    fix k assume "k < length (x # xs)"
    then show "f ((x # xs) ! k) = Inr (ys ! k)"
      using ih y ys by (cases k) simp_all
  qed
qed

lemma map_result_total:
  "\<forall>x\<in>set xs. \<exists>y. f x = Inr y \<Longrightarrow> \<exists>ys. map_result f xs = Inr ys"
proof (induction xs)
  case Nil
  then show ?case by simp
next
  case (Cons x xs)
  then obtain y ys where "f x = Inr y" "map_result f xs = Inr ys" by auto
  then show ?case by simp
qed

lemma as_number_json: "as_number (json_of_number n) = Some n"
  by (cases n rule: json_of_number.cases) simp_all

lemma as_numbers_json: "as_numbers (map json_of_number p) = Some p"
  by (induction p) (simp_all add: as_number_json)

lemma np_argmax_numbers: "np_argmax e (JArr (map json_of_number p)) = argmax e p"
  by (simp add: np_argmax_def as_numbers_json)

lemma decode_wellformed:
  assumes "map_of (rev kvs) ''predictions'' = Some (JArr (map (\<lambda>p. JArr (map json_of_number p)) ps))"
  shows "decode_predictions e (Some (JObj kvs)) = map_result (argmax e) ps"
proof -
  have "map_result (np_argmax e) (map (\<lambda>p. JArr (map json_of_number p)) ps) = map_result (argmax e) ps"
    by (induction ps) (simp_all add: np_argmax_numbers split: sum.splits)
  then show ?thesis
    using assms by (simp add: decode_predictions_def subscript_str_def iter_json_def)
qed

lemma floats_as_numbers:
  "map (\<lambda>p. JArr (map JNum p)) ps
     = map (\<lambda>p. JArr (map json_of_number p)) (map (map (\<lambda>r. PyFloat (Fin r))) ps)"
  by (simp add: comp_def)

lemma decode_Inr:
  assumes "decode_predictions e body = Inr ids"
  shows "\<exists>response preds items. body = Some response
           \<and> subscript_str response ''predictions'' = Inr preds
           \<and> iter_json preds = Inr items
           \<and> map_result (np_argmax e) items = Inr ids"
  using assms
  by (auto simp: decode_predictions_def split: option.splits sum.splits)

lemma wellformed_returns:
  assumes srv: "server e w (predict_url version) (JObj [(''instances'', JArr instances)]) = (took, rep)"
    and rep: "rep = Response status (Some (JObj kvs))" "\<not> (400 \<le> status \<and> status < 600)"
    and preds: "map_of (rev kvs) ''predictions'' = Some (JArr (map (\<lambda>p. JArr (map json_of_number p)) ps))"
    and ps: "\<forall>p\<in>set ps. p \<noteq> [] \<and> \<not> list_ex wide p"
  shows "\<exists>ids. snd (predict e instances version w) = Inr ids
            \<and> length ids = length ps
            \<and> (\<forall>k<length ps. np_greatest (ps ! k) (ids ! k))"
proof -
  have res: "snd (predict e instances version w) = map_result (argmax e) ps"
    using rep decode_wellformed[OF preds, of e] by (auto simp: predict_eq[OF srv])
  have "\<forall>p\<in>set ps. \<exists>k. argmax e p = Inr k"
    using ps argmax_greatest by blast
  from map_result_total[OF this] obtain ids where ids: "map_result (argmax e) ps = Inr ids" ..
  from map_result_Inr[OF ids] have len: "length ids = length ps"
    and each: "\<forall>k<length ps. argmax e (ps ! k) = Inr (ids ! k)" by simp_all
  have "\<forall>k<length ps. np_greatest (ps ! k) (ids ! k)"
  proof (intro allI impI)
    fix k assume k: "k < length ps"
    then have "ps ! k \<noteq> []" "\<not> list_ex wide (ps ! k)" using ps by (metis nth_mem)+
    from argmax_greatest[OF this, of e] each k show "np_greatest (ps ! k) (ids ! k)" by auto
  qed
  with res ids len show ?thesis by simp
qed

text \<open>
  C4, as the code has it: for every list of instances, \<open>predict\<close> sends one POST to the
  model's \<^verbatim>\<open>:predict\<close> endpoint whose JSON body is exactly \<^verbatim>\<open>{"instances": instances}\<close>.
  Whenever it returns, the response carried a \<^verbatim>\<open>predictions\<close> entry and the result
  has one class id per prediction, in the order of the predictions, each the result of
  \<^verbatim>\<open>np.argmax\<close> on that prediction. It does return when the status is no error status
  and the predictions are non-empty lists of numbers whose integers fit in 64 bits, and
  each class id is then the index of the first greatest element of the prediction as
  NumPy holds it: the integers themselves when all elements are integers, otherwise all
  elements as floats, each integer rounded to the nearest float and the first NaN, if
  there is one, counted as the greatest. It is the index of the first greatest element
  by value when the prediction holds integers only, or floats only and no NaN.
\<close>

theorem predict_posts_instances_returns_argmax:
  assumes "server e w (predict_url version) (JObj [(''instances'', JArr instances)]) = (took, rep)"
  shows "predict_url version = ''http://localhost:8501/v1/models/mnist/versions/'' @ str_int version @ '':predict''
    \<and> fst (predict e instances version w) =
        w\<lparr>trace := trace w @ [HttpPost (predict_url version) (JObj [(''instances'', JArr instances)]) took],
           now := now w + took\<rparr>
    \<and> (\<forall>ids. snd (predict e instances version w) = Inr ids \<longrightarrow>
          (\<exists>status response preds items.
              rep = Response status (Some response)
            \<and> subscript_str response ''predictions'' = Inr preds
            \<and> iter_json preds = Inr items
            \<and> length ids = length items
            \<and> (\<forall>k<length items. np_argmax e (items ! k) = Inr (ids ! k))))
    \<and> (\<forall>status kvs ps.
          rep = Response status (Some (JObj kvs)) \<and> \<not> (400 \<le> status \<and> status < 600)
          \<and> map_of (rev kvs) ''predictions'' = Some (JArr (map (\<lambda>p. JArr (map json_of_number p)) ps))
          \<and> (\<forall>p\<in>set ps. p \<noteq> [] \<and> \<not> list_ex wide p) \<longrightarrow>
          (\<exists>ids. snd (predict e instances version w) = Inr ids
            \<and> length ids = length ps
            \<and> (\<forall>k<length ps. np_greatest (ps ! k) (ids ! k))
            \<and> (\<forall>k<length ps.
                  all_ints (ps ! k) \<noteq> None \<or> (\<forall>n\<in>set (ps ! k). \<exists>f. n = PyFloat f \<and> f \<noteq> NaN) \<longrightarrow>
                  first_greatest value_le (ps ! k) (ids ! k))))"
proof (intro conjI allI impI)
  show "predict_url version = ''http://localhost:8501/v1/models/mnist/versions/'' @ str_int version @ '':predict''"
    by (simp add: predict_url_def SERVER_URL_def)
next
  show "fst (predict e instances version w) =
        w\<lparr>trace := trace w @ [HttpPost (predict_url version) (JObj [(''instances'', JArr instances)]) took],
           now := now w + took\<rparr>"
    by (simp add: predict_eq[OF assms])
next
  fix ids assume ret: "snd (predict e instances version w) = Inr ids"
  then obtain status body where rep: "rep = Response status body"
    and dec: "decode_predictions e body = Inr ids"
    by (cases rep) (auto simp: predict_eq[OF assms] split: if_splits)
  from decode_Inr[OF dec] obtain response preds items where
    b: "body = Some response" and s: "subscript_str response ''predictions'' = Inr preds"
    and i: "iter_json preds = Inr items" and m: "map_result (np_argmax e) items = Inr ids"
    by blast
  from map_result_Inr[OF m] have "length ids = length items"
    "\<forall>k<length items. np_argmax e (items ! k) = Inr (ids ! k)" by simp_all
  with rep b s i
  show "\<exists>status response preds items.
              rep = Response status (Some response)
            \<and> subscript_str response ''predictions'' = Inr preds
            \<and> iter_json preds = Inr items
            \<and> length ids = length items
            \<and> (\<forall>k<length items. np_argmax e (items ! k) = Inr (ids ! k))"
    by blast
next
  fix status kvs ps
  assume h: "rep = Response status (Some (JObj kvs)) \<and> \<not> (400 \<le> status \<and> status < 600)
          \<and> map_of (rev kvs) ''predictions'' = Some (JArr (map (\<lambda>p. JArr (map json_of_number p)) ps))
          \<and> (\<forall>p\<in>set ps. p \<noteq> [] \<and> \<not> list_ex wide p)"
  then have rep: "rep = Response status (Some (JObj kvs))" "\<not> (400 \<le> status \<and> status < 600)"
    and preds: "map_of (rev kvs) ''predictions'' = Some (JArr (map (\<lambda>p. JArr (map json_of_number p)) ps))"
    and ps: "\<forall>p\<in>set ps. p \<noteq> [] \<and> \<not> list_ex wide p"
    by simp_all
  from wellformed_returns[OF assms rep preds ps] obtain ids where
    ids: "snd (predict e instances version w) = Inr ids" "length ids = length ps"
    and g: "\<forall>k<length ps. np_greatest (ps ! k) (ids ! k)"
    by blast
  have "\<forall>k<length ps.
          all_ints (ps ! k) \<noteq> None \<or> (\<forall>n\<in>set (ps ! k). \<exists>f. n = PyFloat f \<and> f \<noteq> NaN) \<longrightarrow>
          first_greatest value_le (ps ! k) (ids ! k)"
    using g np_greatest_by_value by blast
  with ids g
  show "\<exists>ids. snd (predict e instances version w) = Inr ids
            \<and> length ids = length ps
            \<and> (\<forall>k<length ps. np_greatest (ps ! k) (ids ! k))
            \<and> (\<forall>k<length ps.
                  all_ints (ps ! k) \<noteq> None \<or> (\<forall>n\<in>set (ps ! k). \<exists>f. n = PyFloat f \<and> f \<noteq> NaN) \<longrightarrow>
                  first_greatest value_le (ps ! k) (ids ! k))"
    by blast
qed

text \<open>
  C4 as stated fails: the server answers with the one prediction
  \<^verbatim>\<open>[9007199254740992.0, 9007199254740993]\<close>, NumPy rounds the integer to the float
  beside it, and \<open>predict\<close> returns the class id 0 although the element at index 1 is
  the greater one.
\<close>

theorem predict_class_id_not_greatest:
  "server rounding_env demo_world (predict_url 1) (JObj [(''instances'', JArr [JNum 7])])
     = (5000, Response 200 (Some (JObj [(''predictions'',
          JArr [JArr (map json_of_number [PyFloat (Fin 9007199254740992), PyInt 9007199254740993])])])))
   \<and> snd (predict rounding_env [JNum 7] 1 demo_world) = Inr [0]
   \<and> \<not> first_greatest value_le [PyFloat (Fin 9007199254740992), PyInt 9007199254740993] 0
   \<and> first_greatest value_le [PyFloat (Fin 9007199254740992), PyInt 9007199254740993] 1"
  by code_simp

lemma predict_url_1: "predict_url 1 = ''http://localhost:8501/v1/models/mnist/versions/1:predict''"
  by (simp add: predict_url_def SERVER_URL_def str_int_def str_nat.simps)

lemma demo_predict: "predict demo_env [JNum 7] 1 demo_world =
   (demo_world\<lparr>trace := [HttpPost (predict_url 1) (JObj [(''instances'', JArr [JNum 7])]) 900000], now := 900000\<rparr>, Inr [1, 0])"
  by (simp add: predict_def demo_env_def demo_server_def demo_world_def demo_reply_def
        raise_for_status_def decode_predictions_def subscript_str_def iter_json_def np_argmax_def argmax_def
        float_argmax_def Let_def)

text \<open>The theorem at the small environment: the class ids are 1 and 0. At the server
  whose prediction is \<^verbatim>\<open>[0.1, NaN, Infinity]\<close> the class id is 1, the index of the NaN.\<close>

theorem predict_posts_witness:
  "server demo_env demo_world (predict_url 1) (JObj [(''instances'', JArr [JNum 7])])
     = (900000, Response 200 (Some demo_reply))
   \<and> trace (fst (predict demo_env [JNum 7] 1 demo_world)) =
       [HttpPost ''http://localhost:8501/v1/models/mnist/versions/1:predict''
          (JObj [(''instances'', JArr [JNum 7])]) 900000]
   \<and> snd (predict demo_env [JNum 7] 1 demo_world) = Inr [1, 0]
   \<and> np_greatest [PyFloat (Fin (1/10)), PyFloat (Fin (9/10))] 1
   \<and> np_greatest [PyFloat (Fin (7/10)), PyFloat (Fin (3/10))] 0
   \<and> first_greatest value_le [PyFloat (Fin (1/10)), PyFloat (Fin (9/10))] 1
   \<and> first_greatest value_le [PyFloat (Fin (7/10)), PyFloat (Fin (3/10))] 0
   \<and> server nan_env demo_world (predict_url 1) (JObj [(''instances'', JArr [JNum 7])])
     = (5000, Response 200 (Some (JObj [(''predictions'', JArr [JArr [JNum (1/10), JNaN, JInfinity]])])))
   \<and> snd (predict nan_env [JNum 7] 1 demo_world) = Inr [1]
   \<and> np_greatest [PyFloat (Fin (1/10)), PyFloat NaN, PyFloat PosInf] 1"
proof -
  let ?ps = "[[PyFloat (Fin (1/10)), PyFloat (Fin (9/10))], [PyFloat (Fin (7/10)), PyFloat (Fin (3/10))]]"
  let ?qs = "[[PyFloat (Fin (1/10)), PyFloat NaN, PyFloat PosInf]]"
  have h: "server demo_env demo_world (predict_url 1) (JObj [(''instances'', JArr [JNum 7])])
     = (900000, Response 200 (Some demo_reply))"
    by (simp add: demo_env_def demo_server_def demo_world_def)
  have hn: "server nan_env demo_world (predict_url 1) (JObj [(''instances'', JArr [JNum 7])])
     = (5000, Response 200 (Some (JObj [(''predictions'', JArr [JArr [JNum (1/10), JNaN, JInfinity]])])))"
    by (simp add: nan_env_def demo_env_def)
  have r: "snd (predict demo_env [JNum 7] 1 demo_world) = Inr [1, 0]"
    by (simp add: demo_predict)
  have rn: "snd (predict nan_env [JNum 7] 1 demo_world) = Inr [1]"
    by code_simp
  note t = predict_posts_instances_returns_argmax[OF h]
  note tr = t[THEN conjunct2, THEN conjunct1]
  from t[THEN conjunct2, THEN conjunct2, THEN conjunct2, THEN spec, THEN spec, THEN spec, of 200 "[(''predictions'',
     JArr [JArr [JNum (1/10), JNum (9/10)], JArr [JNum (7/10), JNum (3/10)]])]" ?ps]
  have "\<exists>ids. snd (predict demo_env [JNum 7] 1 demo_world) = Inr ids
            \<and> length ids = length ?ps
            \<and> (\<forall>k<length ?ps. np_greatest (?ps ! k) (ids ! k))
            \<and> (\<forall>k<length ?ps.
                  all_ints (?ps ! k) \<noteq> None \<or> (\<forall>n\<in>set (?ps ! k). \<exists>f. n = PyFloat f \<and> f \<noteq> NaN) \<longrightarrow>
                  first_greatest value_le (?ps ! k) (ids ! k))"
    by (simp add: demo_reply_def)
  with r have fm: "np_greatest [PyFloat (Fin (1/10)), PyFloat (Fin (9/10))] 1
      \<and> np_greatest [PyFloat (Fin (7/10)), PyFloat (Fin (3/10))] 0
      \<and> first_greatest value_le [PyFloat (Fin (1/10)), PyFloat (Fin (9/10))] 1
      \<and> first_greatest value_le [PyFloat (Fin (7/10)), PyFloat (Fin (3/10))] 0"
    by (auto simp: less_Suc_eq numeral_2_eq_2)
  from predict_posts_instances_returns_argmax[OF hn, THEN conjunct2, THEN conjunct2, THEN conjunct2,
      THEN spec, THEN spec, THEN spec, of 200 "[(''predictions'', JArr [JArr [JNum (1/10), JNaN, JInfinity]])]" ?qs]
  have "\<exists>ids. snd (predict nan_env [JNum 7] 1 demo_world) = Inr ids
            \<and> length ids = length ?qs
            \<and> (\<forall>k<length ?qs. np_greatest (?qs ! k) (ids ! k))"
    by simp
  with rn have fn: "np_greatest [PyFloat (Fin (1/10)), PyFloat NaN, PyFloat PosInf] 1"
    by auto
  show ?thesis using h hn r rn tr fm fn by (simp add: predict_url_1 demo_world_def)
qed

text \<open>
  C3, as the code has it: \<open>predict\<close> raises \<^verbatim>\<open>HTTPError\<close> whenever the status of the
  response is between 400 and 599, whatever the body. With any other status it returns
  normally when the body is a JSON object whose \<^verbatim>\<open>predictions\<close> entry is a list of
  non-empty lists of numbers (finite floats, or any numbers whose integers fit in 64
  bits); it still raises \<^verbatim>\<open>ValueError\<close> when the body is not
  JSON and \<^verbatim>\<open>KeyError\<close> when the object has no \<^verbatim>\<open>predictions\<close> entry, and it
  raises when no response arrives at all.
\<close>

theorem predict_raise_conditions:
  assumes "server e w (predict_url version) (JObj [(''instances'', JArr instances)]) = (took, rep)"
  shows "(rep = NoResponse \<longrightarrow> snd (predict e instances version w) = Inl ConnectionError)
    \<and> (\<forall>status body. rep = Response status body \<and> 400 \<le> status \<and> status < 600 \<longrightarrow>
          snd (predict e instances version w) = Inl HTTPError)
    \<and> (\<forall>status. rep = Response status None \<and> \<not> (400 \<le> status \<and> status < 600) \<longrightarrow>
          snd (predict e instances version w) = Inl ValueError)
    \<and> (\<forall>status kvs. rep = Response status (Some (JObj kvs)) \<and> \<not> (400 \<le> status \<and> status < 600)
          \<and> map_of (rev kvs) ''predictions'' = None \<longrightarrow>
          snd (predict e instances version w) = Inl KeyError)
    \<and> (\<forall>status kvs ps. rep = Response status (Some (JObj kvs)) \<and> \<not> (400 \<le> status \<and> status < 600)
          \<and> map_of (rev kvs) ''predictions'' = Some (JArr (map (\<lambda>p. JArr (map JNum p)) ps))
          \<and> [] \<notin> set ps \<longrightarrow>
          (\<exists>ids. snd (predict e instances version w) = Inr ids))
    \<and> (\<forall>status kvs ps. rep = Response status (Some (JObj kvs)) \<and> \<not> (400 \<le> status \<and> status < 600)
          \<and> map_of (rev kvs) ''predictions'' = Some (JArr (map (\<lambda>p. JArr (map json_of_number p)) ps))
          \<and> (\<forall>p\<in>set ps. p \<noteq> [] \<and> \<not> list_ex wide p) \<longrightarrow>
          (\<exists>ids. snd (predict e instances version w) = Inr ids))"
proof (intro conjI allI impI)
  assume "rep = NoResponse"
  then show "snd (predict e instances version w) = Inl ConnectionError"
    by (simp add: predict_eq[OF assms])
next
  fix status body
  assume "rep = Response status body \<and> 400 \<le> status \<and> status < 600"
  then show "snd (predict e instances version w) = Inl HTTPError"
    by (simp add: predict_eq[OF assms])
next
  fix status
  assume "rep = Response status None \<and> \<not> (400 \<le> status \<and> status < 600)"
  then show "snd (predict e instances version w) = Inl ValueError"
    by (auto simp: predict_eq[OF assms] decode_predictions_def)
next
  fix status kvs
  assume "rep = Response status (Some (JObj kvs)) \<and> \<not> (400 \<le> status \<and> status < 600)
          \<and> map_of (rev kvs) ''predictions'' = None"
  then show "snd (predict e instances version w) = Inl KeyError"
    by (auto simp: predict_eq[OF assms] decode_predictions_def subscript_str_def)
next
  fix status kvs and ps :: "rat list list"
  assume h: "rep = Response status (Some (JObj kvs)) \<and> \<not> (400 \<le> status \<and> status < 600)
          \<and> map_of (rev kvs) ''predictions'' = Some (JArr (map (\<lambda>p. JArr (map JNum p)) ps))
          \<and> [] \<notin> set ps"
  let ?ns = "map (map (\<lambda>r. PyFloat (Fin r))) ps"
  from h have rep: "rep = Response status (Some (JObj kvs))" "\<not> (400 \<le> status \<and> status < 600)"
    and "map_of (rev kvs) ''predictions'' = Some (JArr (map (\<lambda>p. JArr (map JNum p)) ps))"
    by simp_all
  then have preds: "map_of (rev kvs) ''predictions'' = Some (JArr (map (\<lambda>p. JArr (map json_of_number p)) ?ns))"
    by (simp only: floats_as_numbers)
  have ns: "\<forall>p\<in>set ?ns. p \<noteq> [] \<and> \<not> list_ex wide p"
    using h by (auto simp: list_ex_iff)
  from wellformed_returns[OF assms rep preds ns]
  show "\<exists>ids. snd (predict e instances version w) = Inr ids" by blast
next
  fix status kvs and ps :: "number list list"
  assume h: "rep = Response status (Some (JObj kvs)) \<and> \<not> (400 \<le> status \<and> status < 600)
          \<and> map_of (rev kvs) ''predictions'' = Some (JArr (map (\<lambda>p. JArr (map json_of_number p)) ps))
          \<and> (\<forall>p\<in>set ps. p \<noteq> [] \<and> \<not> list_ex wide p)"
  then have rep: "rep = Response status (Some (JObj kvs))" "\<not> (400 \<le> status \<and> status < 600)"
    and preds: "map_of (rev kvs) ''predictions'' = Some (JArr (map (\<lambda>p. JArr (map json_of_number p)) ps))"
    and ps: "\<forall>p\<in>set ps. p \<noteq> [] \<and> \<not> list_ex wide p"
    by simp_all
  from wellformed_returns[OF assms rep preds ps]
  show "\<exists>ids. snd (predict e instances version w) = Inr ids" by blast
qed

text \<open>
  C3 as stated fails: the status 200 is a success status, and \<open>predict\<close> raises
  \<^verbatim>\<open>KeyError\<close> when the body is the empty JSON object.
\<close>

theorem predict_raises_on_success_status:
  "server keyless_env demo_world (predict_url 1) (JObj [(''instances'', JArr [JNum 7])])
     = (5000, Response 200 (Some (JObj [])))
   \<and> snd (predict keyless_env [JNum 7] 1 demo_world) = Inl KeyError"
  by (simp add: predict_def keyless_env_def demo_env_def demo_world_def
        raise_for_status_def decode_predictions_def subscript_str_def Let_def)

text \<open>The theorem at an error page, at a body without predictions, at a good answer and
  at an answer that holds a NaN.\<close>

theorem predict_raise_witness:
  "server flaky_env (demo_world\<lparr>trace := [GfileExists ''/a'', GfileExists ''/b'']\<rparr>) (predict_url 1)
      (JObj [(''instances'', JArr [JNum 7])]) = (5000, Response 503 None)
   \<and> snd (predict flaky_env [JNum 7] 1 (demo_world\<lparr>trace := [GfileExists ''/a'', GfileExists ''/b'']\<rparr>))
       = Inl HTTPError
   \<and> server keyless_env demo_world (predict_url 1) (JObj [(''instances'', JArr [JNum 7])])
       = (5000, Response 200 (Some (JObj [])))
   \<and> snd (predict keyless_env [JNum 7] 1 demo_world) = Inl KeyError
   \<and> server demo_env demo_world (predict_url 1) (JObj [(''instances'', JArr [JNum 7])])
       = (900000, Response 200 (Some demo_reply))
   \<and> (\<exists>ids. snd (predict demo_env [JNum 7] 1 demo_world) = Inr ids)
   \<and> server nan_env demo_world (predict_url 1) (JObj [(''instances'', JArr [JNum 7])])
       = (5000, Response 200 (Some (JObj [(''predictions'', JArr [JArr [JNum (1/10), JNaN, JInfinity]])])))
   \<and> (\<exists>ids. snd (predict nan_env [JNum 7] 1 demo_world) = Inr ids)"
proof -
  let ?w = "demo_world\<lparr>trace := [GfileExists ''/a'', GfileExists ''/b'']\<rparr>"
  have h1: "server flaky_env ?w (predict_url 1) (JObj [(''instances'', JArr [JNum 7])]) = (5000, Response 503 None)"
    by (simp add: flaky_env_def demo_env_def demo_world_def)
  have h2: "server keyless_env demo_world (predict_url 1) (JObj [(''instances'', JArr [JNum 7])])
       = (5000, Response 200 (Some (JObj [])))"
    by (simp add: keyless_env_def demo_env_def)
  have h3: "server demo_env demo_world (predict_url 1) (JObj [(''instances'', JArr [JNum 7])])
       = (900000, Response 200 (Some demo_reply))"
    by (simp add: demo_env_def demo_server_def demo_world_def)
  have c1: "snd (predict flaky_env [JNum 7] 1 ?w) = Inl HTTPError"
    using predict_raise_conditions[OF h1] by simp
  have c2: "snd (predict keyless_env [JNum 7] 1 demo_world) = Inl KeyError"
    using predict_raise_conditions[OF h2] by simp
  have c3: "\<exists>ids. snd (predict demo_env [JNum 7] 1 demo_world) = Inr ids"
    using predict_raise_conditions[OF h3, THEN conjunct2, THEN conjunct2, THEN conjunct2, THEN conjunct2,
      THEN conjunct1, THEN spec, THEN spec, THEN spec, of 200 "[(''predictions'',
     JArr [JArr [JNum (1/10), JNum (9/10)], JArr [JNum (7/10), JNum (3/10)]])]" "[[1/10, 9/10], [7/10, 3/10]]"]
    by (simp add: demo_reply_def)
  have h4: "server nan_env demo_world (predict_url 1) (JObj [(''instances'', JArr [JNum 7])])
       = (5000, Response 200 (Some (JObj [(''predictions'', JArr [JArr [JNum (1/10), JNaN, JInfinity]])])))"
    by (simp add: nan_env_def demo_env_def)
  have c4: "\<exists>ids. snd (predict nan_env [JNum 7] 1 demo_world) = Inr ids"
    using predict_raise_conditions[OF h4, THEN conjunct2, THEN conjunct2, THEN conjunct2, THEN conjunct2,
      THEN conjunct2, THEN spec, THEN spec, THEN spec, of 200
      "[(''predictions'', JArr [JArr [JNum (1/10), JNaN, JInfinity]])]"
      "[[PyFloat (Fin (1/10)), PyFloat NaN, PyFloat PosInf]]"]
    by simp
  show ?thesis using h1 h2 h3 c1 c2 c3 h4 c4 by simp
qed

subsection \<open>The latency benchmark\<close>

lemma predict_effect:
  assumes "predict e ins v w = (w', r)"
  shows "\<exists>took. w' = w\<lparr>trace := trace w @ [HttpPost (predict_url v) (JObj [(''instances'', JArr ins)]) took],
                         now := now w + took\<rparr>"
proof -
  obtain took rep where s: "server e w (predict_url v) (JObj [(''instances'', JArr ins)]) = (took, rep)"
    by (cases "server e w (predict_url v) (JObj [(''instances'', JArr ins)])")
  from predict_eq[OF s] assms show ?thesis by auto
qed

lemma predict_loop_effect:
  "predict_loop e ins v n out w = (w', r) \<Longrightarrow>
     \<exists>tooks. w' = w\<lparr>trace := trace w @ map (HttpPost (predict_url v) (JObj [(''instances'', JArr ins)])) tooks,
                      now := now w + sum_list tooks\<rparr>
       \<and> length tooks \<le> n
       \<and> (\<forall>res. r = Inr res \<longrightarrow> length tooks = n \<and> (0 < n \<longrightarrow> res \<noteq> None) \<and> (n = 0 \<longrightarrow> res = out))"
proof (induction n arbitrary: out w)
  case 0
  then have "w' = w" "r = Inr out" by simp_all
  then show ?case by (intro exI[of _ "[]"]) simp
next
  case (Suc n)
  obtain w1 r1 where p: "predict e ins v w = (w1, r1)" by (cases "predict e ins v w")
  from predict_effect[OF p] obtain took where
    w1: "w1 = w\<lparr>trace := trace w @ [HttpPost (predict_url v) (JObj [(''instances'', JArr ins)]) took],
                 now := now w + took\<rparr>" ..
  show ?case
  proof (cases r1)
    case (Inl err)
    with Suc.prems p have "w' = w1" "r = Inl err" by simp_all
    with w1 show ?thesis by (intro exI[of _ "[took]"]) simp
  next
    case (Inr ids)
    with Suc.prems p have "predict_loop e ins v n (Some ids) w1 = (w', r)" by simp
    from Suc.IH[OF this] obtain tooks where
      t: "w' = w1\<lparr>trace := trace w1 @ map (HttpPost (predict_url v) (JObj [(''instances'', JArr ins)])) tooks,
                    now := now w1 + sum_list tooks\<rparr>"
      and l: "length tooks \<le> n"
      and f: "\<forall>res. r = Inr res \<longrightarrow> length tooks = n \<and> (0 < n \<longrightarrow> res \<noteq> None) \<and> (n = 0 \<longrightarrow> res = Some ids)"
      by blast
    show ?thesis
    proof (intro exI[of _ "took # tooks"] conjI allI impI)
      show "w' = w\<lparr>trace := trace w @ map (HttpPost (predict_url v) (JObj [(''instances'', JArr ins)])) (took # tooks),
                      now := now w + sum_list (took # tooks)\<rparr>"
        using t w1 by simp
      show "length (took # tooks) \<le> Suc n" using l by simp
    next
      fix res assume "r = Inr res"
      with f show "length (took # tooks) = Suc n" by simp
    next
      fix res assume "r = Inr res" "0 < Suc n"
      with f show "res \<noteq> None" by (cases n) auto
    next
      fix res assume "r = Inr res" "Suc n = 0"
      then show "res = out" by simp
    qed
  qed
qed

lemma predict_loop_add:
  "predict_loop e ins v k out w = (wk, Inr res) \<Longrightarrow>
   predict_loop e ins v (k + m) out w = predict_loop e ins v m res wk"
proof (induction k arbitrary: out w)
  case 0
  then show ?case by simp
next
  case (Suc k)
  obtain w1 r1 where p: "predict e ins v w = (w1, r1)" by (cases "predict e ins v w")
  show ?case
  proof (cases r1)
    case (Inl err)
    with Suc.prems p show ?thesis by simp
  next
    case (Inr ids)
    with Suc.prems p have "predict_loop e ins v k (Some ids) w1 = (wk, Inr res)" by simp
    from Suc.IH[OF this] show ?thesis using p Inr by simp
  qed
qed









text \<open>
  C7: \<open>benchmark_inference\<close> sends the batch \<open>repeat\<close> times and reports the time
  the clock advanced over the loop and that time divided by \<open>repeat\<close> as the average
  latency per batch. It retries nothing: when the warm-up request raises, or when a
  request of the loop raises after \<open>k < repeat\<close> requests went well, the call ends with
  that exception in the world that request left, so nothing is sent or printed after it.
\<close>

theorem benchmark_inference_report_and_abort:
  assumes "collect_instances (eval_data e) (range_py batch) [] = Inr instances"
  shows "(\<forall>w1 err. predict e (take 1 instances) version w = (w1, Inl err) \<longrightarrow>
            benchmark_inference e version batch repeat w = (w1, Inl err))
    \<and> (\<forall>w1 warm k wk res wf err.
            predict e (take 1 instances) version w = (w1, Inr warm)
          \<and> k < nat repeat
          \<and> predict_loop e instances version k None
               (print_line (Text ''Timer started...'') (print_line (Text ''Warm up request performed!'') w1))
              = (wk, Inr res)
          \<and> predict e instances version wk = (wf, Inl err) \<longrightarrow>
            benchmark_inference e version batch repeat w = (wf, Inl err))
    \<and> (\<forall>w'. benchmark_inference e version batch repeat w = (w', Inr ()) \<longrightarrow>
          (\<exists>w1 warm out.
              predict e (take 1 instances) version w = (w1, Inr warm)
            \<and> 0 < repeat
            \<and> int (length (trace w')) = int (length (trace w1)) + repeat
            \<and> stdout w' = stdout w1 @
                 [Text ''Warm up request performed!'', Text ''Timer started...'',
                  Elapsed (of_int (now w' - now w1) / 1000000),
                  Produced (length out) repeat,
                  AverageLatency (of_int (now w' - now w1) / 1000000 / of_int repeat),
                  LastInstance (hd out)]))"
proof (intro conjI allI impI)
  fix w1 err
  assume "predict e (take 1 instances) version w = (w1, Inl err)"
  then show "benchmark_inference e version batch repeat w = (w1, Inl err)"
    using assms by (simp add: benchmark_inference_def)
next
  fix w1 warm k wk res wf err
  assume h: "predict e (take 1 instances) version w = (w1, Inr warm)
          \<and> k < nat repeat
          \<and> predict_loop e instances version k None
               (print_line (Text ''Timer started...'') (print_line (Text ''Warm up request performed!'') w1))
              = (wk, Inr res)
          \<and> predict e instances version wk = (wf, Inl err)"
  let ?w2 = "print_line (Text ''Timer started...'') (print_line (Text ''Warm up request performed!'') w1)"
  from h obtain m where m: "nat repeat = k + Suc m"
    by (metis less_imp_Suc_add add_Suc_right)
  from h have "predict_loop e instances version k None ?w2 = (wk, Inr res)" by simp
  from predict_loop_add[OF this, of "Suc m"] h
  have "predict_loop e instances version (nat repeat) None ?w2 = (wf, Inl err)"
    by (simp add: m)
  with h assms show "benchmark_inference e version batch repeat w = (wf, Inl err)"
    by (simp add: benchmark_inference_def Let_def)
next
  fix w'
  assume ret: "benchmark_inference e version batch repeat w = (w', Inr ())"
  obtain w1 r1 where p: "predict e (take 1 instances) version w = (w1, r1)"
    by (cases "predict e (take 1 instances) version w")
  from ret assms p obtain ids where r1: "r1 = Inr ids"
    by (cases r1) (simp_all add: benchmark_inference_def)
  define w2 where "w2 = print_line (Text ''Timer started...'') (print_line (Text ''Warm up request performed!'') w1)"
  obtain w3 r3 where l: "predict_loop e instances version (nat repeat) None w2 = (w3, r3)"
    by (cases "predict_loop e instances version (nat repeat) None w2")
  from ret assms p r1 l obtain res where r3: "r3 = Inr res"
    by (cases r3) (simp_all add: benchmark_inference_def Let_def w2_def)
  from ret assms p r1 l r3 obtain out where outp: "res = Some out"
    by (cases res) (simp_all add: benchmark_inference_def Let_def w2_def)
  from ret assms p r1 l r3 outp have rep: "repeat \<noteq> 0"
    by (auto simp: benchmark_inference_def Let_def w2_def)
  from ret assms p r1 l r3 outp rep obtain c0 cs where out: "out = c0 # cs"
    by (cases out) (simp_all add: benchmark_inference_def Let_def w2_def)
  from ret assms p r1 l r3 outp rep out
  have w': "w' = print_line (LastInstance c0)
                  (print_line (AverageLatency (of_int (now w3 - now w2) / 1000000 / of_int repeat))
                    (print_line (Produced (length out) repeat)
                      (print_line (Elapsed (of_int (now w3 - now w2) / 1000000)) w3)))"
    by (simp add: benchmark_inference_def Let_def w2_def)
  from predict_loop_effect[OF l] r3 obtain tooks where
    w3: "w3 = w2\<lparr>trace := trace w2 @ map (HttpPost (predict_url version) (JObj [(''instances'', JArr instances)])) tooks,
                  now := now w2 + sum_list tooks\<rparr>"
    and len: "length tooks = nat repeat"
    and zero: "nat repeat = 0 \<longrightarrow> res = None"
    by blast
  from zero outp have rpos: "0 < repeat" by (cases "nat repeat = 0") auto
  show "\<exists>w1 warm out.
              predict e (take 1 instances) version w = (w1, Inr warm)
            \<and> 0 < repeat
            \<and> int (length (trace w')) = int (length (trace w1)) + repeat
            \<and> stdout w' = stdout w1 @
                 [Text ''Warm up request performed!'', Text ''Timer started...'',
                  Elapsed (of_int (now w' - now w1) / 1000000),
                  Produced (length out) repeat,
                  AverageLatency (of_int (now w' - now w1) / 1000000 / of_int repeat),
                  LastInstance (hd out)]"
  proof (rule exI[of _ w1], rule exI[of _ ids], rule exI[of _ out], intro conjI)
    show "predict e (take 1 instances) version w = (w1, Inr ids)" using p r1 by simp
    show "0 < repeat" by (rule rpos)
    show "int (length (trace w')) = int (length (trace w1)) + repeat"
      using w' w3 len rpos by (simp add: w2_def print_line_def)
    show "stdout w' = stdout w1 @
                 [Text ''Warm up request performed!'', Text ''Timer started...'',
                  Elapsed (of_int (now w' - now w1) / 1000000),
                  Produced (length out) repeat,
                  AverageLatency (of_int (now w' - now w1) / 1000000 / of_int repeat),
                  LastInstance (hd out)]"
      using w' w3 out by (simp add: w2_def print_line_def)
  qed
qed

text \<open>The theorem at a server whose first answer is an error page, at one whose third
  answer is, and at the server that always answers.\<close>

theorem benchmark_report_and_abort_witness:
  "collect_instances (eval_data flaky_env) (range_py 2) [] = Inr [JArr [JNum 0], JArr [JNum 1]]
   \<and> snd (predict flaky_env (take 1 [JArr [JNum 0], JArr [JNum 1]]) 1
           (demo_world\<lparr>trace := [GfileExists ''/a'', GfileExists ''/b'']\<rparr>)) = Inl HTTPError
   \<and> snd (benchmark_inference flaky_env 1 2 3 (demo_world\<lparr>trace := [GfileExists ''/a'', GfileExists ''/b'']\<rparr>))
       = Inl HTTPError
   \<and> snd (benchmark_inference flaky_env 1 2 3 demo_world) = Inl HTTPError
   \<and> length (trace (fst (benchmark_inference flaky_env 1 2 3 demo_world))) = 3
   \<and> snd (benchmark_inference demo_env 1 2 2 demo_world) = Inr ()
   \<and> (\<exists>w1 warm out.
          predict demo_env (take 1 [JArr [JNum 0], JArr [JNum 1]]) 1 demo_world = (w1, Inr warm)
        \<and> stdout (fst (benchmark_inference demo_env 1 2 2 demo_world)) = stdout w1 @
            [Text ''Warm up request performed!'', Text ''Timer started...'',
             Elapsed (of_int (now (fst (benchmark_inference demo_env 1 2 2 demo_world)) - now w1) / 1000000),
             Produced (length out) 2,
             AverageLatency (of_int (now (fst (benchmark_inference demo_env 1 2 2 demo_world)) - now w1) / 1000000 / of_int 2),
             LastInstance (hd out)])"
proof -
  let ?ins = "[JArr [JNum 0], JArr [JNum 1]]"
  let ?wa = "demo_world\<lparr>trace := [GfileExists ''/a'', GfileExists ''/b'']\<rparr>"
  have c: "collect_instances (eval_data flaky_env) (range_py 2) [] = Inr ?ins" by code_simp
  have c': "collect_instances (eval_data demo_env) (range_py 2) [] = Inr ?ins" by code_simp
  \<comment> \<open>the warm-up request fails\<close>
  let ?p1 = "predict flaky_env (take 1 ?ins) 1 ?wa"
  have s1: "snd ?p1 = Inl HTTPError" by code_simp
  then have h1: "?p1 = (fst ?p1, Inl HTTPError)" by (simp add: prod_eq_iff)
  from benchmark_inference_report_and_abort[OF c, of 1 ?wa 3, THEN conjunct1, THEN spec, THEN spec, THEN mp, OF h1]
  have a1: "snd (benchmark_inference flaky_env 1 2 3 ?wa) = Inl HTTPError" by simp
  \<comment> \<open>the second timed request fails\<close>
  let ?q1 = "predict flaky_env (take 1 ?ins) 1 demo_world"
  let ?w2 = "print_line (Text ''Timer started...'') (print_line (Text ''Warm up request performed!'') (fst ?q1))"
  let ?l = "predict_loop flaky_env ?ins 1 1 None ?w2"
  let ?f = "predict flaky_env ?ins 1 (fst ?l)"
  have "snd ?q1 = Inr [1, 0]" by code_simp
  then have g1: "?q1 = (fst ?q1, Inr [1, 0])" by (simp add: prod_eq_iff)
  have "snd ?l = Inr (Some [1, 0])" by code_simp
  then have g2: "?l = (fst ?l, Inr (Some [1, 0]))" by (simp add: prod_eq_iff)
  have "snd ?f = Inl HTTPError" by code_simp
  then have g3: "?f = (fst ?f, Inl HTTPError)" by (simp add: prod_eq_iff)
  have k: "(1::nat) < nat 3" by simp
  from benchmark_inference_report_and_abort[OF c, of 1 demo_world 3, THEN conjunct2, THEN conjunct1,
      THEN spec, THEN spec, THEN spec, THEN spec, THEN spec, THEN spec, THEN spec, THEN mp,
      OF conjI[OF g1 conjI[OF k conjI[OF g2 g3]]]]
  have a2: "benchmark_inference flaky_env 1 2 3 demo_world = (fst ?f, Inl HTTPError)" .
  then have a2s: "snd (benchmark_inference flaky_env 1 2 3 demo_world) = Inl HTTPError" by simp
  have "length (trace (fst ?f)) = 3" by code_simp
  with a2 have a2t: "length (trace (fst (benchmark_inference flaky_env 1 2 3 demo_world))) = 3" by simp
  \<comment> \<open>every request succeeds\<close>
  let ?r = "benchmark_inference demo_env 1 2 2 demo_world"
  have s3: "snd ?r = Inr ()" by code_simp
  then have h3: "?r = (fst ?r, Inr ())" by (simp add: prod_eq_iff)
  from benchmark_inference_report_and_abort[OF c', of 1 demo_world 2, THEN conjunct2, THEN conjunct2,
      THEN spec, THEN mp, OF h3]
  have a3: "\<exists>w1 warm out.
          predict demo_env (take 1 ?ins) 1 demo_world = (w1, Inr warm)
        \<and> stdout (fst ?r) = stdout w1 @
            [Text ''Warm up request performed!'', Text ''Timer started...'',
             Elapsed (of_int (now (fst ?r) - now w1) / 1000000),
             Produced (length out) 2,
             AverageLatency (of_int (now (fst ?r) - now w1) / 1000000 / of_int 2),
             LastInstance (hd out)]"
    by blast
  from c s1 a1 a2s a2t s3 a3 show ?thesis by blast
qed

subsection \<open>Paths and the freezing utility\<close>

lemma os_path_join_relative:
  "b \<noteq> [] \<Longrightarrow> hd b \<noteq> CHR ''/'' \<Longrightarrow>
   os_path_join a b = (if a = [] \<or> last a = CHR ''/'' then a else a @ ''/'') @ b"
  by (simp add: os_path_join_def)

lemma os_path_join_inject:
  assumes "b \<noteq> []" "hd b \<noteq> CHR ''/''" "c \<noteq> []" "hd c \<noteq> CHR ''/''" "b \<noteq> c"
  shows "os_path_join a b \<noteq> os_path_join a c"
  using assms by (simp add: os_path_join_relative)

text \<open>
  C6: for every \<open>saved_model_dir\<close>, \<open>freeze_graph\<close> calls the freezing utility once,
  with the output node names exactly \<^verbatim>\<open>softmax/Softmax\<close> and with the output file
  \<^verbatim>\<open>freezed_model.pb\<close> joined to \<open>saved_model_dir\<close>, which is the file of that name
  inside the directory; what the utility produces is written to that file, and when
  the utility fails its exception ends the call and no file changes.
\<close>

theorem freeze_graph_fixed_arguments:
  "\<exists>args.
      trace (fst (freeze_graph e d w)) = trace w @ [FreezeGraphCall args]
    \<and> input_saved_model_dir args = d
    \<and> output_node_names args = ''softmax/Softmax''
    \<and> output_graph args = os_path_join d ''freezed_model.pb''
    \<and> os_path_join d ''freezed_model.pb''
        = (if d = [] \<or> last d = CHR ''/'' then d else d @ ''/'') @ ''freezed_model.pb''
    \<and> (\<forall>g. freeze_tool e (fs w) args = Inr g \<longrightarrow>
          snd (freeze_graph e d w) = Inr ()
        \<and> fs (fst (freeze_graph e d w)) = (fs w)(os_path_join d ''freezed_model.pb'' \<mapsto> File (GraphDefPb g)))
    \<and> (\<forall>err. freeze_tool e (fs w) args = Inl err \<longrightarrow>
          snd (freeze_graph e d w) = Inl err \<and> fs (fst (freeze_graph e d w)) = fs w)"
proof -
  let ?args = "\<lparr>input_saved_model_dir = d,
                  output_graph = os_path_join d ''freezed_model.pb'',
                  saved_model_tags = ''serve'',
                  output_node_names = ''softmax/Softmax'',
                  initializer_nodes = [],
                  input_graph = None, input_saver = False, input_binary = False,
                  input_checkpoint = None, restore_op_name = None,
                  filename_tensor_name = None, clear_devices = False,
                  input_meta_graph = False\<rparr>"
  have j: "os_path_join d ''freezed_model.pb''
        = (if d = [] \<or> last d = CHR ''/'' then d else d @ ''/'') @ ''freezed_model.pb''"
    by (rule os_path_join_relative) simp_all
  show ?thesis
  proof (rule exI[of _ ?args], intro conjI allI impI)
    show "trace (fst (freeze_graph e d w)) = trace w @ [FreezeGraphCall ?args]"
      by (cases "freeze_tool e (fs w) ?args")
         (simp_all add: freeze_graph_def Let_def log_event_def print_line_def)
    show "input_saved_model_dir ?args = d" by simp
    show "output_node_names ?args = ''softmax/Softmax''" by simp
    show "output_graph ?args = os_path_join d ''freezed_model.pb''" by simp
    show "os_path_join d ''freezed_model.pb''
        = (if d = [] \<or> last d = CHR ''/'' then d else d @ ''/'') @ ''freezed_model.pb''" by (rule j)
  next
    fix g assume "freeze_tool e (fs w) ?args = Inr g"
    then show "snd (freeze_graph e d w) = Inr ()"
      and "fs (fst (freeze_graph e d w)) = (fs w)(os_path_join d ''freezed_model.pb'' \<mapsto> File (GraphDefPb g))"
      by (simp_all add: freeze_graph_def Let_def log_event_def print_line_def)
  next
    fix err assume "freeze_tool e (fs w) ?args = Inl err"
    then show "snd (freeze_graph e d w) = Inl err" and "fs (fst (freeze_graph e d w)) = fs w"
      by (simp_all add: freeze_graph_def Let_def log_event_def)
  qed
qed

text \<open>The theorem at the small disk.\<close>

theorem freeze_graph_witness:
  "freeze_tool demo_env (fs disk_world)
      \<lparr>input_saved_model_dir = ''/m'', output_graph = ''/m/freezed_model.pb'',
       saved_model_tags = ''serve'', output_node_names = ''softmax/Softmax'', initializer_nodes = [],
       input_graph = None, input_saver = False, input_binary = False,
       input_checkpoint = None, restore_op_name = None,
       filename_tensor_name = None, clear_devices = False, input_meta_graph = False\<rparr> = Inr demo_graph
   \<and> trace (fst (freeze_graph demo_env ''/m'' disk_world)) =
       [FreezeGraphCall
         \<lparr>input_saved_model_dir = ''/m'', output_graph = ''/m/freezed_model.pb'',
          saved_model_tags = ''serve'', output_node_names = ''softmax/Softmax'', initializer_nodes = [],
          input_graph = None, input_saver = False, input_binary = False,
          input_checkpoint = None, restore_op_name = None,
          filename_tensor_name = None, clear_devices = False, input_meta_graph = False\<rparr>]
   \<and> snd (freeze_graph demo_env ''/m'' disk_world) = Inr ()
   \<and> fs (fst (freeze_graph demo_env ''/m'' disk_world)) ''/m/freezed_model.pb'' = Some (File (GraphDefPb demo_graph))"
proof -
  let ?a = "\<lparr>input_saved_model_dir = ''/m'', output_graph = ''/m/freezed_model.pb'',
       saved_model_tags = ''serve'', output_node_names = ''softmax/Softmax'', initializer_nodes = [],
       input_graph = None, input_saver = False, input_binary = False,
       input_checkpoint = None, restore_op_name = None,
       filename_tensor_name = None, clear_devices = False, input_meta_graph = False\<rparr>"
  have h: "freeze_tool demo_env (fs disk_world) ?a = Inr demo_graph"
    by (simp add: demo_env_def)
  have j: "os_path_join ''/m'' ''freezed_model.pb'' = ''/m/freezed_model.pb''"
    by (simp add: os_path_join_def)
  from freeze_graph_fixed_arguments[of demo_env "''/m''" disk_world]
  obtain args where t: "trace (fst (freeze_graph demo_env ''/m'' disk_world)) = trace disk_world @ [FreezeGraphCall args]"
    and n: "output_node_names args = ''softmax/Softmax''"
    and g: "\<forall>g. freeze_tool demo_env (fs disk_world) args = Inr g \<longrightarrow>
          snd (freeze_graph demo_env ''/m'' disk_world) = Inr ()
        \<and> fs (fst (freeze_graph demo_env ''/m'' disk_world)) =
            (fs disk_world)(os_path_join ''/m'' ''freezed_model.pb'' \<mapsto> File (GraphDefPb g))"
    by blast
  have t': "trace (fst (freeze_graph demo_env ''/m'' disk_world)) = [FreezeGraphCall ?a]"
    by code_simp
  from t t' have "args = ?a" by (simp add: disk_world_def)
  with g h have "snd (freeze_graph demo_env ''/m'' disk_world) = Inr ()"
    and "fs (fst (freeze_graph demo_env ''/m'' disk_world)) =
            (fs disk_world)(os_path_join ''/m'' ''freezed_model.pb'' \<mapsto> File (GraphDefPb demo_graph))"
    by blast+
  with h t' j show ?thesis by simp
qed

subsection \<open>Graph optimisation\<close>

lemma get_graph_def_from_file_fst:
  "fst (get_graph_def_from_file p w) = log_event (ReadGraphFile p) w"
  by (simp add: get_graph_def_from_file_def)

lemma get_graph_def_from_file_Inr:
  "snd (get_graph_def_from_file p w) = Inr g \<longleftrightarrow> fs w p = Some (File (GraphDefPb g))"
  by (auto simp: get_graph_def_from_file_def split: option.splits entry.splits content.splits)

lemma recursive_create_dir_keeps:
  "recursive_create_dir p f = Inr f' \<Longrightarrow> f q \<noteq> None \<Longrightarrow> f' q = f q"
  by (auto simp: recursive_create_dir_def split: if_splits)

lemma write_graph_trace:
  "trace (fst (write_graph g logdir nm t w)) = trace w @ [WriteGraph g logdir nm t]"
  by (auto simp: write_graph_def Let_def log_event_def split: sum.splits if_splits)

lemma write_graph_frame:
  assumes "q \<noteq> os_path_join logdir nm" "fs w q \<noteq> None"
  shows "fs (fst (write_graph g logdir nm t w)) q = fs w q"
proof (cases "if fs w logdir = None then recursive_create_dir logdir (fs w) else Inr (fs w)")
  case (Inl err)
  then show ?thesis by (simp add: write_graph_def Let_def log_event_def)
next
  case (Inr f)
  have "f q = fs w q"
  proof (cases "fs w logdir = None")
    case True
    with Inr have "recursive_create_dir logdir (fs w) = Inr f" by simp
    from recursive_create_dir_keeps[OF this assms(2)] show ?thesis .
  next
    case False
    with Inr show ?thesis by auto
  qed
  with Inr assms(1) show ?thesis
    by (simp add: write_graph_def Let_def log_event_def)
qed

lemma write_graph_Inr:
  assumes "snd (write_graph g logdir nm t w) = Inr p"
  shows "p = os_path_join logdir nm
       \<and> fs (fst (write_graph g logdir nm t w)) p = Some (File (if t then GraphDefText g else GraphDefPb g))"
proof (cases "if fs w logdir = None then recursive_create_dir logdir (fs w) else Inr (fs w)")
  case (Inl err)
  with assms show ?thesis by (simp add: write_graph_def Let_def)
next
  case (Inr f)
  with assms show ?thesis
    by (simp add: write_graph_def Let_def log_event_def split: if_splits)
qed

lemma optimize_graph_unreadable:
  assumes "\<forall>g. fs w (os_path_join mdir graph_filename) \<noteq> Some (File (GraphDefPb g))"
  shows "\<exists>err. optimize_graph e mdir graph_filename passes w
       = (log_event (ReadGraphFile (os_path_join mdir graph_filename)) w, Inl err)"
proof -
  let ?p = "os_path_join mdir graph_filename"
  obtain w1 r1 where g: "get_graph_def_from_file ?p w = (w1, r1)"
    by (cases "get_graph_def_from_file ?p w")
  then have w1: "w1 = log_event (ReadGraphFile ?p) w"
    using get_graph_def_from_file_fst[of ?p w] by simp
  from g assms get_graph_def_from_file_Inr[of ?p w] obtain err where "r1 = Inl err"
    by (cases r1) auto
  with g w1 show ?thesis by (simp add: optimize_graph_def)
qed

lemma optimize_graph_readable:
  assumes "fs w (os_path_join mdir graph_filename) = Some (File (GraphDefPb g))"
  shows "optimize_graph e mdir graph_filename passes w =
     (let w2 = log_event (TransformGraphCall g [] [''softmax/Softmax''] passes)
                 (log_event (ReadGraphFile (os_path_join mdir graph_filename)) w)
      in case TransformGraph e g [] [''softmax/Softmax''] passes of
           Inl err \<Rightarrow> (w2, Inl err)
         | Inr g' \<Rightarrow>
             (case write_graph g' mdir ''optimised_model.pb'' False w2 of
                (w3, Inl err) \<Rightarrow> (w3, Inl err)
              | (w3, Inr written) \<Rightarrow> (print_line (Text ''Freezed graph optimised!'') w3, Inr ())))"
proof -
  let ?p = "os_path_join mdir graph_filename"
  have "get_graph_def_from_file ?p w = (log_event (ReadGraphFile ?p) w, Inr g)"
    using assms get_graph_def_from_file_fst[of ?p w] get_graph_def_from_file_Inr[of ?p w g]
    by (simp add: prod_eq_iff)
  then show ?thesis by (simp add: optimize_graph_def Let_def)
qed

text \<open>
  C1, as the code has it: \<open>optimize_graph\<close> hands the graph-transform tool exactly the
  list of passes that its caller gives as the argument \<^verbatim>\<open>transforms\<close>, in one call,
  with the input names \<^verbatim>\<open>[]\<close> and the output names \<^verbatim>\<open>['softmax/Softmax']\<close> that the
  function fixes (and it makes no call when the graph file cannot be read). The list is
  fixed only in the notebook's one call of the function, which passes the nine
  hardcoded names.
\<close>

theorem optimize_graph_hands_callers_passes:
  "(\<forall>g. fs w (os_path_join mdir graph_filename) = Some (File (GraphDefPb g)) \<longrightarrow>
      (\<exists>rest. trace (fst (optimize_graph e mdir graph_filename passes w))
                 = trace w @ ReadGraphFile (os_path_join mdir graph_filename)
                     # TransformGraphCall g [] [''softmax/Softmax''] passes # rest
             \<and> (\<forall>g' ins outs ps. TransformGraphCall g' ins outs ps \<notin> set rest)))
   \<and> ((\<forall>g. fs w (os_path_join mdir graph_filename) \<noteq> Some (File (GraphDefPb g))) \<longrightarrow>
        trace (fst (optimize_graph e mdir graph_filename passes w))
          = trace w @ [ReadGraphFile (os_path_join mdir graph_filename)])
   \<and> optimize_cell e d w =
       optimize_graph e d ''freezed_model.pb''
         [''remove_nodes(op=Identity)'', ''fold_constants(ignore_errors=true)'',
          ''fold_batch_norms'', ''fuse_resize_pad_and_conv'', ''quantize_weights'',
          ''quantize_nodes'', ''merge_duplicate_nodes'', ''strip_unused_nodes'',
          ''sort_by_execution_order''] w"
proof (intro conjI allI impI)
  fix g assume r: "fs w (os_path_join mdir graph_filename) = Some (File (GraphDefPb g))"
  let ?p = "os_path_join mdir graph_filename"
  let ?w2 = "log_event (TransformGraphCall g [] [''softmax/Softmax''] passes) (log_event (ReadGraphFile ?p) w)"
  have t2: "trace ?w2 = trace w @ [ReadGraphFile ?p, TransformGraphCall g [] [''softmax/Softmax''] passes]"
    by (simp add: log_event_def)
  show "\<exists>rest. trace (fst (optimize_graph e mdir graph_filename passes w))
                 = trace w @ ReadGraphFile ?p # TransformGraphCall g [] [''softmax/Softmax''] passes # rest
             \<and> (\<forall>g' ins outs ps. TransformGraphCall g' ins outs ps \<notin> set rest)"
  proof (cases "TransformGraph e g [] [''softmax/Softmax''] passes")
    case (Inl err)
    with optimize_graph_readable[OF r, of e passes] t2
    have "trace (fst (optimize_graph e mdir graph_filename passes w))
            = trace w @ ReadGraphFile ?p # TransformGraphCall g [] [''softmax/Softmax''] passes # []"
      by (simp add: Let_def)
    then show ?thesis by (intro exI[of _ "[]"]) simp
  next
    case (Inr g')
    obtain w3 r3 where wg: "write_graph g' mdir ''optimised_model.pb'' False ?w2 = (w3, r3)"
      by (cases "write_graph g' mdir ''optimised_model.pb'' False ?w2")
    from write_graph_trace[of g' mdir "''optimised_model.pb''" False ?w2] wg t2
    have t3: "trace w3 = trace w @ [ReadGraphFile ?p, TransformGraphCall g [] [''softmax/Softmax''] passes,
                 WriteGraph g' mdir ''optimised_model.pb'' False]"
      by simp
    from optimize_graph_readable[OF r, of e passes] Inr wg t3
    have "trace (fst (optimize_graph e mdir graph_filename passes w))
            = trace w @ ReadGraphFile ?p # TransformGraphCall g [] [''softmax/Softmax''] passes
                # [WriteGraph g' mdir ''optimised_model.pb'' False]"
      by (cases r3) (simp_all add: Let_def print_line_def)
    then show ?thesis by (intro exI[of _ "[WriteGraph g' mdir ''optimised_model.pb'' False]"]) simp
  qed
next
  assume "\<forall>g. fs w (os_path_join mdir graph_filename) \<noteq> Some (File (GraphDefPb g))"
  from optimize_graph_unreadable[OF this, of e passes]
  show "trace (fst (optimize_graph e mdir graph_filename passes w))
          = trace w @ [ReadGraphFile (os_path_join mdir graph_filename)]"
    by (auto simp: log_event_def)
next
  show "optimize_cell e d w =
       optimize_graph e d ''freezed_model.pb''
         [''remove_nodes(op=Identity)'', ''fold_constants(ignore_errors=true)'',
          ''fold_batch_norms'', ''fuse_resize_pad_and_conv'', ''quantize_weights'',
          ''quantize_nodes'', ''merge_duplicate_nodes'', ''strip_unused_nodes'',
          ''sort_by_execution_order''] w"
    by (simp add: optimize_cell_def transforms_def)
qed

text \<open>
  C1 as stated fails: called with the single pass \<^verbatim>\<open>quantize_weights\<close>, the function
  hands the tool that list, which is not the notebook's list.
\<close>

theorem optimize_graph_passes_chosen_by_caller:
  "trace (fst (optimize_graph demo_env ''/m'' ''freezed_model.pb'' [''quantize_weights''] disk_world)) =
     [ReadGraphFile ''/m/freezed_model.pb'',
      TransformGraphCall demo_graph [] [''softmax/Softmax''] [''quantize_weights''],
      WriteGraph demo_graph ''/m'' ''optimised_model.pb'' False]
   \<and> [''quantize_weights''] \<noteq> transforms"
proof -
  have "trace (fst (optimize_graph demo_env ''/m'' ''freezed_model.pb'' [''quantize_weights''] disk_world)) =
     [ReadGraphFile ''/m/freezed_model.pb'',
      TransformGraphCall demo_graph [] [''softmax/Softmax''] [''quantize_weights''],
      WriteGraph demo_graph ''/m'' ''optimised_model.pb'' False]"
    by code_simp
  moreover have "[''quantize_weights''] \<noteq> transforms" by (simp add: transforms_def)
  ultimately show ?thesis by blast
qed

text \<open>
  The theorem at the small disk, for a graph file that is there and one that is not.
\<close>

theorem optimize_graph_passes_witness:
  "fs disk_world (os_path_join ''/m'' ''freezed_model.pb'') = Some (File (GraphDefPb demo_graph))
   \<and> (\<exists>rest. trace (fst (optimize_graph demo_env ''/m'' ''freezed_model.pb'' [''fold_batch_norms''] disk_world))
          = trace disk_world @ ReadGraphFile (os_path_join ''/m'' ''freezed_model.pb'')
              # TransformGraphCall demo_graph [] [''softmax/Softmax''] [''fold_batch_norms''] # rest
        \<and> (\<forall>g' ins outs ps. TransformGraphCall g' ins outs ps \<notin> set rest))
   \<and> (\<forall>g. fs disk_world (os_path_join ''/m'' ''missing.pb'') \<noteq> Some (File (GraphDefPb g)))
   \<and> trace (fst (optimize_graph demo_env ''/m'' ''missing.pb'' [''fold_batch_norms''] disk_world))
        = trace disk_world @ [ReadGraphFile (os_path_join ''/m'' ''missing.pb'')]"
proof -
  have h1: "fs disk_world (os_path_join ''/m'' ''freezed_model.pb'') = Some (File (GraphDefPb demo_graph))"
    by (simp add: disk_world_def os_path_join_def)
  have h2: "\<forall>g. fs disk_world (os_path_join ''/m'' ''missing.pb'') \<noteq> Some (File (GraphDefPb g))"
    by (simp add: disk_world_def os_path_join_def)
  note t = optimize_graph_hands_callers_passes[of disk_world "''/m''" _ demo_env "[''fold_batch_norms'']"]
  from t[of "''freezed_model.pb''", THEN conjunct1, THEN spec, THEN mp, OF h1]
  have c1: "\<exists>rest. trace (fst (optimize_graph demo_env ''/m'' ''freezed_model.pb'' [''fold_batch_norms''] disk_world))
          = trace disk_world @ ReadGraphFile (os_path_join ''/m'' ''freezed_model.pb'')
              # TransformGraphCall demo_graph [] [''softmax/Softmax''] [''fold_batch_norms''] # rest
        \<and> (\<forall>g' ins outs ps. TransformGraphCall g' ins outs ps \<notin> set rest)" .
  from t[of "''missing.pb''", THEN conjunct2, THEN conjunct1, THEN mp, OF h2]
  have c2: "trace (fst (optimize_graph demo_env ''/m'' ''missing.pb'' [''fold_batch_norms''] disk_world))
        = trace disk_world @ [ReadGraphFile (os_path_join ''/m'' ''missing.pb'')]" .
  from h1 c1 h2 c2 show ?thesis by blast
qed

lemma optimize_graph_frame:
  assumes "os_path_join mdir graph_filename \<noteq> os_path_join mdir ''optimised_model.pb''"
  shows "fs (fst (optimize_graph e mdir graph_filename passes w)) (os_path_join mdir graph_filename)
           = fs w (os_path_join mdir graph_filename)"
proof (cases "\<exists>g. fs w (os_path_join mdir graph_filename) = Some (File (GraphDefPb g))")
  case False
  then have "\<forall>g. fs w (os_path_join mdir graph_filename) \<noteq> Some (File (GraphDefPb g))" by simp
  from optimize_graph_unreadable[OF this, of e passes] show ?thesis
    by (auto simp: log_event_def)
next
  case True
  then obtain g where r: "fs w (os_path_join mdir graph_filename) = Some (File (GraphDefPb g))" ..
  let ?p = "os_path_join mdir graph_filename"
  let ?w2 = "log_event (TransformGraphCall g [] [''softmax/Softmax''] passes) (log_event (ReadGraphFile ?p) w)"
  have f2: "fs ?w2 = fs w" by (simp add: log_event_def)
  show ?thesis
  proof (cases "TransformGraph e g [] [''softmax/Softmax''] passes")
    case (Inl err)
    with optimize_graph_readable[OF r, of e passes] f2 show ?thesis by (simp add: Let_def)
  next
    case (Inr g')
    obtain w3 r3 where wg: "write_graph g' mdir ''optimised_model.pb'' False ?w2 = (w3, r3)"
      by (cases "write_graph g' mdir ''optimised_model.pb'' False ?w2")
    have "fs ?w2 ?p \<noteq> None" using r f2 by simp
    from write_graph_frame[OF assms this, of g' False] wg f2
    have "fs w3 ?p = fs w ?p" by simp
    with optimize_graph_readable[OF r, of e passes] Inr wg show ?thesis
      by (cases r3) (simp_all add: Let_def print_line_def)
  qed
qed

lemma optimize_graph_result:
  assumes "snd (optimize_graph e mdir graph_filename passes w) = Inr ()"
  shows "\<exists>g g'. fs w (os_path_join mdir graph_filename) = Some (File (GraphDefPb g))
           \<and> TransformGraph e g [] [''softmax/Softmax''] passes = Inr g'
           \<and> fs (fst (optimize_graph e mdir graph_filename passes w)) (os_path_join mdir ''optimised_model.pb'')
               = Some (File (GraphDefPb g'))"
proof -
  let ?p = "os_path_join mdir graph_filename"
  have "\<exists>g. fs w ?p = Some (File (GraphDefPb g))"
  proof (rule ccontr)
    assume "\<not> (\<exists>g. fs w ?p = Some (File (GraphDefPb g)))"
    then have "\<forall>g. fs w ?p \<noteq> Some (File (GraphDefPb g))" by simp
    from optimize_graph_unreadable[OF this, of e passes] assms show False by auto
  qed
  then obtain g where r: "fs w ?p = Some (File (GraphDefPb g))" ..
  let ?w2 = "log_event (TransformGraphCall g [] [''softmax/Softmax''] passes) (log_event (ReadGraphFile ?p) w)"
  from optimize_graph_readable[OF r, of e passes] assms
  obtain g' where tg: "TransformGraph e g [] [''softmax/Softmax''] passes = Inr g'"
    by (cases "TransformGraph e g [] [''softmax/Softmax''] passes") (simp_all add: Let_def)
  obtain w3 r3 where wg: "write_graph g' mdir ''optimised_model.pb'' False ?w2 = (w3, r3)"
    by (cases "write_graph g' mdir ''optimised_model.pb'' False ?w2")
  from optimize_graph_readable[OF r, of e passes] assms tg wg
  obtain written where r3: "r3 = Inr written"
    by (cases r3) (simp_all add: Let_def)
  from write_graph_Inr[of g' mdir "''optimised_model.pb''" False ?w2 written] wg r3
  have "fs w3 (os_path_join mdir ''optimised_model.pb'') = Some (File (GraphDefPb g'))" by auto
  with optimize_graph_readable[OF r, of e passes] tg wg r3
  have "fs (fst (optimize_graph e mdir graph_filename passes w)) (os_path_join mdir ''optimised_model.pb'')
               = Some (File (GraphDefPb g'))"
    by (simp add: Let_def print_line_def)
  with r tg show ?thesis by blast
qed

text \<open>
  C10, as the code has it: \<open>optimize_graph\<close> leaves the graph file it reads as it was
  whenever that file is another file than \<^verbatim>\<open>optimised_model.pb\<close> of the model
  directory, whether the call returns or raises: the two joined paths are normal
  absolute paths (no empty component, no \<^verbatim>\<open>.\<close> and no \<^verbatim>\<open>..\<close>) and differ, so that
  they name two files (of a file system that tells upper from lower case and has no
  links). When the call returns, \<^verbatim>\<open>optimised_model.pb\<close> in
  the model directory holds the transformed graph. In the notebook's call the input is
  \<^verbatim>\<open>freezed_model.pb\<close>, which is never that file and so is never changed.
\<close>

theorem optimize_graph_keeps_other_input:
  "(normal_abs (os_path_join mdir graph_filename)
      \<and> normal_abs (os_path_join mdir ''optimised_model.pb'')
      \<and> os_path_join mdir graph_filename \<noteq> os_path_join mdir ''optimised_model.pb'' \<longrightarrow>
      fs (fst (optimize_graph e mdir graph_filename passes w)) (os_path_join mdir graph_filename)
        = fs w (os_path_join mdir graph_filename))
   \<and> (snd (optimize_graph e mdir graph_filename passes w) = Inr () \<longrightarrow>
        (\<exists>g g'. fs w (os_path_join mdir graph_filename) = Some (File (GraphDefPb g))
           \<and> TransformGraph e g [] [''softmax/Softmax''] passes = Inr g'
           \<and> fs (fst (optimize_graph e mdir graph_filename passes w)) (os_path_join mdir ''optimised_model.pb'')
               = Some (File (GraphDefPb g'))))
   \<and> fs (fst (optimize_cell e d w)) (os_path_join d ''freezed_model.pb'')
        = fs w (os_path_join d ''freezed_model.pb'')"
proof (intro conjI impI)
  assume "normal_abs (os_path_join mdir graph_filename)
      \<and> normal_abs (os_path_join mdir ''optimised_model.pb'')
      \<and> os_path_join mdir graph_filename \<noteq> os_path_join mdir ''optimised_model.pb''"
  then have "os_path_join mdir graph_filename \<noteq> os_path_join mdir ''optimised_model.pb''" by simp
  then show "fs (fst (optimize_graph e mdir graph_filename passes w)) (os_path_join mdir graph_filename)
        = fs w (os_path_join mdir graph_filename)"
    by (rule optimize_graph_frame)
next
  assume "snd (optimize_graph e mdir graph_filename passes w) = Inr ()"
  then show "\<exists>g g'. fs w (os_path_join mdir graph_filename) = Some (File (GraphDefPb g))
           \<and> TransformGraph e g [] [''softmax/Softmax''] passes = Inr g'
           \<and> fs (fst (optimize_graph e mdir graph_filename passes w)) (os_path_join mdir ''optimised_model.pb'')
               = Some (File (GraphDefPb g'))"
    by (rule optimize_graph_result)
next
  have "os_path_join d ''freezed_model.pb'' \<noteq> os_path_join d ''optimised_model.pb''"
    by (rule os_path_join_inject) simp_all
  then show "fs (fst (optimize_cell e d w)) (os_path_join d ''freezed_model.pb'')
        = fs w (os_path_join d ''freezed_model.pb'')"
    unfolding optimize_cell_def by (rule optimize_graph_frame)
qed

text \<open>
  C10 as stated fails: when the graph file named is \<^verbatim>\<open>optimised_model.pb\<close>, the
  input is the file the result is written to, and its contents change.
\<close>

theorem optimize_graph_overwrites_input:
  "os_path_join ''/m'' ''optimised_model.pb'' = ''/m/optimised_model.pb''
   \<and> normal_abs ''/m/optimised_model.pb''
   \<and> snd (optimize_graph demo_env ''/m'' ''optimised_model.pb'' transforms disk_world) = Inr ()
   \<and> fs disk_world ''/m/optimised_model.pb'' = Some (File (GraphDefPb demo_graph))
   \<and> fs (fst (optimize_graph demo_env ''/m'' ''optimised_model.pb'' transforms disk_world)) ''/m/optimised_model.pb''
       = Some (File (GraphDefPb
           [\<lparr>name = ''serving_input_image'', op = ''Placeholder''\<rparr>,
            \<lparr>name = ''softmax/Softmax'', op = ''Softmax''\<rparr>]))
   \<and> fs (fst (optimize_graph demo_env ''/m'' ''optimised_model.pb'' transforms disk_world)) ''/m/optimised_model.pb''
       \<noteq> fs disk_world ''/m/optimised_model.pb''"
proof -
  let ?r = "optimize_graph demo_env ''/m'' ''optimised_model.pb'' transforms disk_world"
  have a: "os_path_join ''/m'' ''optimised_model.pb'' = ''/m/optimised_model.pb''"
    by (simp add: os_path_join_def)
  have b: "snd ?r = Inr ()" by code_simp
  have c: "fs disk_world ''/m/optimised_model.pb'' = Some (File (GraphDefPb demo_graph))"
    by (simp add: disk_world_def)
  have d: "fs (fst ?r) ''/m/optimised_model.pb''
       = Some (File (GraphDefPb
           [\<lparr>name = ''serving_input_image'', op = ''Placeholder''\<rparr>,
            \<lparr>name = ''softmax/Softmax'', op = ''Softmax''\<rparr>]))"
    by code_simp
  have e: "fs (fst ?r) ''/m/optimised_model.pb'' \<noteq> fs disk_world ''/m/optimised_model.pb''"
    unfolding c d by (simp add: demo_graph_def)
  have n: "normal_abs ''/m/optimised_model.pb''" by code_simp
  from a n b c d e show ?thesis by blast
qed

text \<open>
  The theorem at the small disk and the notebook's own arguments.
\<close>

theorem optimize_graph_keeps_witness:
  "normal_abs (os_path_join ''/m'' ''freezed_model.pb'')
   \<and> normal_abs (os_path_join ''/m'' ''optimised_model.pb'')
   \<and> os_path_join ''/m'' ''freezed_model.pb'' \<noteq> os_path_join ''/m'' ''optimised_model.pb''
   \<and> snd (optimize_graph demo_env ''/m'' ''freezed_model.pb'' transforms disk_world) = Inr ()
   \<and> fs (fst (optimize_graph demo_env ''/m'' ''freezed_model.pb'' transforms disk_world))
        (os_path_join ''/m'' ''freezed_model.pb'') = Some (File (GraphDefPb demo_graph))
   \<and> (\<exists>g g'. fs disk_world (os_path_join ''/m'' ''freezed_model.pb'') = Some (File (GraphDefPb g))
           \<and> TransformGraph demo_env g [] [''softmax/Softmax''] transforms = Inr g'
           \<and> fs (fst (optimize_graph demo_env ''/m'' ''freezed_model.pb'' transforms disk_world))
                (os_path_join ''/m'' ''optimised_model.pb'') = Some (File (GraphDefPb g')))"
proof -
  let ?r = "optimize_graph demo_env ''/m'' ''freezed_model.pb'' transforms disk_world"
  have h1: "normal_abs (os_path_join ''/m'' ''freezed_model.pb'')
      \<and> normal_abs (os_path_join ''/m'' ''optimised_model.pb'')
      \<and> os_path_join ''/m'' ''freezed_model.pb'' \<noteq> os_path_join ''/m'' ''optimised_model.pb''"
    by code_simp
  have h2: "snd ?r = Inr ()" by code_simp
  have i: "fs disk_world (os_path_join ''/m'' ''freezed_model.pb'') = Some (File (GraphDefPb demo_graph))"
    by (simp add: disk_world_def os_path_join_def)
  note t = optimize_graph_keeps_other_input[of "''/m''" "''freezed_model.pb''" demo_env transforms disk_world]
  from t[THEN conjunct1, THEN mp, OF h1] i
  have c1: "fs (fst ?r) (os_path_join ''/m'' ''freezed_model.pb'') = Some (File (GraphDefPb demo_graph))"
    by simp
  from t[THEN conjunct2, THEN conjunct1, THEN mp, OF h2]
  have c2: "\<exists>g g'. fs disk_world (os_path_join ''/m'' ''freezed_model.pb'') = Some (File (GraphDefPb g))
           \<and> TransformGraph demo_env g [] [''softmax/Softmax''] transforms = Inr g'
           \<and> fs (fst ?r) (os_path_join ''/m'' ''optimised_model.pb'') = Some (File (GraphDefPb g'))" .
  from h1 h2 c1 c2 show ?thesis by blast
qed

subsection \<open>Writing a directory\<close>

lemma check_then_delete:
  assumes "gfile_Exists d w = (w1, ex)"
  shows "(if ex then gfile_DeleteRecursively d w1 else (w1, Inr ())) = (checked_and_cleared d w, Inr ())"
proof (cases "fs w d = None")
  case True
  with assms show ?thesis
    by (auto simp: gfile_Exists_def log_event_def checked_and_cleared_def)
next
  case False
  with assms show ?thesis
    by (auto simp: gfile_Exists_def gfile_DeleteRecursively_def log_event_def checked_and_cleared_def
             cong: if_cong)
qed

lemma cleared_gone: "fs w d \<noteq> None \<Longrightarrow> is_under d p \<Longrightarrow> fs (checked_and_cleared d w) p = None"
  by (simp add: checked_and_cleared_def)

lemma cleared_target: "fs (checked_and_cleared d w) d = None"
  by (simp add: checked_and_cleared_def is_under_def)

lemma cleared_elsewhere: "\<not> is_under d p \<Longrightarrow> fs (checked_and_cleared d w) p = fs w p"
  by (simp add: checked_and_cleared_def)

lemma cleared_Some: "fs (checked_and_cleared d w) p = Some x \<Longrightarrow> fs w p = Some x"
  by (simp add: checked_and_cleared_def split: if_splits)


lemma get_tensor_by_name_Inr: "get_tensor_by_name ts t = Inr t' \<Longrightarrow> t' = t \<and> t \<in> set ts"
  by (auto simp: get_tensor_by_name_def split: if_splits)

lemma get_tensor_by_name_Inl: "get_tensor_by_name ts t = Inl err \<Longrightarrow> err \<noteq> AssertionError"
  by (auto simp: get_tensor_by_name_def split: if_splits)

lemma get_softmax_tensor:
  "get_tensor_by_name ts ''softmax/Softmax:0'' =
     (if ''softmax/Softmax:0'' \<in> set ts then Inr ''softmax/Softmax:0'' else Inl KeyError)"
  by (simp add: get_tensor_by_name_def)

lemma tensor_inputs_Inr:
  "map_result (\<lambda>node. case get_tensor_by_name ts (name node @ '':0'') of
                  Inl err \<Rightarrow> Inl err | Inr t \<Rightarrow> Inr (name node, t)) ns = Inr ins \<Longrightarrow>
   ins = map (\<lambda>n. (name n, name n @ '':0'')) ns \<and> (\<forall>n\<in>set ns. name n @ '':0'' \<in> set ts)"
proof (induction ns arbitrary: ins)
  case Nil
  then show ?case by simp
next
  case (Cons n ns)
  from Cons.prems obtain t ins' where
    t: "get_tensor_by_name ts (name n @ '':0'') = Inr t"
    and r: "map_result (\<lambda>node. case get_tensor_by_name ts (name node @ '':0'') of
                  Inl err \<Rightarrow> Inl err | Inr t \<Rightarrow> Inr (name node, t)) ns = Inr ins'"
    and i: "ins = (name n, t) # ins'"
    by (auto split: sum.splits)
  from get_tensor_by_name_Inr[OF t] Cons.IH[OF r] i show ?case by simp
qed

lemma tensor_inputs_Inl:
  "map_result (\<lambda>node. case get_tensor_by_name ts (name node @ '':0'') of
                  Inl err \<Rightarrow> Inl err | Inr t \<Rightarrow> Inr (name node, t)) ns = Inl err \<Longrightarrow>
   err \<noteq> AssertionError"
proof (induction ns)
  case Nil
  then show ?case by simp
next
  case (Cons n ns)
  then show ?case
    by (auto split: sum.splits dest: get_tensor_by_name_Inl)
qed


lemma placeholder_inputs_Inr:
  assumes "placeholder_inputs ts g = Inr ins"
  shows "ins = map (\<lambda>n. (name n, name n @ '':0'')) (filter (\<lambda>n. op n = ''Placeholder'') g)"
    and "\<forall>n\<in>set g. op n = ''Placeholder'' \<longrightarrow> name n @ '':0'' \<in> set ts"
  using tensor_inputs_Inr[of ts "filter (\<lambda>n. op n = ''Placeholder'') g" ins] assms
  by (simp_all add: placeholder_inputs_def)

lemma placeholder_inputs_Inl: "placeholder_inputs ts g = Inl err \<Longrightarrow> err \<noteq> AssertionError"
  unfolding placeholder_inputs_def by (rule tensor_inputs_Inl)


text \<open>The conversion, after the check: one equation per way through the function.\<close>

lemma convert_unreadable:
  assumes "\<forall>g. fs (checked_and_cleared d w) gp \<noteq> Some (File (GraphDefPb g))"
  shows "\<exists>err. convert_graph_def_to_saved_model e gp d w
            = (log_event (ReadGraphFile gp) (checked_and_cleared d w), Inl err)
          \<and> err \<noteq> AssertionError"
proof -
  let ?c = "checked_and_cleared d w"
  obtain w3 r3 where g: "get_graph_def_from_file gp ?c = (w3, r3)"
    by (cases "get_graph_def_from_file gp ?c")
  then have w3: "w3 = log_event (ReadGraphFile gp) ?c"
    using get_graph_def_from_file_fst[of gp ?c] by simp
  from g assms get_graph_def_from_file_Inr[of gp ?c] obtain err where "r3 = Inl err"
    by (cases r3) auto
  from g \<open>r3 = Inl err\<close> have ne: "err \<noteq> AssertionError"
    by (auto simp: get_graph_def_from_file_def split: option.splits entry.splits content.splits)
  obtain w1 ex where e: "gfile_Exists d w = (w1, ex)" by (cases "gfile_Exists d w")
  from g w3 \<open>r3 = Inl err\<close> e check_then_delete[OF e] ne show ?thesis
    by (simp add: convert_graph_def_to_saved_model_def)
qed

lemma convert_readable:
  assumes "fs (checked_and_cleared d w) gp = Some (File (GraphDefPb g))"
  shows "convert_graph_def_to_saved_model e gp d w =
     (let w3 = log_event (ReadGraphFile gp) (checked_and_cleared d w)
      in case import_graph_def e g of
           Inl err \<Rightarrow> (w3, Inl err)
         | Inr tensors \<Rightarrow>
             (case placeholder_inputs tensors g of
                Inl err \<Rightarrow> (w3, Inl err)
              | Inr inputs \<Rightarrow>
                  (case get_tensor_by_name tensors ''softmax/Softmax:0'' of
                     Inl err \<Rightarrow> (w3, Inl err)
                   | Inr t \<Rightarrow>
                       (case simple_save g d inputs [(''softmax'', t)] w3 of
                          (w4, Inl err) \<Rightarrow> (w4, Inl err)
                        | (w4, Inr u) \<Rightarrow>
                            (print_line (Text ''Optimised graph converted to SavedModel!'') w4, Inr ())))))"
proof -
  let ?c = "checked_and_cleared d w"
  have "get_graph_def_from_file gp ?c = (log_event (ReadGraphFile gp) ?c, Inr g)"
    using assms get_graph_def_from_file_fst[of gp ?c] get_graph_def_from_file_Inr[of gp ?c g]
    by (simp add: prod_eq_iff)
  moreover obtain w1 ex where e: "gfile_Exists d w = (w1, ex)" by (cases "gfile_Exists d w")
  ultimately show ?thesis
    using check_then_delete[OF e]
    by (simp add: convert_graph_def_to_saved_model_def Let_def)
qed

lemma import_graph_def_Inl: "import_graph_def e g = Inl err \<Longrightarrow> err = ValueError"
  by (auto simp: import_graph_def_def split: if_splits option.splits)



lemma ancestors_under_self:
  assumes "q \<in> set (ancestors d)" "is_under d q"
  shows "q = d"
proof (rule ccontr)
  assume ne: "q \<noteq> d"
  with assms(2) have "prefix (d @ ''/'') q" by (simp add: is_under_def)
  then have "length d < length q" by (auto simp: prefix_def)
  moreover from assms(1) have "length q \<le> length d" by (auto simp: ancestors_def)
  ultimately show False by simp
qed

lemma recursive_create_dir_changes:
  "recursive_create_dir p f = Inr f' \<Longrightarrow> f' q \<noteq> f q \<Longrightarrow> q \<in> set (ancestors p) \<and> f q = None \<and> f' q = Some Dir"
  by (auto simp: recursive_create_dir_def split: if_splits)

lemma recursive_create_dir_error:
  "recursive_create_dir p f = Inl err \<Longrightarrow> err = FailedPreconditionError"
  by (auto simp: recursive_create_dir_def split: if_splits)

lemma pb_not_variables: "os_path_join d ''saved_model.pb'' \<noteq> os_path_join d ''variables''"
  by (rule os_path_join_inject) simp_all

lemma simple_save_trace:
  "trace (fst (simple_save g d ins outs w)) = trace w @ [SimpleSave d ins outs]"
  by (auto simp: simple_save_def Let_def log_event_def split: sum.splits)

lemma simple_save_no_assertion:
  assumes "fs w d = None"
  shows "snd (simple_save g d ins outs w) \<noteq> Inl AssertionError"
proof (cases "recursive_create_dir d (fs w)")
  case (Inl err)
  with recursive_create_dir_error[OF Inl] assms show ?thesis
    by (simp add: simple_save_def Let_def)
next
  case (Inr f)
  with assms show ?thesis by (simp add: simple_save_def Let_def)
qed

lemma simple_save_changes:
  assumes "fs (fst (simple_save g d ins outs w)) p \<noteq> fs w p"
  shows "snd (simple_save g d ins outs w) = Inr ()
       \<and> (p \<in> set (ancestors d) \<or> p = os_path_join d ''saved_model.pb'' \<or> p = os_path_join d ''variables'')"
proof (cases "fs w d = None")
  case False
  with assms show ?thesis by (simp add: simple_save_def Let_def log_event_def)
next
  case True
  show ?thesis
  proof (cases "recursive_create_dir d (fs w)")
    case (Inl err)
    with True assms show ?thesis by (simp add: simple_save_def Let_def log_event_def)
  next
    case (Inr f)
    with True have s: "snd (simple_save g d ins outs w) = Inr ()"
      and f: "fs (fst (simple_save g d ins outs w)) =
          f(os_path_join d ''saved_model.pb'' \<mapsto>
               File (SavedModelPb \<lparr>sm_graph = g, sm_inputs = ins, sm_outputs = outs\<rparr>),
            os_path_join d ''variables'' \<mapsto> Dir)"
      by (simp_all add: simple_save_def Let_def log_event_def)
    show ?thesis
    proof (cases "p = os_path_join d ''saved_model.pb'' \<or> p = os_path_join d ''variables''")
      case True
      with s show ?thesis by blast
    next
      case False
      with f assms have "f p \<noteq> fs w p" by simp
      from recursive_create_dir_changes[OF Inr this] s show ?thesis by simp
    qed
  qed
qed

lemma simple_save_Inr:
  assumes "snd (simple_save g d ins outs w) = Inr ()"
  shows "fs (fst (simple_save g d ins outs w)) (os_path_join d ''saved_model.pb'')
           = Some (File (SavedModelPb \<lparr>sm_graph = g, sm_inputs = ins, sm_outputs = outs\<rparr>))"
proof (cases "fs w d = None")
  case False
  with assms show ?thesis by (simp add: simple_save_def Let_def)
next
  case True
  show ?thesis
  proof (cases "recursive_create_dir d (fs w)")
    case (Inl err)
    with True assms show ?thesis by (simp add: simple_save_def Let_def)
  next
    case (Inr f)
    with True pb_not_variables[of d] show ?thesis
      by (simp add: simple_save_def Let_def log_event_def)
  qed
qed

text \<open>What a conversion leaves: the cases of \<open>convert_readable\<close> and \<open>convert_unreadable\<close>.\<close>

lemma convert_cases:
  obtains (unreadable) err where
      "\<forall>g. fs (checked_and_cleared d w) gp \<noteq> Some (File (GraphDefPb g))"
      "convert_graph_def_to_saved_model e gp d w = (log_event (ReadGraphFile gp) (checked_and_cleared d w), Inl err)"
      "err \<noteq> AssertionError"
  | (refused) g err where
      "fs (checked_and_cleared d w) gp = Some (File (GraphDefPb g))"
      "convert_graph_def_to_saved_model e gp d w = (log_event (ReadGraphFile gp) (checked_and_cleared d w), Inl err)"
      "err \<noteq> AssertionError"
  | (saved) g w4 r4 where
      "fs (checked_and_cleared d w) gp = Some (File (GraphDefPb g))"
      "simple_save g d (map (\<lambda>n. (name n, name n @ '':0'')) (filter (\<lambda>n. op n = ''Placeholder'') g))
          [(''softmax'', ''softmax/Softmax:0'')] (log_event (ReadGraphFile gp) (checked_and_cleared d w)) = (w4, r4)"
      "convert_graph_def_to_saved_model e gp d w =
         (case r4 of Inl err \<Rightarrow> (w4, Inl err)
                   | Inr u \<Rightarrow> (print_line (Text ''Optimised graph converted to SavedModel!'') w4, Inr ()))"
proof (cases "\<exists>g. fs (checked_and_cleared d w) gp = Some (File (GraphDefPb g))")
  case False
  then have a: "\<forall>g. fs (checked_and_cleared d w) gp \<noteq> Some (File (GraphDefPb g))" by simp
  from convert_unreadable[OF a, of e] obtain err where
    "convert_graph_def_to_saved_model e gp d w = (log_event (ReadGraphFile gp) (checked_and_cleared d w), Inl err)"
    "err \<noteq> AssertionError" by blast
  with a show thesis by (rule unreadable)
next
  case True
  then obtain g where r: "fs (checked_and_cleared d w) gp = Some (File (GraphDefPb g))" ..
  let ?w3 = "log_event (ReadGraphFile gp) (checked_and_cleared d w)"
  let ?ins = "map (\<lambda>n. (name n, name n @ '':0'')) (filter (\<lambda>n. op n = ''Placeholder'') g)"
  show thesis
  proof (cases "import_graph_def e g")
    case (Inl err)
    with convert_readable[OF r, of e] have
      "convert_graph_def_to_saved_model e gp d w = (?w3, Inl err)"
      by (simp add: Let_def)
    moreover from import_graph_def_Inl[OF Inl] have "err \<noteq> AssertionError" by simp
    ultimately show thesis using r by (intro refused[of g err])
  next
    case Some: (Inr ts)
    show thesis
    proof (cases "placeholder_inputs ts g")
      case (Inl err)
      with convert_readable[OF r, of e] Some have
        "convert_graph_def_to_saved_model e gp d w = (?w3, Inl err)"
        by (simp add: Let_def)
      with r show thesis using placeholder_inputs_Inl[OF Inl] by (rule refused)
    next
      case (Inr ins)
      from placeholder_inputs_Inr(1)[OF Inr] have ins: "ins = ?ins" .
      show thesis
      proof (cases "''softmax/Softmax:0'' \<in> set ts")
        case False
        with convert_readable[OF r, of e] Some Inr have
          "convert_graph_def_to_saved_model e gp d w = (?w3, Inl KeyError)"
          by (simp add: Let_def get_softmax_tensor)
        with r show thesis by (rule refused) simp
      next
        case True
        obtain w4 r4 where s: "simple_save g d ?ins [(''softmax'', ''softmax/Softmax:0'')] ?w3 = (w4, r4)"
          by (cases "simple_save g d ?ins [(''softmax'', ''softmax/Softmax:0'')] ?w3")
        with convert_readable[OF r, of e] Some Inr ins True have
          "convert_graph_def_to_saved_model e gp d w =
             (case r4 of Inl err \<Rightarrow> (w4, Inl err)
                       | Inr u \<Rightarrow> (print_line (Text ''Optimised graph converted to SavedModel!'') w4, Inr ()))"
          by (simp add: Let_def get_softmax_tensor split: sum.splits)
        with r s show thesis by (rule saved)
      qed
    qed
  qed
qed

lemma cleared_trace:
  "trace (log_event (ReadGraphFile gp) (checked_and_cleared d w)) =
     trace w @ (if fs w d \<noteq> None then [GfileExists d, GfileDeleteRecursively d] else [GfileExists d])
       @ [ReadGraphFile gp]"
  by (simp add: log_event_def checked_and_cleared_def)

lemma convert_trace:
  "\<exists>rest. trace (fst (convert_graph_def_to_saved_model e gp d w)) =
       trace w @ (if fs w d \<noteq> None then [GfileExists d, GfileDeleteRecursively d] else [GfileExists d])
         @ ReadGraphFile gp # rest
     \<and> (rest = []
        \<or> (\<exists>g. fs w gp = Some (File (GraphDefPb g))
              \<and> rest = [SimpleSave d
                          (map (\<lambda>n. (name n, name n @ '':0'')) (filter (\<lambda>n. op n = ''Placeholder'') g))
                          [(''softmax'', ''softmax/Softmax:0'')]]))"
proof (cases rule: convert_cases[of d w gp e])
  case (unreadable err)
  then show ?thesis using cleared_trace[of gp d w] by (intro exI[of _ "[]"]) simp
next
  case (refused g err)
  then show ?thesis using cleared_trace[of gp d w] by (intro exI[of _ "[]"]) simp
next
  case (saved g w4 r4)
  let ?ins = "map (\<lambda>n. (name n, name n @ '':0'')) (filter (\<lambda>n. op n = ''Placeholder'') g)"
  let ?w3 = "log_event (ReadGraphFile gp) (checked_and_cleared d w)"
  from simple_save_trace[of g d ?ins "[(''softmax'', ''softmax/Softmax:0'')]" ?w3] saved(2)
  have "trace w4 = trace ?w3 @ [SimpleSave d ?ins [(''softmax'', ''softmax/Softmax:0'')]]" by simp
  with saved(3) have t: "trace (fst (convert_graph_def_to_saved_model e gp d w)) =
       trace ?w3 @ [SimpleSave d ?ins [(''softmax'', ''softmax/Softmax:0'')]]"
    by (cases r4) (simp_all add: print_line_def)
  from cleared_Some[OF saved(1)] have r: "fs w gp = Some (File (GraphDefPb g))" .
  show ?thesis
  proof (intro exI[of _ "[SimpleSave d ?ins [(''softmax'', ''softmax/Softmax:0'')]]"] conjI disjI2 exI[of _ g])
    show "trace (fst (convert_graph_def_to_saved_model e gp d w)) =
       trace w @ (if fs w d \<noteq> None then [GfileExists d, GfileDeleteRecursively d] else [GfileExists d])
         @ ReadGraphFile gp # [SimpleSave d ?ins [(''softmax'', ''softmax/Softmax:0'')]]"
      using t cleared_trace[of gp d w] by simp
    show "fs w gp = Some (File (GraphDefPb g))" by (rule r)
    show "[SimpleSave d ?ins [(''softmax'', ''softmax/Softmax:0'')]] = [SimpleSave d ?ins [(''softmax'', ''softmax/Softmax:0'')]]" ..
  qed
qed

lemma convert_no_assertion:
  "snd (convert_graph_def_to_saved_model e gp d w) \<noteq> Inl AssertionError"
proof (cases rule: convert_cases[of d w gp e])
  case (unreadable err)
  then show ?thesis by simp
next
  case (refused g err)
  then show ?thesis by simp
next
  case (saved g w4 r4)
  let ?ins = "map (\<lambda>n. (name n, name n @ '':0'')) (filter (\<lambda>n. op n = ''Placeholder'') g)"
  let ?w3 = "log_event (ReadGraphFile gp) (checked_and_cleared d w)"
  have "fs ?w3 d = None" using cleared_target[of d w] by (simp add: log_event_def)
  from simple_save_no_assertion[OF this, of g ?ins "[(''softmax'', ''softmax/Softmax:0'')]"] saved(2)
  have "r4 \<noteq> Inl AssertionError" by simp
  with saved(3) show ?thesis by (cases r4) simp_all
qed

lemma convert_fs:
  obtains (unchanged) "fs (fst (convert_graph_def_to_saved_model e gp d w)) = fs (checked_and_cleared d w)"
      "snd (convert_graph_def_to_saved_model e gp d w) \<noteq> Inr ()"
  | (written) g where
      "fs w gp = Some (File (GraphDefPb g))"
      "fs (fst (convert_graph_def_to_saved_model e gp d w)) =
         fs (fst (simple_save g d (map (\<lambda>n. (name n, name n @ '':0'')) (filter (\<lambda>n. op n = ''Placeholder'') g))
          [(''softmax'', ''softmax/Softmax:0'')] (log_event (ReadGraphFile gp) (checked_and_cleared d w))))"
      "snd (convert_graph_def_to_saved_model e gp d w) =
         snd (simple_save g d (map (\<lambda>n. (name n, name n @ '':0'')) (filter (\<lambda>n. op n = ''Placeholder'') g))
          [(''softmax'', ''softmax/Softmax:0'')] (log_event (ReadGraphFile gp) (checked_and_cleared d w)))"
proof (cases rule: convert_cases[of d w gp e])
  case (unreadable err)
  then have "fs (fst (convert_graph_def_to_saved_model e gp d w)) = fs (checked_and_cleared d w)"
    "snd (convert_graph_def_to_saved_model e gp d w) \<noteq> Inr ()"
    by (simp_all add: log_event_def)
  then show thesis by (rule unchanged)
next
  case (refused g err)
  then have "fs (fst (convert_graph_def_to_saved_model e gp d w)) = fs (checked_and_cleared d w)"
    "snd (convert_graph_def_to_saved_model e gp d w) \<noteq> Inr ()"
    by (simp_all add: log_event_def)
  then show thesis by (rule unchanged)
next
  case (saved g w4 r4)
  from cleared_Some[OF saved(1)] have r: "fs w gp = Some (File (GraphDefPb g))" .
  from saved(2,3) have
    "fs (fst (convert_graph_def_to_saved_model e gp d w)) =
         fs (fst (simple_save g d (map (\<lambda>n. (name n, name n @ '':0'')) (filter (\<lambda>n. op n = ''Placeholder'') g))
          [(''softmax'', ''softmax/Softmax:0'')] (log_event (ReadGraphFile gp) (checked_and_cleared d w))))"
    "snd (convert_graph_def_to_saved_model e gp d w) =
         snd (simple_save g d (map (\<lambda>n. (name n, name n @ '':0'')) (filter (\<lambda>n. op n = ''Placeholder'') g))
          [(''softmax'', ''softmax/Softmax:0'')] (log_event (ReadGraphFile gp) (checked_and_cleared d w)))"
    by (cases r4; simp add: print_line_def)+
  with r show thesis by (rule written)
qed

lemma convert_left_under:
  assumes "fs w d \<noteq> None" "is_under d p" "fs (fst (convert_graph_def_to_saved_model e gp d w)) p \<noteq> None"
  shows "snd (convert_graph_def_to_saved_model e gp d w) = Inr ()
       \<and> (p = d \<or> p = os_path_join d ''saved_model.pb'' \<or> p = os_path_join d ''variables'')"
proof (cases rule: convert_fs[of e gp d w])
  case unchanged
  with assms cleared_gone[OF assms(1,2)] show ?thesis by simp
next
  case (written g)
  let ?ins = "map (\<lambda>n. (name n, name n @ '':0'')) (filter (\<lambda>n. op n = ''Placeholder'') g)"
  let ?w3 = "log_event (ReadGraphFile gp) (checked_and_cleared d w)"
  have "fs ?w3 p = None" using cleared_gone[OF assms(1,2)] by (simp add: log_event_def)
  with assms(3) written(2)
  have "fs (fst (simple_save g d ?ins [(''softmax'', ''softmax/Softmax:0'')] ?w3)) p \<noteq> fs ?w3 p" by simp
  from simple_save_changes[OF this] written(3) ancestors_under_self[OF _ assms(2)]
  show ?thesis by auto
qed

lemma convert_changes:
  assumes "fs (fst (convert_graph_def_to_saved_model e gp d w)) p \<noteq> fs w p"
  shows "is_under d p \<or> p \<in> set (ancestors d)
       \<or> p = os_path_join d ''saved_model.pb'' \<or> p = os_path_join d ''variables''"
proof (cases "is_under d p")
  case True
  then show ?thesis by simp
next
  case False
  from cleared_elsewhere[OF False] have c: "fs (checked_and_cleared d w) p = fs w p" .
  show ?thesis
  proof (cases rule: convert_fs[of e gp d w])
    case unchanged
    with assms c show ?thesis by simp
  next
    case (written g)
    let ?ins = "map (\<lambda>n. (name n, name n @ '':0'')) (filter (\<lambda>n. op n = ''Placeholder'') g)"
    let ?w3 = "log_event (ReadGraphFile gp) (checked_and_cleared d w)"
    have "fs ?w3 p = fs w p" using c by (simp add: log_event_def)
    with assms written(2)
    have "fs (fst (simple_save g d ?ins [(''softmax'', ''softmax/Softmax:0'')] ?w3)) p \<noteq> fs ?w3 p" by simp
    from simple_save_changes[OF this] show ?thesis by auto
  qed
qed

lemma convert_Inr:
  assumes "snd (convert_graph_def_to_saved_model e gp d w) = Inr ()"
  shows "\<exists>g. fs w gp = Some (File (GraphDefPb g))
          \<and> fs (fst (convert_graph_def_to_saved_model e gp d w)) (os_path_join d ''saved_model.pb'')
              = Some (File (SavedModelPb
                  \<lparr>sm_graph = g,
                   sm_inputs = map (\<lambda>n. (name n, name n @ '':0'')) (filter (\<lambda>n. op n = ''Placeholder'') g),
                   sm_outputs = [(''softmax'', ''softmax/Softmax:0'')]\<rparr>))"
proof (cases rule: convert_fs[of e gp d w])
  case unchanged
  with assms show ?thesis by simp
next
  case (written g)
  let ?ins = "map (\<lambda>n. (name n, name n @ '':0'')) (filter (\<lambda>n. op n = ''Placeholder'') g)"
  let ?w3 = "log_event (ReadGraphFile gp) (checked_and_cleared d w)"
  from written(3) assms have "snd (simple_save g d ?ins [(''softmax'', ''softmax/Softmax:0'')] ?w3) = Inr ()"
    by simp
  from simple_save_Inr[OF this] written(1,2) show ?thesis by auto
qed

lemma export_cell_eq:
  "export_cell e w = export_savedmodel e export_dir (checked_and_cleared export_dir w)"
proof -
  obtain w1 ex where e: "gfile_Exists export_dir w = (w1, ex)" by (cases "gfile_Exists export_dir w")
  from check_then_delete[OF e] e show ?thesis by (simp add: export_cell_def)
qed

lemma export_savedmodel_trace:
  "trace (fst (export_savedmodel e b w)) = trace w @ [ExportSavedModel b]"
  by (auto simp: export_savedmodel_def Let_def log_event_def split: sum.splits prod.splits)

lemma export_savedmodel_changes:
  assumes "fs (fst (export_savedmodel e b w)) p \<noteq> fs w p"
  shows "\<exists>ts. snd (export_savedmodel e b w) = Inr (os_path_join b ts)
           \<and> (p \<in> set (ancestors (os_path_join b ts))
              \<or> p = os_path_join (os_path_join b ts) ''saved_model.pb''
              \<or> p = os_path_join (os_path_join b ts) ''variables'')"
proof (cases "export_tool e (fs w)")
  case (Inl err)
  with assms show ?thesis by (simp add: export_savedmodel_def Let_def log_event_def)
next
  case (Inr tm)
  obtain ts m where tm: "tm = (ts, m)" by (cases tm)
  let ?d = "os_path_join b ts"
  show ?thesis
  proof (cases "recursive_create_dir ?d (fs w)")
    case (Inl err)
    with Inr tm assms show ?thesis by (simp add: export_savedmodel_def Let_def log_event_def)
  next
    case rc: (Inr f)
    with Inr tm have s: "snd (export_savedmodel e b w) = Inr ?d"
      and f: "fs (fst (export_savedmodel e b w)) =
               f(os_path_join ?d ''saved_model.pb'' \<mapsto> File (SavedModelPb m),
                 os_path_join ?d ''variables'' \<mapsto> Dir)"
      by (simp_all add: export_savedmodel_def Let_def log_event_def)
    show ?thesis
    proof (cases "p = os_path_join ?d ''saved_model.pb'' \<or> p = os_path_join ?d ''variables''")
      case True
      with s show ?thesis by blast
    next
      case False
      with f assms have "f p \<noteq> fs w p" by simp
      from recursive_create_dir_changes[OF rc this] s show ?thesis by blast
    qed
  qed
qed

text \<open>
  C2: the conversion of a GraphDef to a SavedModel and the export cell first ask
  whether the target directory exists. When it exists they delete it recursively and
  only then go on to read and write; when it does not exist they attempt no deletion
  and go on all the same, so the missing directory raises nothing. After the check the
  builder never finds the directory in its way, and of a directory that existed nothing
  is left at or below it but what the new write has put there.
\<close>

theorem target_directory_cleared_before_write:
  "(\<exists>rest. trace (fst (convert_graph_def_to_saved_model e gp d w)) =
        trace w @ (if fs w d \<noteq> None then [GfileExists d, GfileDeleteRecursively d] else [GfileExists d])
          @ ReadGraphFile gp # rest
      \<and> (rest = [] \<or> (\<exists>ins outs. rest = [SimpleSave d ins outs])))
   \<and> snd (convert_graph_def_to_saved_model e gp d w) \<noteq> Inl AssertionError
   \<and> (\<forall>p. fs w d \<noteq> None \<and> is_under d p
           \<and> fs (fst (convert_graph_def_to_saved_model e gp d w)) p \<noteq> None \<longrightarrow>
         snd (convert_graph_def_to_saved_model e gp d w) = Inr ()
       \<and> (p = d \<or> p = os_path_join d ''saved_model.pb'' \<or> p = os_path_join d ''variables''))
   \<and> trace (fst (export_cell e w)) =
        trace w @ (if fs w export_dir \<noteq> None
                   then [GfileExists export_dir, GfileDeleteRecursively export_dir]
                   else [GfileExists export_dir])
          @ [ExportSavedModel export_dir]
   \<and> (\<forall>p. fs w export_dir \<noteq> None \<and> is_under export_dir p \<and> fs (fst (export_cell e w)) p \<noteq> None \<longrightarrow>
         (\<exists>ts. snd (export_cell e w) = Inr (os_path_join export_dir ts)
            \<and> (p \<in> set (ancestors (os_path_join export_dir ts))
               \<or> p = os_path_join (os_path_join export_dir ts) ''saved_model.pb''
               \<or> p = os_path_join (os_path_join export_dir ts) ''variables'')))"
proof (intro conjI allI impI)
  from convert_trace[of e gp d w]
  show "\<exists>rest. trace (fst (convert_graph_def_to_saved_model e gp d w)) =
        trace w @ (if fs w d \<noteq> None then [GfileExists d, GfileDeleteRecursively d] else [GfileExists d])
          @ ReadGraphFile gp # rest
      \<and> (rest = [] \<or> (\<exists>ins outs. rest = [SimpleSave d ins outs]))"
    by blast
next
  show "snd (convert_graph_def_to_saved_model e gp d w) \<noteq> Inl AssertionError"
    by (rule convert_no_assertion)
next
  fix p
  assume h: "fs w d \<noteq> None \<and> is_under d p \<and> fs (fst (convert_graph_def_to_saved_model e gp d w)) p \<noteq> None"
  then have a: "fs w d \<noteq> None" and b: "is_under d p"
    and c: "fs (fst (convert_graph_def_to_saved_model e gp d w)) p \<noteq> None" by simp_all
  from convert_left_under[OF a b c]
  show "snd (convert_graph_def_to_saved_model e gp d w) = Inr ()"
    and "p = d \<or> p = os_path_join d ''saved_model.pb'' \<or> p = os_path_join d ''variables''"
    by simp_all
next
  show "trace (fst (export_cell e w)) =
        trace w @ (if fs w export_dir \<noteq> None
                   then [GfileExists export_dir, GfileDeleteRecursively export_dir]
                   else [GfileExists export_dir])
          @ [ExportSavedModel export_dir]"
    by (simp add: export_cell_eq export_savedmodel_trace checked_and_cleared_def)
next
  fix p
  assume h: "fs w export_dir \<noteq> None \<and> is_under export_dir p \<and> fs (fst (export_cell e w)) p \<noteq> None"
  then have "fs (checked_and_cleared export_dir w) p = None" by (simp add: cleared_gone)
  with h have "fs (fst (export_savedmodel e export_dir (checked_and_cleared export_dir w))) p
                 \<noteq> fs (checked_and_cleared export_dir w) p"
    by (simp add: export_cell_eq)
  from export_savedmodel_changes[OF this]
  show "\<exists>ts. snd (export_cell e w) = Inr (os_path_join export_dir ts)
            \<and> (p \<in> set (ancestors (os_path_join export_dir ts))
               \<or> p = os_path_join (os_path_join export_dir ts) ''saved_model.pb''
               \<or> p = os_path_join (os_path_join export_dir ts) ''variables'')"
    by (simp add: export_cell_eq)
qed

text \<open>
  The theorem at the small disk: version 2 exists and its old content is replaced,
  version 3 does not exist and nothing is deleted, and the older export is gone.
\<close>

theorem target_directory_witness:
  "fs disk_world ''/serving/mnist/2'' = Some Dir
   \<and> is_under ''/serving/mnist/2'' ''/serving/mnist/2/saved_model.pb''
   \<and> fs disk_world ''/serving/mnist/2/saved_model.pb'' = Some (File (Blob ''old''))
   \<and> fs (fst (convert_graph_def_to_saved_model demo_env ''/m/freezed_model.pb'' ''/serving/mnist/2'' disk_world))
        ''/serving/mnist/2/saved_model.pb''
       = Some (File (SavedModelPb
           \<lparr>sm_graph = demo_graph,
            sm_inputs = [(''serving_input_image'', ''serving_input_image:0'')],
            sm_outputs = [(''softmax'', ''softmax/Softmax:0'')]\<rparr>))
   \<and> snd (convert_graph_def_to_saved_model demo_env ''/m/freezed_model.pb'' ''/serving/mnist/2'' disk_world) = Inr ()
   \<and> trace (fst (convert_graph_def_to_saved_model demo_env ''/m/freezed_model.pb'' ''/serving/mnist/2'' disk_world)) =
       [GfileExists ''/serving/mnist/2'', GfileDeleteRecursively ''/serving/mnist/2'',
        ReadGraphFile ''/m/freezed_model.pb'',
        SimpleSave ''/serving/mnist/2'' [(''serving_input_image'', ''serving_input_image:0'')]
          [(''softmax'', ''softmax/Softmax:0'')]]
   \<and> fs disk_world ''/serving/mnist/3'' = None
   \<and> snd (convert_graph_def_to_saved_model demo_env ''/m/freezed_model.pb'' ''/serving/mnist/3'' disk_world) = Inr ()
   \<and> trace (fst (convert_graph_def_to_saved_model demo_env ''/m/freezed_model.pb'' ''/serving/mnist/3'' disk_world)) =
       [GfileExists ''/serving/mnist/3'', ReadGraphFile ''/m/freezed_model.pb'',
        SimpleSave ''/serving/mnist/3'' [(''serving_input_image'', ''serving_input_image:0'')]
          [(''softmax'', ''softmax/Softmax:0'')]]
   \<and> fs disk_world export_dir = Some Dir
   \<and> trace (fst (export_cell demo_env disk_world)) =
       [GfileExists export_dir, GfileDeleteRecursively export_dir, ExportSavedModel export_dir]
   \<and> fs (fst (export_cell demo_env disk_world)) ''/saved_models/mnist/export/1560000000/saved_model.pb'' = None"
proof -
  let ?c = "convert_graph_def_to_saved_model demo_env ''/m/freezed_model.pb'' ''/serving/mnist/2'' disk_world"
  note t = target_directory_cleared_before_write[of demo_env "''/m/freezed_model.pb''" "''/serving/mnist/2''" disk_world]
  have a1: "fs disk_world ''/serving/mnist/2'' = Some Dir" by (simp add: disk_world_def)
  have a2: "is_under ''/serving/mnist/2'' ''/serving/mnist/2/saved_model.pb''" by code_simp
  have a3: "fs disk_world ''/serving/mnist/2/saved_model.pb'' = Some (File (Blob ''old''))"
    by (simp add: disk_world_def)
  have a4: "fs (fst ?c) ''/serving/mnist/2/saved_model.pb''
       = Some (File (SavedModelPb
           \<lparr>sm_graph = demo_graph,
            sm_inputs = [(''serving_input_image'', ''serving_input_image:0'')],
            sm_outputs = [(''softmax'', ''softmax/Softmax:0'')]\<rparr>))"
    by code_simp
  from a1 a2 a4 have h: "fs disk_world ''/serving/mnist/2'' \<noteq> None
      \<and> is_under ''/serving/mnist/2'' ''/serving/mnist/2/saved_model.pb''
      \<and> fs (fst ?c) ''/serving/mnist/2/saved_model.pb'' \<noteq> None" by simp
  from t[THEN conjunct2, THEN conjunct2, THEN conjunct1, THEN spec, THEN mp, OF h]
  have a5: "snd ?c = Inr ()" by simp
  have a6: "trace (fst ?c) =
       [GfileExists ''/serving/mnist/2'', GfileDeleteRecursively ''/serving/mnist/2'',
        ReadGraphFile ''/m/freezed_model.pb'',
        SimpleSave ''/serving/mnist/2'' [(''serving_input_image'', ''serving_input_image:0'')]
          [(''softmax'', ''softmax/Softmax:0'')]]"
    by code_simp
  have b1: "fs disk_world ''/serving/mnist/3'' = None" by (simp add: disk_world_def)
  have b2: "snd (convert_graph_def_to_saved_model demo_env ''/m/freezed_model.pb'' ''/serving/mnist/3'' disk_world) = Inr ()"
    by code_simp
  have b3: "trace (fst (convert_graph_def_to_saved_model demo_env ''/m/freezed_model.pb'' ''/serving/mnist/3'' disk_world)) =
       [GfileExists ''/serving/mnist/3'', ReadGraphFile ''/m/freezed_model.pb'',
        SimpleSave ''/serving/mnist/3'' [(''serving_input_image'', ''serving_input_image:0'')]
          [(''softmax'', ''softmax/Softmax:0'')]]"
    by code_simp
  have c1: "fs disk_world export_dir = Some Dir"
    by (simp add: disk_world_def export_dir_def model_dir_def MODELS_LOCATION_def MODEL_NAME_def os_path_join_def)
  from t[THEN conjunct2, THEN conjunct2, THEN conjunct2, THEN conjunct1] c1
  have c2: "trace (fst (export_cell demo_env disk_world)) =
       [GfileExists export_dir, GfileDeleteRecursively export_dir, ExportSavedModel export_dir]"
    by (simp add: disk_world_def)
  have c3: "fs (fst (export_cell demo_env disk_world)) ''/saved_models/mnist/export/1560000000/saved_model.pb'' = None"
    by code_simp
  from a1 a2 a3 a4 a5 a6 b1 b2 b3 c1 c2 c3 show ?thesis by blast
qed




subsection \<open>The serving directory\<close>

lemma serving_path_versions:
  "serving_path ''/serving'' MODEL_NAME 1 = ''/serving/mnist/1''"
  "serving_path ''/serving'' MODEL_NAME 2 = ''/serving/mnist/2''"
  "serving_path ''/serving'' MODEL_NAME 3 = ''/serving/mnist/3''"
  by (simp_all add: serving_path_def MODEL_NAME_def str_nat.simps)

lemma shell_mkdir_p_trace: "trace (shell_mkdir_p p w) = trace w @ [ShellMkdirP p]"
  by (simp add: shell_mkdir_p_def log_event_def split: sum.splits)

lemma shell_mkdir_p_changes: "fs (shell_mkdir_p p w) q \<noteq> fs w q \<Longrightarrow> q \<in> set (ancestors p)"
proof (cases "recursive_create_dir p (fs w)")
  case (Inl err)
  assume "fs (shell_mkdir_p p w) q \<noteq> fs w q"
  with Inl show ?thesis by (simp add: shell_mkdir_p_def log_event_def)
next
  case (Inr f)
  assume "fs (shell_mkdir_p p w) q \<noteq> fs w q"
  with Inr have "f q \<noteq> fs w q" by (simp add: shell_mkdir_p_def log_event_def)
  from recursive_create_dir_changes[OF Inr this] show ?thesis by simp
qed

lemma self_in_ancestors: "p \<in> set (ancestors p)"
  by (simp add: ancestors_def)

lemma shell_mkdir_p_dir:
  assumes "\<not> list_ex (\<lambda>q. is_file (fs w q)) (ancestors p)"
  shows "fs (shell_mkdir_p p w) p = Some Dir"
proof -
  from assms have r: "recursive_create_dir p (fs w)
      = Inr (\<lambda>q. if q \<in> set (ancestors p) \<and> fs w q = None then Some Dir else fs w q)"
    by (simp add: recursive_create_dir_def)
  from assms self_in_ancestors[of p] have "\<not> is_file (fs w p)" by (auto simp: list_ex_iff)
  then have "fs w p = None \<or> fs w p = Some Dir"
    by (auto simp: is_file_def split: option.splits entry.splits)
  with r self_in_ancestors[of p] show ?thesis
    by (auto simp: shell_mkdir_p_def log_event_def)
qed

lemma copy_to_serving_trace:
  "trace (copy_to_serving_cell e latest w) =
     trace w @ [ShellMkdirP ''/serving/mnist/1'',
                ShellCpR (''/saved_models/mnist/export/'' @ latest) ''/serving/mnist/1'']"
  by (simp add: copy_to_serving_cell_def Let_def shell_cp_r_children_def log_event_def shell_mkdir_p_trace)

lemma ancestors_version_1:
  "ancestors ''/serving/mnist/1'' = [''/serving'', ''/serving/mnist'', ''/serving/mnist/1'']"
  by code_simp

text \<open>The export directory and version 1 are apart, and no entry below either of them
  is a directory that \<^verbatim>\<open>mkdir -p\<close> creates.\<close>

lemma export_apart:
  "\<not> is_under (''/saved_models/mnist/export/'' @ latest) ''/serving/mnist/1''"
  "\<not> is_under ''/serving/mnist/1'' (''/saved_models/mnist/export/'' @ latest)"
  "''/saved_models/mnist/export/'' @ latest \<notin> set (ancestors ''/serving/mnist/1'')"
  "(''/saved_models/mnist/export/'' @ latest) @ ''/'' @ r \<notin> set (ancestors ''/serving/mnist/1'')"
  by (simp_all add: is_under_def ancestors_version_1)

lemma below_version_1: "''/serving/mnist/1'' @ ''/'' @ r \<notin> set (ancestors ''/serving/mnist/1'')"
  by (simp add: ancestors_version_1)

lemma cp_reaches_cong:
  assumes "f src = f' src"
    and "\<And>r. f (src @ ''/'' @ r) = f' (src @ ''/'' @ r)"
    and "\<And>r. f (dst @ ''/'' @ r) = f' (dst @ ''/'' @ r)"
  shows "cp_reaches f src dst rel = cp_reaches f' src dst rel"
  using assms by (simp add: cp_reaches_def)

text \<open>The filesystem after the copy cell, where the model follows \<^verbatim>\<open>cp\<close>.\<close>

lemma copy_to_serving_fs:
  assumes word: "shell_word (''/saved_models/mnist/export/'' @ latest)"
    and normal: "normal_abs (''/saved_models/mnist/export/'' @ latest)"
    and free: "\<not> list_ex (\<lambda>q. is_file (fs w q)) (ancestors ''/serving/mnist/1'')"
  shows "fs (copy_to_serving_cell e latest w) =
     (\<lambda>p. if prefix (''/serving/mnist/1'' @ ''/'') p
              \<and> cp_reaches (fs w) (''/saved_models/mnist/export/'' @ latest) ''/serving/mnist/1''
                   (drop (length ''/serving/mnist/1'' + 1) p)
           then fs w ((''/saved_models/mnist/export/'' @ latest) @ ''/'' @ drop (length ''/serving/mnist/1'' + 1) p)
           else fs (shell_mkdir_p ''/serving/mnist/1'' w) p)"
proof -
  let ?src = "''/saved_models/mnist/export/'' @ latest"
  let ?dst = "''/serving/mnist/1''"
  let ?w1 = "shell_mkdir_p ?dst w"
  have same: "fs ?w1 q = fs w q" if "q \<notin> set (ancestors ?dst)" for q
    using shell_mkdir_p_changes[of ?dst w q] that by blast
  have s0: "fs ?w1 ?src = fs w ?src" by (rule same) (rule export_apart(3))
  have s1: "fs ?w1 (?src @ ''/'' @ r) = fs w (?src @ ''/'' @ r)" for r
    by (rule same) (rule export_apart(4))
  have s2: "fs ?w1 (?dst @ ''/'' @ r) = fs w (?dst @ ''/'' @ r)" for r
    by (rule same) (rule below_version_1)
  have reach: "cp_reaches (fs ?w1) ?src ?dst rel = cp_reaches (fs w) ?src ?dst rel" for rel
    using s0 s1 s2 by (rule cp_reaches_cong)
  have nd: "normal_abs ?dst" by code_simp
  have "cp_followed (fs ?w1) ?src ?dst"
    unfolding cp_followed_def
    using word normal nd export_apart(1,2)[of latest] shell_mkdir_p_dir[OF free] by blast
  then have "fs (copy_to_serving_cell e latest w) =
     (\<lambda>p. if prefix (?dst @ ''/'') p \<and> cp_reaches (fs ?w1) ?src ?dst (drop (length ?dst + 1) p)
           then fs ?w1 (?src @ ''/'' @ drop (length ?dst + 1) p)
           else fs ?w1 p)"
    by (simp add: copy_to_serving_cell_def Let_def shell_cp_r_children_def log_event_def)
  also have "\<dots> =
     (\<lambda>p. if prefix (?dst @ ''/'') p \<and> cp_reaches (fs w) ?src ?dst (drop (length ?dst + 1) p)
           then fs w (?src @ ''/'' @ drop (length ?dst + 1) p)
           else fs ?w1 p)"
    unfolding reach s1 ..
  finally show ?thesis .
qed

lemma copy_to_serving_effect:
  assumes word: "shell_word (''/saved_models/mnist/export/'' @ latest)"
    and normal: "normal_abs (''/saved_models/mnist/export/'' @ latest)"
    and free: "\<not> list_ex (\<lambda>q. is_file (fs w q)) (ancestors ''/serving/mnist/1'')"
  shows "fs (copy_to_serving_cell e latest w) ''/serving/mnist/1'' = Some Dir"
    and "\<And>rel. cp_reaches (fs w) (''/saved_models/mnist/export/'' @ latest) ''/serving/mnist/1'' rel \<Longrightarrow>
          fs (copy_to_serving_cell e latest w) (''/serving/mnist/1'' @ ''/'' @ rel)
            = fs w ((''/saved_models/mnist/export/'' @ latest) @ ''/'' @ rel)"
    and "\<And>rel. \<not> cp_reaches (fs w) (''/saved_models/mnist/export/'' @ latest) ''/serving/mnist/1'' rel \<Longrightarrow>
          fs (copy_to_serving_cell e latest w) (''/serving/mnist/1'' @ ''/'' @ rel)
            = fs w (''/serving/mnist/1'' @ ''/'' @ rel)"
    and "\<And>p. fs (copy_to_serving_cell e latest w) p \<noteq> fs w p \<Longrightarrow>
          is_under ''/serving/mnist/1'' p \<or> p = ''/serving'' \<or> p = ''/serving/mnist''"
proof -
  let ?src = "''/saved_models/mnist/export/'' @ latest"
  let ?dst = "''/serving/mnist/1''"
  let ?w1 = "shell_mkdir_p ?dst w"
  note f = copy_to_serving_fs[OF word normal free, where e = e]
  have np: "\<not> prefix (?dst @ ''/'') ?dst" by (simp add: prefix_def)
  show "fs (copy_to_serving_cell e latest w) ?dst = Some Dir"
    unfolding f using np shell_mkdir_p_dir[OF free] by simp
  have dr: "drop (length ?dst + 1) (?dst @ ''/'' @ rel) = rel" for rel by simp
  have pr: "prefix (?dst @ ''/'') (?dst @ ''/'' @ rel)" for rel by (simp add: prefix_def)
  {
    fix rel assume "cp_reaches (fs w) ?src ?dst rel"
    then show "fs (copy_to_serving_cell e latest w) (?dst @ ''/'' @ rel) = fs w (?src @ ''/'' @ rel)"
      unfolding f dr using pr[of rel] by simp
  }
  {
    fix rel assume n: "\<not> cp_reaches (fs w) ?src ?dst rel"
    have "fs ?w1 (?dst @ ''/'' @ rel) = fs w (?dst @ ''/'' @ rel)"
      using shell_mkdir_p_changes[of ?dst w "?dst @ ''/'' @ rel"] below_version_1[of rel] by blast
    with n show "fs (copy_to_serving_cell e latest w) (?dst @ ''/'' @ rel) = fs w (?dst @ ''/'' @ rel)"
      unfolding f dr by simp
  }
  {
    fix p assume ch: "fs (copy_to_serving_cell e latest w) p \<noteq> fs w p"
    show "is_under ?dst p \<or> p = ''/serving'' \<or> p = ''/serving/mnist''"
    proof (cases "prefix (?dst @ ''/'') p")
      case True
      then show ?thesis by (simp add: is_under_def)
    next
      case False
      with ch have "fs ?w1 p \<noteq> fs w p" unfolding f by simp
      from shell_mkdir_p_changes[OF this] show ?thesis
        by (auto simp: ancestors_version_1 is_under_def)
    qed
  }
qed

lemma os_path_join_not_self:
  assumes "b \<noteq> []" "hd b \<noteq> CHR ''/''"
  shows "os_path_join d b \<noteq> d"
  using assms by (simp add: os_path_join_relative)

lemma simple_save_dir:
  assumes "snd (simple_save g d ins outs w) = Inr ()"
  shows "fs (fst (simple_save g d ins outs w)) d = Some Dir"
proof (cases "fs w d = None")
  case False
  with assms show ?thesis by (simp add: simple_save_def Let_def)
next
  case True
  show ?thesis
  proof (cases "recursive_create_dir d (fs w)")
    case (Inl err)
    with True assms show ?thesis by (simp add: simple_save_def Let_def)
  next
    case (Inr f)
    then have "f d = Some Dir"
      using True self_in_ancestors[of d] by (auto simp: recursive_create_dir_def split: if_splits)
    with True Inr os_path_join_not_self[of "''saved_model.pb''" d] os_path_join_not_self[of "''variables''" d]
    show ?thesis
      by (simp add: simple_save_def Let_def log_event_def)
  qed
qed

lemma convert_dir:
  assumes "snd (convert_graph_def_to_saved_model e gp d w) = Inr ()"
  shows "fs (fst (convert_graph_def_to_saved_model e gp d w)) d = Some Dir"
proof (cases rule: convert_fs[of e gp d w])
  case unchanged
  with assms show ?thesis by simp
next
  case (written g)
  let ?ins = "map (\<lambda>n. (name n, name n @ '':0'')) (filter (\<lambda>n. op n = ''Placeholder'') g)"
  let ?w3 = "log_event (ReadGraphFile gp) (checked_and_cleared d w)"
  from written(3) assms have "snd (simple_save g d ?ins [(''softmax'', ''softmax/Softmax:0'')] ?w3) = Inr ()"
    by simp
  from simple_save_dir[OF this] written(2) show ?thesis by simp
qed

lemma version_dir_changes:
  assumes anc: "ancestors d = [''/serving'', ''/serving/mnist'', d]"
    and nonempty: "d \<noteq> []" and noslash: "last d \<noteq> CHR ''/''"
    and ch: "fs (fst (convert_graph_def_to_saved_model e gp d w)) p \<noteq> fs w p"
  shows "is_under d p \<or> p = ''/serving'' \<or> p = ''/serving/mnist''"
proof -
  have j1: "os_path_join d ''saved_model.pb'' = d @ ''/'' @ ''saved_model.pb''"
    using nonempty noslash by (simp add: os_path_join_def)
  have j2: "os_path_join d ''variables'' = d @ ''/'' @ ''variables''"
    using nonempty noslash by (simp add: os_path_join_def)
  from convert_changes[OF ch]
  consider "is_under d p" | "p \<in> set (ancestors d)"
    | "p = os_path_join d ''saved_model.pb''" | "p = os_path_join d ''variables''" by blast
  then show ?thesis
  proof cases
    case 1 then show ?thesis by simp
  next
    case 2 with anc show ?thesis by (auto simp: is_under_def)
  next
    case 3 with j1 show ?thesis by (simp add: is_under_def)
  next
    case 4 with j2 show ?thesis by (simp add: is_under_def)
  qed
qed

lemma ancestors_versions:
  "ancestors ''/serving/mnist/2'' = [''/serving'', ''/serving/mnist'', ''/serving/mnist/2'']"
  "ancestors ''/serving/mnist/3'' = [''/serving'', ''/serving/mnist'', ''/serving/mnist/3'']"
  by code_simp+

text \<open>
  C8: the three cells that put a model where the server reads write to
  \<^verbatim>\<open>/serving/mnist/1\<close>, \<^verbatim>\<open>/serving/mnist/2\<close> and \<^verbatim>\<open>/serving/mnist/3\<close>, which are the
  paths \<^verbatim>\<open>{base}/{model_name}/{version}\<close> for the base \<^verbatim>\<open>/serving\<close>, the model name
  \<^verbatim>\<open>mnist\<close> and the versions 1, 2 and 3, all distinct. The copy cell runs
  \<^verbatim>\<open>mkdir -p\<close> and \<^verbatim>\<open>cp -r\<close> on version 1. When the name of the export is a plain word
  and no file stands where \<^verbatim>\<open>mkdir -p\<close> needs a directory, version 1 is a directory
  after the cell, every entry of the export that \<^verbatim>\<open>cp\<close> reaches (not the entries
  whose names start with a dot, and none that would replace a directory by a file or a
  file by a directory) is under version 1 as it is in the export, and every other entry
  under version 1 is as it was. The conversion of the frozen graph, when it returns, has
  made version 2 a directory and written the SavedModel of \<^verbatim>\<open>freezed_model.pb\<close> into
  it, and the conversion of the optimised graph that of \<^verbatim>\<open>optimised_model.pb\<close> into
  version 3. Each of these cells changes nothing outside its version directory, but for
  creating the directories above it.
\<close>

theorem serving_versions_layout:
  "serving_path ''/serving'' MODEL_NAME 1 = ''/serving/mnist/1''
   \<and> serving_path ''/serving'' MODEL_NAME 2 = ''/serving/mnist/2''
   \<and> serving_path ''/serving'' MODEL_NAME 3 = ''/serving/mnist/3''
   \<and> distinct [serving_path ''/serving'' MODEL_NAME 1, serving_path ''/serving'' MODEL_NAME 2,
                 serving_path ''/serving'' MODEL_NAME 3]
   \<and> trace (copy_to_serving_cell e latest w) =
       trace w @ [ShellMkdirP (serving_path ''/serving'' MODEL_NAME 1),
                  ShellCpR (''/saved_models/mnist/export/'' @ latest) (serving_path ''/serving'' MODEL_NAME 1)]
   \<and> (shell_word (''/saved_models/mnist/export/'' @ latest)
        \<and> normal_abs (''/saved_models/mnist/export/'' @ latest)
        \<and> \<not> list_ex (\<lambda>q. is_file (fs w q)) (ancestors (serving_path ''/serving'' MODEL_NAME 1)) \<longrightarrow>
        fs (copy_to_serving_cell e latest w) (serving_path ''/serving'' MODEL_NAME 1) = Some Dir
      \<and> (\<forall>rel. cp_reaches (fs w) (''/saved_models/mnist/export/'' @ latest)
                   (serving_path ''/serving'' MODEL_NAME 1) rel \<longrightarrow>
            fs (copy_to_serving_cell e latest w) (serving_path ''/serving'' MODEL_NAME 1 @ ''/'' @ rel)
              = fs w ((''/saved_models/mnist/export/'' @ latest) @ ''/'' @ rel))
      \<and> (\<forall>rel. \<not> cp_reaches (fs w) (''/saved_models/mnist/export/'' @ latest)
                   (serving_path ''/serving'' MODEL_NAME 1) rel \<longrightarrow>
            fs (copy_to_serving_cell e latest w) (serving_path ''/serving'' MODEL_NAME 1 @ ''/'' @ rel)
              = fs w (serving_path ''/serving'' MODEL_NAME 1 @ ''/'' @ rel))
      \<and> (\<forall>p. fs (copy_to_serving_cell e latest w) p \<noteq> fs w p \<longrightarrow>
            is_under (serving_path ''/serving'' MODEL_NAME 1) p \<or> p = ''/serving'' \<or> p = ''/serving/mnist''))
   \<and> convert_frozen_cell e smd w =
       convert_graph_def_to_saved_model e (os_path_join smd ''freezed_model.pb'')
         (serving_path ''/serving'' MODEL_NAME 2) w
   \<and> (snd (convert_frozen_cell e smd w) = Inr () \<longrightarrow>
        fs (fst (convert_frozen_cell e smd w)) (serving_path ''/serving'' MODEL_NAME 2) = Some Dir
      \<and> (\<exists>g. fs w (os_path_join smd ''freezed_model.pb'') = Some (File (GraphDefPb g))
           \<and> fs (fst (convert_frozen_cell e smd w)) (serving_path ''/serving'' MODEL_NAME 2 @ ''/saved_model.pb'')
               = Some (File (SavedModelPb
                   \<lparr>sm_graph = g,
                    sm_inputs = map (\<lambda>n. (name n, name n @ '':0'')) (filter (\<lambda>n. op n = ''Placeholder'') g),
                    sm_outputs = [(''softmax'', ''softmax/Softmax:0'')]\<rparr>))))
   \<and> (\<forall>p. fs (fst (convert_frozen_cell e smd w)) p \<noteq> fs w p \<longrightarrow>
         is_under (serving_path ''/serving'' MODEL_NAME 2) p \<or> p = ''/serving'' \<or> p = ''/serving/mnist'')
   \<and> convert_optimised_cell e smd w =
       convert_graph_def_to_saved_model e (os_path_join smd ''optimised_model.pb'')
         (serving_path ''/serving'' MODEL_NAME 3) w
   \<and> (snd (convert_optimised_cell e smd w) = Inr () \<longrightarrow>
        fs (fst (convert_optimised_cell e smd w)) (serving_path ''/serving'' MODEL_NAME 3) = Some Dir
      \<and> (\<exists>g. fs w (os_path_join smd ''optimised_model.pb'') = Some (File (GraphDefPb g))
           \<and> fs (fst (convert_optimised_cell e smd w)) (serving_path ''/serving'' MODEL_NAME 3 @ ''/saved_model.pb'')
               = Some (File (SavedModelPb
                   \<lparr>sm_graph = g,
                    sm_inputs = map (\<lambda>n. (name n, name n @ '':0'')) (filter (\<lambda>n. op n = ''Placeholder'') g),
                    sm_outputs = [(''softmax'', ''softmax/Softmax:0'')]\<rparr>))))
   \<and> (\<forall>p. fs (fst (convert_optimised_cell e smd w)) p \<noteq> fs w p \<longrightarrow>
         is_under (serving_path ''/serving'' MODEL_NAME 3) p \<or> p = ''/serving'' \<or> p = ''/serving/mnist'')"
proof (intro conjI allI impI)
  show "serving_path ''/serving'' MODEL_NAME 1 = ''/serving/mnist/1''"
    and "serving_path ''/serving'' MODEL_NAME 2 = ''/serving/mnist/2''"
    and "serving_path ''/serving'' MODEL_NAME 3 = ''/serving/mnist/3''"
    by (rule serving_path_versions)+
  show "distinct [serving_path ''/serving'' MODEL_NAME 1, serving_path ''/serving'' MODEL_NAME 2,
                 serving_path ''/serving'' MODEL_NAME 3]"
    unfolding serving_path_versions by simp
  show "trace (copy_to_serving_cell e latest w) =
       trace w @ [ShellMkdirP (serving_path ''/serving'' MODEL_NAME 1),
                  ShellCpR (''/saved_models/mnist/export/'' @ latest) (serving_path ''/serving'' MODEL_NAME 1)]"
    by (simp only: serving_path_versions copy_to_serving_trace)
  show "convert_frozen_cell e smd w =
       convert_graph_def_to_saved_model e (os_path_join smd ''freezed_model.pb'')
         (serving_path ''/serving'' MODEL_NAME 2) w"
    by (simp only: serving_path_versions convert_frozen_cell_def freezed_filepath_def)
  show "convert_optimised_cell e smd w =
       convert_graph_def_to_saved_model e (os_path_join smd ''optimised_model.pb'')
         (serving_path ''/serving'' MODEL_NAME 3) w"
    by (simp only: serving_path_versions convert_optimised_cell_def optimised_filepath_def)
next
  assume h: "shell_word (''/saved_models/mnist/export/'' @ latest)
        \<and> normal_abs (''/saved_models/mnist/export/'' @ latest)
        \<and> \<not> list_ex (\<lambda>q. is_file (fs w q)) (ancestors (serving_path ''/serving'' MODEL_NAME 1))"
  then have word: "shell_word (''/saved_models/mnist/export/'' @ latest)"
    and normal: "normal_abs (''/saved_models/mnist/export/'' @ latest)"
    by blast+
  from h have free: "\<not> list_ex (\<lambda>q. is_file (fs w q)) (ancestors ''/serving/mnist/1'')"
    unfolding serving_path_versions by blast
  note eff = copy_to_serving_effect[OF word normal free, where e = e]
  show "fs (copy_to_serving_cell e latest w) (serving_path ''/serving'' MODEL_NAME 1) = Some Dir"
    unfolding serving_path_versions by (rule eff(1))
  {
    fix rel
    assume "cp_reaches (fs w) (''/saved_models/mnist/export/'' @ latest)
                   (serving_path ''/serving'' MODEL_NAME 1) rel"
    then show "fs (copy_to_serving_cell e latest w) (serving_path ''/serving'' MODEL_NAME 1 @ ''/'' @ rel)
              = fs w ((''/saved_models/mnist/export/'' @ latest) @ ''/'' @ rel)"
      unfolding serving_path_versions by (rule eff(2))
  }
  {
    fix rel
    assume "\<not> cp_reaches (fs w) (''/saved_models/mnist/export/'' @ latest)
                   (serving_path ''/serving'' MODEL_NAME 1) rel"
    then show "fs (copy_to_serving_cell e latest w) (serving_path ''/serving'' MODEL_NAME 1 @ ''/'' @ rel)
              = fs w (serving_path ''/serving'' MODEL_NAME 1 @ ''/'' @ rel)"
      unfolding serving_path_versions by (rule eff(3))
  }
  {
    fix p
    assume "fs (copy_to_serving_cell e latest w) p \<noteq> fs w p"
    then show "is_under (serving_path ''/serving'' MODEL_NAME 1) p \<or> p = ''/serving'' \<or> p = ''/serving/mnist''"
      unfolding serving_path_versions by (rule eff(4))
  }
next
  assume "snd (convert_frozen_cell e smd w) = Inr ()"
  then have s: "snd (convert_graph_def_to_saved_model e (os_path_join smd ''freezed_model.pb'') ''/serving/mnist/2'' w) = Inr ()"
    by (simp add: convert_frozen_cell_def freezed_filepath_def)
  from convert_dir[OF s]
  show "fs (fst (convert_frozen_cell e smd w)) (serving_path ''/serving'' MODEL_NAME 2) = Some Dir"
    by (simp add: serving_path_versions convert_frozen_cell_def freezed_filepath_def)
  from convert_Inr[OF s]
  show "\<exists>g. fs w (os_path_join smd ''freezed_model.pb'') = Some (File (GraphDefPb g))
           \<and> fs (fst (convert_frozen_cell e smd w)) (serving_path ''/serving'' MODEL_NAME 2 @ ''/saved_model.pb'')
               = Some (File (SavedModelPb
                   \<lparr>sm_graph = g,
                    sm_inputs = map (\<lambda>n. (name n, name n @ '':0'')) (filter (\<lambda>n. op n = ''Placeholder'') g),
                    sm_outputs = [(''softmax'', ''softmax/Softmax:0'')]\<rparr>))"
    by (simp add: serving_path_versions convert_frozen_cell_def freezed_filepath_def os_path_join_def)
next
  fix p
  assume "fs (fst (convert_frozen_cell e smd w)) p \<noteq> fs w p"
  then have "fs (fst (convert_graph_def_to_saved_model e (os_path_join smd ''freezed_model.pb'') ''/serving/mnist/2'' w)) p \<noteq> fs w p"
    by (simp add: convert_frozen_cell_def freezed_filepath_def)
  from version_dir_changes[OF ancestors_versions(1) _ _ this]
  show "is_under (serving_path ''/serving'' MODEL_NAME 2) p \<or> p = ''/serving'' \<or> p = ''/serving/mnist''"
    by (simp add: serving_path_versions)
next
  assume "snd (convert_optimised_cell e smd w) = Inr ()"
  then have s: "snd (convert_graph_def_to_saved_model e (os_path_join smd ''optimised_model.pb'') ''/serving/mnist/3'' w) = Inr ()"
    by (simp add: convert_optimised_cell_def optimised_filepath_def)
  from convert_dir[OF s]
  show "fs (fst (convert_optimised_cell e smd w)) (serving_path ''/serving'' MODEL_NAME 3) = Some Dir"
    by (simp add: serving_path_versions convert_optimised_cell_def optimised_filepath_def)
  from convert_Inr[OF s]
  show "\<exists>g. fs w (os_path_join smd ''optimised_model.pb'') = Some (File (GraphDefPb g))
           \<and> fs (fst (convert_optimised_cell e smd w)) (serving_path ''/serving'' MODEL_NAME 3 @ ''/saved_model.pb'')
               = Some (File (SavedModelPb
                   \<lparr>sm_graph = g,
                    sm_inputs = map (\<lambda>n. (name n, name n @ '':0'')) (filter (\<lambda>n. op n = ''Placeholder'') g),
                    sm_outputs = [(''softmax'', ''softmax/Softmax:0'')]\<rparr>))"
    by (simp add: serving_path_versions convert_optimised_cell_def optimised_filepath_def os_path_join_def)
next
  fix p
  assume "fs (fst (convert_optimised_cell e smd w)) p \<noteq> fs w p"
  then have "fs (fst (convert_graph_def_to_saved_model e (os_path_join smd ''optimised_model.pb'') ''/serving/mnist/3'' w)) p \<noteq> fs w p"
    by (simp add: convert_optimised_cell_def optimised_filepath_def)
  from version_dir_changes[OF ancestors_versions(2) _ _ this]
  show "is_under (serving_path ''/serving'' MODEL_NAME 3) p \<or> p = ''/serving'' \<or> p = ''/serving/mnist''"
    by (simp add: serving_path_versions)
qed

text \<open>
  The theorem at an export \<^verbatim>\<open>1560000000\<close> that holds a model file, a hidden file, a
  directory of variables and a file \<^verbatim>\<open>assets\<close>, where version 1 already has a
  directory \<^verbatim>\<open>assets\<close>; and at the small disk with the model directory \<^verbatim>\<open>/m\<close>.
\<close>

theorem serving_versions_witness:
  "shell_word (''/saved_models/mnist/export/'' @ ''1560000000'')
   \<and> normal_abs (''/saved_models/mnist/export/'' @ ''1560000000'')
   \<and> \<not> list_ex (\<lambda>q. is_file (fs export_world q)) (ancestors (serving_path ''/serving'' MODEL_NAME 1))
   \<and> fs (copy_to_serving_cell demo_env ''1560000000'' export_world) ''/serving/mnist/1'' = Some Dir
   \<and> fs (copy_to_serving_cell demo_env ''1560000000'' export_world) ''/serving/mnist/1/saved_model.pb''
       = Some (File (Blob ''export''))
   \<and> fs (copy_to_serving_cell demo_env ''1560000000'' export_world) ''/serving/mnist/1/variables/variables.index''
       = Some (File (Blob ''index''))
   \<and> fs export_world ''/saved_models/mnist/export/1560000000/.hidden'' = Some (File (Blob ''dot''))
   \<and> fs (copy_to_serving_cell demo_env ''1560000000'' export_world) ''/serving/mnist/1/.hidden'' = None
   \<and> fs (copy_to_serving_cell demo_env ''1560000000'' export_world) ''/serving/mnist/1/assets'' = Some Dir
   \<and> snd (convert_frozen_cell demo_env ''/m'' disk_world) = Inr ()
   \<and> fs (fst (convert_frozen_cell demo_env ''/m'' disk_world)) ''/serving/mnist/2'' = Some Dir
   \<and> (\<exists>g. fs disk_world (os_path_join ''/m'' ''freezed_model.pb'') = Some (File (GraphDefPb g))
         \<and> fs (fst (convert_frozen_cell demo_env ''/m'' disk_world)) ''/serving/mnist/2/saved_model.pb''
             = Some (File (SavedModelPb
                 \<lparr>sm_graph = g,
                  sm_inputs = map (\<lambda>n. (name n, name n @ '':0'')) (filter (\<lambda>n. op n = ''Placeholder'') g),
                  sm_outputs = [(''softmax'', ''softmax/Softmax:0'')]\<rparr>)))
   \<and> snd (convert_optimised_cell demo_env ''/m'' disk_world) = Inr ()
   \<and> fs disk_world ''/serving/mnist/3'' = None
   \<and> fs (fst (convert_optimised_cell demo_env ''/m'' disk_world)) ''/serving/mnist/3'' = Some Dir
   \<and> (\<exists>g. fs disk_world (os_path_join ''/m'' ''optimised_model.pb'') = Some (File (GraphDefPb g))
         \<and> fs (fst (convert_optimised_cell demo_env ''/m'' disk_world)) ''/serving/mnist/3/saved_model.pb''
             = Some (File (SavedModelPb
                 \<lparr>sm_graph = g,
                  sm_inputs = map (\<lambda>n. (name n, name n @ '':0'')) (filter (\<lambda>n. op n = ''Placeholder'') g),
                  sm_outputs = [(''softmax'', ''softmax/Softmax:0'')]\<rparr>)))
   \<and> fs (fst (convert_frozen_cell demo_env ''/m'' disk_world)) ''/serving/mnist/2/saved_model.pb''
       \<noteq> fs disk_world ''/serving/mnist/2/saved_model.pb''
   \<and> is_under ''/serving/mnist/2'' ''/serving/mnist/2/saved_model.pb''"
proof -
  let ?src = "''/saved_models/mnist/export/'' @ ''1560000000''"
  note x = serving_versions_layout[where latest = "''1560000000''" and w = export_world and e = demo_env]
  note t = serving_versions_layout[where w = disk_world and smd = "''/m''" and e = demo_env]
  note v = t[THEN conjunct1] t[THEN conjunct2, THEN conjunct1] t[THEN conjunct2, THEN conjunct2, THEN conjunct1]
  note r = t[THEN conjunct2, THEN conjunct2, THEN conjunct2, THEN conjunct2, THEN conjunct2, THEN conjunct2]
  have g1: "shell_word ?src" by code_simp
  have g2: "normal_abs ?src" by code_simp
  have g3: "\<not> list_ex (\<lambda>q. is_file (fs export_world q)) (ancestors (serving_path ''/serving'' MODEL_NAME 1))"
    by code_simp
  note c = x[THEN conjunct2, THEN conjunct2, THEN conjunct2, THEN conjunct2, THEN conjunct2, THEN conjunct1,
      THEN mp, OF conjI[OF g1 conjI[OF g2 g3]]]
  from c[THEN conjunct1]
  have d1: "fs (copy_to_serving_cell demo_env ''1560000000'' export_world) ''/serving/mnist/1'' = Some Dir"
    unfolding v .
  have r1: "cp_reaches (fs export_world) ?src (serving_path ''/serving'' MODEL_NAME 1) ''saved_model.pb''"
    by code_simp
  have r2: "cp_reaches (fs export_world) ?src (serving_path ''/serving'' MODEL_NAME 1) ''variables/variables.index''"
    by code_simp
  have r3: "\<not> cp_reaches (fs export_world) ?src (serving_path ''/serving'' MODEL_NAME 1) ''.hidden''"
    by code_simp
  have r4: "\<not> cp_reaches (fs export_world) ?src (serving_path ''/serving'' MODEL_NAME 1) ''assets''"
    by code_simp
  have s1: "fs export_world (?src @ ''/'' @ ''saved_model.pb'') = Some (File (Blob ''export''))"
    by (simp add: export_world_def)
  have s2: "fs export_world (?src @ ''/'' @ ''variables/variables.index'') = Some (File (Blob ''index''))"
    by (simp add: export_world_def)
  have s3: "fs export_world (''/serving/mnist/1'' @ ''/'' @ ''.hidden'') = None"
    by (simp add: export_world_def)
  have s4: "fs export_world (''/serving/mnist/1'' @ ''/'' @ ''assets'') = Some Dir"
    by (simp add: export_world_def)
  have s5: "fs export_world ''/saved_models/mnist/export/1560000000/.hidden'' = Some (File (Blob ''dot''))"
    by (simp add: export_world_def)
  from c[THEN conjunct2, THEN conjunct1, THEN spec, THEN mp, OF r1] s1
  have d2: "fs (copy_to_serving_cell demo_env ''1560000000'' export_world) ''/serving/mnist/1/saved_model.pb''
       = Some (File (Blob ''export''))"
    unfolding v by simp
  from c[THEN conjunct2, THEN conjunct1, THEN spec, THEN mp, OF r2] s2
  have d3: "fs (copy_to_serving_cell demo_env ''1560000000'' export_world) ''/serving/mnist/1/variables/variables.index''
       = Some (File (Blob ''index''))"
    unfolding v by simp
  from c[THEN conjunct2, THEN conjunct2, THEN conjunct1, THEN spec, THEN mp, OF r3] s3
  have d4: "fs (copy_to_serving_cell demo_env ''1560000000'' export_world) ''/serving/mnist/1/.hidden'' = None"
    unfolding v by simp
  from c[THEN conjunct2, THEN conjunct2, THEN conjunct1, THEN spec, THEN mp, OF r4] s4
  have d5: "fs (copy_to_serving_cell demo_env ''1560000000'' export_world) ''/serving/mnist/1/assets'' = Some Dir"
    unfolding v by simp
  have h2: "snd (convert_frozen_cell demo_env ''/m'' disk_world) = Inr ()" by code_simp
  note f = r[THEN conjunct2, THEN conjunct1, THEN mp, OF h2]
  from f[THEN conjunct1]
  have c2d: "fs (fst (convert_frozen_cell demo_env ''/m'' disk_world)) ''/serving/mnist/2'' = Some Dir"
    unfolding v .
  from f[THEN conjunct2]
  have c2: "\<exists>g. fs disk_world (os_path_join ''/m'' ''freezed_model.pb'') = Some (File (GraphDefPb g))
         \<and> fs (fst (convert_frozen_cell demo_env ''/m'' disk_world)) ''/serving/mnist/2/saved_model.pb''
             = Some (File (SavedModelPb
                 \<lparr>sm_graph = g,
                  sm_inputs = map (\<lambda>n. (name n, name n @ '':0'')) (filter (\<lambda>n. op n = ''Placeholder'') g),
                  sm_outputs = [(''softmax'', ''softmax/Softmax:0'')]\<rparr>))"
    unfolding v by simp
  have h3: "snd (convert_optimised_cell demo_env ''/m'' disk_world) = Inr ()" by code_simp
  have h3n: "fs disk_world ''/serving/mnist/3'' = None" by (simp add: disk_world_def)
  note o = r[THEN conjunct2, THEN conjunct2, THEN conjunct2, THEN conjunct2, THEN conjunct1, THEN mp, OF h3]
  from o[THEN conjunct1]
  have c3d: "fs (fst (convert_optimised_cell demo_env ''/m'' disk_world)) ''/serving/mnist/3'' = Some Dir"
    unfolding v .
  from o[THEN conjunct2]
  have c3: "\<exists>g. fs disk_world (os_path_join ''/m'' ''optimised_model.pb'') = Some (File (GraphDefPb g))
         \<and> fs (fst (convert_optimised_cell demo_env ''/m'' disk_world)) ''/serving/mnist/3/saved_model.pb''
             = Some (File (SavedModelPb
                 \<lparr>sm_graph = g,
                  sm_inputs = map (\<lambda>n. (name n, name n @ '':0'')) (filter (\<lambda>n. op n = ''Placeholder'') g),
                  sm_outputs = [(''softmax'', ''softmax/Softmax:0'')]\<rparr>))"
    unfolding v by simp
  have h4: "fs (fst (convert_frozen_cell demo_env ''/m'' disk_world)) ''/serving/mnist/2/saved_model.pb''
       \<noteq> fs disk_world ''/serving/mnist/2/saved_model.pb''"
    by code_simp
  from r[THEN conjunct2, THEN conjunct2, THEN conjunct1, THEN spec, THEN mp, OF h4]
  have c4: "is_under ''/serving/mnist/2'' ''/serving/mnist/2/saved_model.pb''"
    unfolding v by simp
  from g1 g2 g3 d1 d2 d3 s5 d4 d5 h2 c2d c2 h3 h3n c3d c3 h4 c4 show ?thesis by blast
qed

end
